(* ===== verification/Prelude.thy ===== *)
theory Prelude
  imports Main "HOL-Library.Word"
begin

text \<open>
  Shared vocabulary of the development: the JavaScript string operations the
  sources call (\<open>toLowerCase\<close>, \<open>toUpperCase\<close>, \<open>trim\<close>, \<open>includes\<close>,
  \<open>startsWith\<close>, the \<open>||\<close> default on strings) over HOL strings, and the
  generic lemmas on them that the component theories use.  Strings are byte
  strings (\<open>char\<close> is a byte); the messages the program handles are taken to be
  ASCII, where JavaScript's UTF-16 code units and these bytes coincide.
\<close>

named_theorems js_string_simps "evaluation and algebra rules of the JavaScript string model"
named_theorems suffix_matcher_intros "matchers that leave a suffix of their input"
named_theorems consumes_only_intros "matchers that consume only characters of a class"

type_synonym byte = "8 word"

section \<open>Characters\<close>

text \<open>The white-space class \<open>\s\<close> of ECMAScript regular expressions and
  \<open>String.prototype.trim\<close>, restricted to ASCII.\<close>

definition is_js_space :: "char \<Rightarrow> bool" where
  "is_js_space c \<longleftrightarrow> c \<in> {CHR '' '', CHR 0x09, CHR 0x0A, CHR 0x0B, CHR 0x0C, CHR 0x0D}"

definition is_newline :: "char \<Rightarrow> bool" where
  "is_newline c \<longleftrightarrow> c \<in> {CHR 0x0A, CHR 0x0D}"

definition lower_char :: "char \<Rightarrow> char" where
  "lower_char c = (let n = (of_char c :: nat) in if 65 \<le> n \<and> n \<le> 90 then char_of (n + 32) else c)"

definition upper_char :: "char \<Rightarrow> char" where
  "upper_char c = (let n = (of_char c :: nat) in if 97 \<le> n \<and> n \<le> 122 then char_of (n - 32) else c)"

section \<open>String operations\<close>

definition js_lower :: "string \<Rightarrow> string" where
  "js_lower s = map lower_char s"

definition js_upper :: "string \<Rightarrow> string" where
  "js_upper s = map upper_char s"

definition js_trim :: "string \<Rightarrow> string" where
  "js_trim s = rev (dropWhile is_js_space (rev (dropWhile is_js_space s)))"

text \<open>\<open>a || b\<close> on strings: the empty string is the only falsy string.\<close>

definition js_or :: "string \<Rightarrow> string \<Rightarrow> string" where
  "js_or a b = (if a \<noteq> [] then a else b)"

fun str_starts_with :: "string \<Rightarrow> string \<Rightarrow> bool" where
  "str_starts_with [] s = True"
| "str_starts_with (k # ks) [] = False"
| "str_starts_with (k # ks) (c # cs) = (k = c \<and> str_starts_with ks cs)"

text \<open>\<open>s.includes(k)\<close>.\<close>

fun str_includes :: "string \<Rightarrow> string \<Rightarrow> bool" where
  "str_includes [] k = (k = [])"
| "str_includes (c # cs) k = (str_starts_with k (c # cs) \<or> str_includes cs k)"

abbreviation newline :: string where
  "newline \<equiv> [CHR 0x0A]"

text \<open>\<open>xs.join(sep)\<close>.\<close>

fun js_join :: "string \<Rightarrow> string list \<Rightarrow> string" where
  "js_join sep [] = []"
| "js_join sep [x] = x"
| "js_join sep (x # y # ys) = x @ sep @ js_join sep (y # ys)"

text \<open>A natural number printed in decimal, as a template literal prints it.\<close>

fun dec_string :: "nat \<Rightarrow> string" where
  "dec_string n =
     (if n < 10 then [char_of (48 + n)] else dec_string (n div 10) @ [char_of (48 + n mod 10)])"

declare dec_string.simps [simp del]

section \<open>Lemmas\<close>

lemma js_join_infix:
  "x \<in> set xs \<Longrightarrow> \<exists>a b. js_join sep xs = a @ x @ b"
proof (induction sep xs rule: js_join.induct)
  case (1 sep)
  then show ?case by simp
next
  case (2 sep y)
  then have "x = y" by simp
  then have "js_join sep [y] = [] @ x @ []" by simp
  then show ?case by blast
next
  case (3 sep y z zs)
  then show ?case by (auto simp: js_join.simps(3)) (metis append.assoc append_Cons)+
qed


lemma js_join_Cons: "js_join sep (x # xs) = x @ (if xs = [] then [] else sep @ js_join sep xs)"
  by (cases xs) simp_all

lemma js_join_append:
  "js_join sep (xs @ ys) = js_join sep xs @ (if xs = [] \<or> ys = [] then [] else sep) @ js_join sep ys"
  by (induction xs) (auto simp: js_join_Cons)

lemma js_join_order: "\<exists>a b c. js_join sep (xs @ x # ys @ y # zs) = a @ x @ b @ y @ c"
proof -
  have "js_join sep (xs @ x # ys @ y # zs) =
        (js_join sep xs @ (if xs = [] then [] else sep)) @ x @
        (sep @ js_join sep ys @ (if ys = [] then [] else sep)) @ y @
        (if zs = [] then [] else sep @ js_join sep zs)"
    by (simp add: js_join_append js_join_Cons)
  then show ?thesis by blast
qed

lemma str_starts_with_iff [js_string_simps]: "str_starts_with k s \<longleftrightarrow> (\<exists>r. s = k @ r)"
  by (induction k s rule: str_starts_with.induct) auto

lemma str_includes_iff [js_string_simps]: "str_includes s k \<longleftrightarrow> (\<exists>a b. s = a @ k @ b)"
proof (induction s)
  case Nil
  then show ?case by auto
next
  case (Cons c cs)
  have "(\<exists>a b. c # cs = a @ k @ b) \<longleftrightarrow> (\<exists>r. c # cs = k @ r) \<or> (\<exists>a b. cs = a @ k @ b)"
    by (auto simp: Cons_eq_append_conv)
  with Cons.IH show ?case by (simp add: str_starts_with_iff)
qed

lemma str_starts_with_append: "str_starts_with k s \<Longrightarrow> str_starts_with k (s @ t)"
  by (auto simp: str_starts_with_iff)

lemma str_includes_append_left [intro]: "str_includes a k \<Longrightarrow> str_includes (a @ b) k"
  unfolding str_includes_iff by (metis append.assoc)

lemma str_includes_append_right [intro]: "str_includes b k \<Longrightarrow> str_includes (a @ b) k"
  by (auto simp: str_includes_iff) (metis append.assoc)

lemma str_includes_infix_middle: "\<exists>u v. s = u @ (a @ x @ b) @ v \<Longrightarrow> str_includes s x"
  unfolding str_includes_iff by (metis append.assoc)

lemma str_includes_trans:
  "str_includes s k \<Longrightarrow> str_includes k k' \<Longrightarrow> str_includes s k'"
  by (auto simp: str_includes_iff) (metis append.assoc)

lemma length_js_lower [simp]: "length (js_lower s) = length s"
  by (simp add: js_lower_def)

lemma js_lower_append [js_string_simps]: "js_lower (a @ b) = js_lower a @ js_lower b"
  by (simp add: js_lower_def)

lemma js_lower_Cons [js_string_simps]: "js_lower (c # s) = lower_char c # js_lower s"
  by (simp add: js_lower_def)

lemma js_lower_Nil [js_string_simps]: "js_lower [] = []"
  by (simp add: js_lower_def)

lemma lower_char_idem [simp]: "lower_char (lower_char c) = lower_char c"
  by (simp add: lower_char_def Let_def)

lemma js_lower_idem [simp]: "js_lower (js_lower s) = js_lower s"
  by (simp add: js_lower_def)

lemma js_or_nonempty [simp]: "b \<noteq> [] \<Longrightarrow> js_or a b \<noteq> []"
  by (simp add: js_or_def)

lemma js_or_cases: "js_or a b = a \<and> a \<noteq> [] \<or> js_or a b = b \<and> a = []"
  by (simp add: js_or_def)

lemma last_dropWhile: "dropWhile P xs \<noteq> [] \<Longrightarrow> last (dropWhile P xs) = last xs"
  by (metis dropWhile_eq_drop drop_eq_Nil last_drop not_le_imp_less)

text \<open>What \<open>trim\<close> returns: empty, or a string that begins and ends with a
  non-space character; and such a string is its own trim.\<close>

lemma js_trim_ends:
  assumes "js_trim s \<noteq> []"
  shows "\<not> is_js_space (hd (js_trim s)) \<and> \<not> is_js_space (last (js_trim s))"
proof -
  let ?x = "dropWhile is_js_space s"
  let ?y = "dropWhile is_js_space (rev ?x)"
  have y: "?y \<noteq> []" using assms by (simp add: js_trim_def)
  then have x: "?x \<noteq> []" by (metis dropWhile.simps(1) rev.simps(1))
  have "last (js_trim s) = hd ?y" using y by (simp add: js_trim_def last_rev)
  moreover have "\<not> is_js_space (hd ?y)" using y by (rule hd_dropWhile)
  moreover have "hd (js_trim s) = last ?y" using y by (simp add: js_trim_def hd_rev)
  moreover have "last ?y = hd ?x" using y x by (simp add: last_dropWhile last_rev)
  moreover have "\<not> is_js_space (hd ?x)" using x by (rule hd_dropWhile)
  ultimately show ?thesis by simp
qed

lemma js_trim_id:
  assumes "t = [] \<or> \<not> is_js_space (hd t) \<and> \<not> is_js_space (last t)"
  shows "js_trim t = t"
proof (cases "t = []")
  case True
  then show ?thesis by (simp add: js_trim_def)
next
  case False
  with assms have h: "\<not> is_js_space (hd t)" and l: "\<not> is_js_space (last t)" by auto
  from False h have "dropWhile is_js_space t = t" by (cases t) auto
  moreover from False l have "dropWhile is_js_space (rev t) = rev t"
    by (cases "rev t") (auto simp: last_rev[symmetric])
  ultimately show ?thesis by (simp add: js_trim_def)
qed

lemma js_trim_idem [simp]: "js_trim (js_trim s) = js_trim s"
  using js_trim_ends js_trim_id by blast

lemma js_trim_infix: "\<exists>a b. s = a @ js_trim s @ b"
proof -
  let ?x = "dropWhile is_js_space s"
  have "s = takeWhile is_js_space s @ ?x" by simp
  moreover have "rev ?x = takeWhile is_js_space (rev ?x) @ dropWhile is_js_space (rev ?x)" by simp
  then have "?x = js_trim s @ rev (takeWhile is_js_space (rev ?x))"
    by (metis js_trim_def rev_append rev_rev_ident)
  ultimately show ?thesis by (metis append.assoc)
qed

text \<open>An equation for \<open>lower_char\<close> on the bits of the character, used to
  evaluate: upper-case ASCII letters are the codes \<open>010xxxxx\<close> with low five
  bits from 1 to 26, and lower-casing sets bit 5.\<close>

lemma lower_char_Char [code]:
  "lower_char (Char b0 b1 b2 b3 b4 b5 b6 b7) =
     (if \<not> b7 \<and> b6 \<and> \<not> b5 \<and> (b0 \<or> b1 \<or> b2 \<or> b3 \<or> b4) \<and> \<not> (b4 \<and> b3 \<and> (b2 \<or> b1 \<and> b0))
      then Char b0 b1 b2 b3 b4 True b6 b7 else Char b0 b1 b2 b3 b4 b5 b6 b7)"
  by (cases b0; cases b1; cases b2; cases b3; cases b4; cases b5; cases b6; cases b7)
     (simp_all add: lower_char_def char_of_def bit_simps)

end
