(* ===== verification/JsRegex.thy ===== *)
theory JsRegex
  imports Prelude "HOL-Library.Sublist"
begin

text \<open>
  The ECMAScript regular-expression semantics the sources rely on, as
  backtracking matchers.  A matcher maps the rest of the input to every way
  the pattern can match a prefix of it, each given by the input that is left,
  in the order the backtracking engine tries them: longest first for a greedy
  quantifier, shortest first for a lazy one, left alternative before right.
  A sequence tries its second part after each way of its first part, so the
  first element of the list is the match the engine commits to.  On top of the
  matchers: \<open>String.prototype.match\<close> without the \<open>g\<close> flag (leftmost start,
  first path, the whole match and group 1), \<open>RegExp.prototype.test\<close>,
  the first piece of \<open>String.prototype.split\<close>, and \<open>replace\<close> with the
  \<open>g\<close> flag.  Each pattern of the sources is then written in these terms in the
  component that uses it.
\<close>

type_synonym matcher = "string \<Rightarrow> string list"

section \<open>Matchers\<close>

definition m_empty :: matcher where
  "m_empty s = [s]"

text \<open>A literal; under the \<open>i\<close> flag compared after case folding.\<close>

definition m_lit :: "string \<Rightarrow> matcher" where
  "m_lit w s = (if str_starts_with w s then [drop (length w) s] else [])"

definition m_lit_ci :: "string \<Rightarrow> matcher" where
  "m_lit_ci w s =
     (if str_starts_with (js_lower w) (js_lower (take (length w) s)) then [drop (length w) s] else [])"

text \<open>A character class repeated at least \<open>lo\<close> times (\<open>+\<close> is \<open>lo = 1\<close>, \<open>*\<close>
  is \<open>lo = 0\<close>, \<open>{2,}\<close> is \<open>lo = 2\<close>), greedy or lazy.\<close>

definition m_rep :: "(char \<Rightarrow> bool) \<Rightarrow> nat \<Rightarrow> matcher" where
  "m_rep P lo s = map (\<lambda>k. drop k s) (rev [lo..<Suc (length (takeWhile P s))])"

definition m_rep_lazy :: "(char \<Rightarrow> bool) \<Rightarrow> nat \<Rightarrow> matcher" where
  "m_rep_lazy P lo s = map (\<lambda>k. drop k s) [lo..<Suc (length (takeWhile P s))]"

text \<open>A single character of a class, \<open>[...]\<close>.\<close>

definition m_char :: "(char \<Rightarrow> bool) \<Rightarrow> matcher" where
  "m_char P s = (case s of c # r \<Rightarrow> if P c then [r] else [] | [] \<Rightarrow> [])"

definition m_seq :: "matcher \<Rightarrow> matcher \<Rightarrow> matcher" where
  "m_seq m1 m2 s = concat (map m2 (m1 s))"

text \<open>A concatenation of several parts.\<close>

definition m_seqs :: "matcher list \<Rightarrow> matcher" where
  "m_seqs ms = foldr m_seq ms m_empty"

definition m_alt :: "matcher \<Rightarrow> matcher \<Rightarrow> matcher" where
  "m_alt m1 m2 s = m1 s @ m2 s"

text \<open>A positive lookahead \<open>(?=\<dots>)\<close> and the end anchor \<open>$\<close> (no \<open>m\<close> flag).\<close>

definition m_ahead :: "matcher \<Rightarrow> matcher" where
  "m_ahead m s = (if m s = [] then [] else [s])"

definition m_end :: matcher where
  "m_end s = (if s = [] then [s] else [])"

text \<open>The character classes used by the patterns: \<open>.\<close> (anything but a line
  terminator), \<open>\s\<close>, \<open>\w\<close>, and ASCII letters and digits.\<close>

definition is_dot :: "char \<Rightarrow> bool" where
  "is_dot c \<longleftrightarrow> \<not> is_newline c"

definition is_alpha :: "char \<Rightarrow> bool" where
  "is_alpha c \<longleftrightarrow> (let n = (of_char c :: nat) in 65 \<le> n \<and> n \<le> 90 \<or> 97 \<le> n \<and> n \<le> 122)"

definition is_digit :: "char \<Rightarrow> bool" where
  "is_digit c \<longleftrightarrow> (let n = (of_char c :: nat) in 48 \<le> n \<and> n \<le> 57)"

definition is_word :: "char \<Rightarrow> bool" where
  "is_word c \<longleftrightarrow> is_alpha c \<or> is_digit c \<or> c = CHR ''_''"

section \<open>Match, test, split and replace\<close>

text \<open>A pattern \<open>pre(cap)post\<close> with one capturing group, anchored at the
  start of \<open>t\<close>: the first path through \<open>pre\<close> and \<open>cap\<close> after which \<open>post\<close>
  matches gives the whole match and group 1.\<close>

definition match_at :: "matcher \<Rightarrow> matcher \<Rightarrow> matcher \<Rightarrow> string \<Rightarrow> (string \<times> string) option" where
  "match_at pre cap post t =
     (case [(r1, r2). r1 \<leftarrow> pre t, r2 \<leftarrow> cap r1, post r2 \<noteq> []] of
        [] \<Rightarrow> None
      | (r1, r2) # _ \<Rightarrow> Some (take (length t - length (hd (post r2))) t,
                              take (length r1 - length r2) r1))"

text \<open>\<open>s.match(re)\<close>: the leftmost start position at which the pattern matches.\<close>

fun regex_match :: "matcher \<Rightarrow> matcher \<Rightarrow> matcher \<Rightarrow> string \<Rightarrow> (string \<times> string) option" where
  "regex_match pre cap post [] = match_at pre cap post []"
| "regex_match pre cap post (c # cs) =
     (case match_at pre cap post (c # cs) of
        None \<Rightarrow> regex_match pre cap post cs
      | r \<Rightarrow> r)"

text \<open>\<open>re.test(s)\<close>.\<close>

fun regex_test :: "matcher \<Rightarrow> string \<Rightarrow> bool" where
  "regex_test m [] = (m [] \<noteq> [])"
| "regex_test m (c # cs) = (m (c # cs) \<noteq> [] \<or> regex_test m cs)"

text \<open>\<open>s.split(re)[0]\<close>: the input up to the first position where the separator
  matches a non-empty piece.\<close>

fun split_head :: "matcher \<Rightarrow> string \<Rightarrow> string" where
  "split_head m [] = []"
| "split_head m (c # cs) =
     (case m (c # cs) of
        r # _ \<Rightarrow> if length r < Suc (length cs) then [] else c # split_head m cs
      | [] \<Rightarrow> c # split_head m cs)"

text \<open>\<open>s.replace(re, rep)\<close> with the \<open>g\<close> flag: from left to right, each match
  is replaced and the scan resumes after it; after an empty match one character
  is copied, as the engine advances \<open>lastIndex\<close>.\<close>

function replace_all :: "matcher \<Rightarrow> string \<Rightarrow> string \<Rightarrow> string" where
  "replace_all m rep s =
     (case m s of
        [] \<Rightarrow> (case s of [] \<Rightarrow> [] | c # cs \<Rightarrow> c # replace_all m rep cs)
      | r # _ \<Rightarrow>
          if length r < length s then rep @ replace_all m rep r
          else rep @ (case s of [] \<Rightarrow> [] | c # cs \<Rightarrow> c # replace_all m rep cs))"
  by pat_completeness auto
termination
  by (relation "measure (\<lambda>(m, rep, s). length s)") auto

text \<open>\<open>s.replace(re, rep)\<close> without the \<open>g\<close> flag: the leftmost match, the
  first path of the engine, is replaced; without a match the string is
  unchanged.\<close>

fun replace_first :: "matcher \<Rightarrow> string \<Rightarrow> string \<Rightarrow> string" where
  "replace_first m rep [] = (case m [] of [] \<Rightarrow> [] | r # _ \<Rightarrow> rep @ r)"
| "replace_first m rep (c # cs) =
     (case m (c # cs) of [] \<Rightarrow> c # replace_first m rep cs | r # _ \<Rightarrow> rep @ r)"

text \<open>Every matcher of the sources consumes a prefix of its input: what it leaves
  is a suffix.\<close>

definition suffix_matcher :: "matcher \<Rightarrow> bool" where
  "suffix_matcher m \<longleftrightarrow> (\<forall>t. \<forall>r \<in> set (m t). suffix r t)"

text \<open>A matcher that consumes only characters of a class \<open>Q\<close>.\<close>

definition consumes_only :: "(char \<Rightarrow> bool) \<Rightarrow> matcher \<Rightarrow> bool" where
  "consumes_only Q m \<longleftrightarrow> (\<forall>t r. r \<in> set (m t) \<longrightarrow> (\<exists>p. t = p @ r \<and> list_all Q p))"

section \<open>Lemmas\<close>

lemma set_m_rep: "r \<in> set (m_rep P lo s) \<longleftrightarrow> (\<exists>k. lo \<le> k \<and> k \<le> length (takeWhile P s) \<and> r = drop k s)"
  by (auto simp: m_rep_def)

lemma set_m_rep_lazy: "set (m_rep_lazy P lo s) = set (m_rep P lo s)"
  by (simp add: m_rep_def m_rep_lazy_def)

lemma set_m_seq: "r \<in> set (m_seq m1 m2 s) \<longleftrightarrow> (\<exists>r1 \<in> set (m1 s). r \<in> set (m2 r1))"
  by (auto simp: m_seq_def)

lemma regex_test_iff: "regex_test m s \<longleftrightarrow> (\<exists>i \<le> length s. m (drop i s) \<noteq> [])"
proof (induction s)
  case Nil
  then show ?case by simp
next
  case (Cons c cs)
  have "(\<exists>i \<le> length (c # cs). m (drop i (c # cs)) \<noteq> []) \<longleftrightarrow>
        m (c # cs) \<noteq> [] \<or> (\<exists>i \<le> length cs. m (drop i cs) \<noteq> [])"
  proof
    assume "\<exists>i \<le> length (c # cs). m (drop i (c # cs)) \<noteq> []"
    then obtain i where "i \<le> length (c # cs)" "m (drop i (c # cs)) \<noteq> []" by blast
    then show "m (c # cs) \<noteq> [] \<or> (\<exists>i \<le> length cs. m (drop i cs) \<noteq> [])"
      by (cases i) auto
  next
    assume "m (c # cs) \<noteq> [] \<or> (\<exists>i \<le> length cs. m (drop i cs) \<noteq> [])"
    then show "\<exists>i \<le> length (c # cs). m (drop i (c # cs)) \<noteq> []"
      by (metis Suc_le_mono drop0 drop_Suc_Cons length_Cons zero_le)
  qed
  with Cons.IH show ?case by simp
qed

lemma split_head_prefix: "\<exists>r. s = split_head m s @ r"
  by (induction s) (auto split: list.splits)

lemma match_at_group:
  assumes "match_at pre cap post t = Some (w, g)"
    and "\<And>r1. r1 \<in> set (pre t) \<Longrightarrow> \<exists>p. t = p @ r1"
    and "\<And>r1 r2. r2 \<in> set (cap r1) \<Longrightarrow> \<exists>p. r1 = p @ r2"
  shows "\<exists>a b. t = a @ g @ b"
proof -
  obtain r1 r2 rest where c: "[(r1, r2). r1 \<leftarrow> pre t, r2 \<leftarrow> cap r1, post r2 \<noteq> []] = (r1, r2) # rest"
    using assms(1) by (auto simp: match_at_def split: list.splits)
  then have "(r1, r2) \<in> set [(r1, r2). r1 \<leftarrow> pre t, r2 \<leftarrow> cap r1, post r2 \<noteq> []]" by simp
  then have r1: "r1 \<in> set (pre t)" and r2: "r2 \<in> set (cap r1)" by auto
  from c assms(1) have g: "g = take (length r1 - length r2) r1" by (simp add: match_at_def)
  obtain p where p: "t = p @ r1" using assms(2) r1 by blast
  obtain q where q: "r1 = q @ r2" using assms(3) r2 by blast
  from g q have "g = q" by simp
  with p q show ?thesis by auto
qed

lemma str_starts_with_take:
  "str_starts_with k (take (length k) s) \<longleftrightarrow> str_starts_with k s"
  by (induction k s rule: str_starts_with.induct) auto

lemma m_lit_ci_nonempty [simp]: "m_lit_ci w s \<noteq> [] \<longleftrightarrow> str_starts_with (js_lower w) (js_lower s)"
proof -
  have "js_lower (take (length w) s) = take (length (js_lower w)) (js_lower s)"
    by (simp add: js_lower_def take_map)
  then show ?thesis using str_starts_with_take [of "js_lower w" "js_lower s"] by (simp add: m_lit_ci_def)
qed

lemma foldr_m_alt_nonempty:
  "foldr m_alt ms m s \<noteq> [] \<longleftrightarrow> (\<exists>m' \<in> set ms. m' s \<noteq> []) \<or> m s \<noteq> []"
  by (induction ms) (auto simp: m_alt_def)

lemma js_lower_drop: "js_lower (drop i s) = drop i (js_lower s)"
  by (simp add: js_lower_def drop_map)

lemma str_includes_drop: "str_includes s k \<longleftrightarrow> (\<exists>i \<le> length s. str_starts_with k (drop i s))"
proof
  assume "str_includes s k"
  then obtain a b where "s = a @ k @ b" by (auto simp: str_includes_iff)
  then show "\<exists>i \<le> length s. str_starts_with k (drop i s)"
    by (intro exI[of _ "length a"]) (simp add: str_starts_with_iff)
next
  assume "\<exists>i \<le> length s. str_starts_with k (drop i s)"
  then obtain i r where "drop i s = k @ r" by (auto simp: str_starts_with_iff)
  then have "s = take i s @ k @ r" by (metis append_take_drop_id)
  then show "str_includes s k" by (auto simp: str_includes_iff)
qed

text \<open>A test of a case-insensitive literal is a substring test on the
  lower-cased text.\<close>

lemma regex_test_lit_ci:
  "regex_test (m_lit_ci w) t \<longleftrightarrow> str_includes (js_lower t) (js_lower w)"
  by (simp add: regex_test_iff str_includes_drop js_lower_drop)

lemma regex_test_alts_ci:
  "regex_test (foldr m_alt (map m_lit_ci ws) (m_lit_ci w)) t \<longleftrightarrow>
     (\<exists>k \<in> set (w # ws). str_includes (js_lower t) (js_lower k))"
  by (auto simp: regex_test_iff foldr_m_alt_nonempty str_includes_drop js_lower_drop)

lemma m_seq_empty_right [simp]: "m_seq m m_empty = m"
proof -
  have "concat (map (\<lambda>s. [s]) xs) = xs" for xs :: "string list" by (induction xs) auto
  then show ?thesis by (simp add: m_seq_def m_empty_def [abs_def] fun_eq_iff)
qed

lemma m_seqs_simps [simp]:
  "m_seqs [] = m_empty" "m_seqs [m] = m" "m_seqs (m # m' # ms) = m_seq m (m_seqs (m' # ms))"
  by (simp_all add: m_seqs_def)

declare replace_all.simps [simp del]

lemma replace_all_nomatch:
  "m s = [] \<Longrightarrow> replace_all m rep s = (case s of [] \<Rightarrow> [] | c # cs \<Rightarrow> c # replace_all m rep cs)"
  by (subst replace_all.simps) simp

lemma replace_all_match:
  "m s = r # rs \<Longrightarrow> replace_all m rep s =
     rep @ (if length r < length s then replace_all m rep r
            else case s of [] \<Rightarrow> [] | c # cs \<Rightarrow> c # replace_all m rep cs)"
  by (subst replace_all.simps) simp

lemma suffix_matcherD: "suffix_matcher m \<Longrightarrow> r \<in> set (m t) \<Longrightarrow> suffix r t"
  by (simp add: suffix_matcher_def)

lemma suffix_matcher_basic [suffix_matcher_intros]:
  "suffix_matcher m_empty" "suffix_matcher (m_lit w)" "suffix_matcher (m_lit_ci w)"
  "suffix_matcher (m_rep P lo)" "suffix_matcher (m_rep_lazy P lo)" "suffix_matcher (m_char P)"
  "suffix_matcher (m_ahead m)" "suffix_matcher m_end"
  by (auto simp: suffix_matcher_def m_empty_def m_lit_def m_lit_ci_def m_rep_def m_rep_lazy_def
      m_char_def m_ahead_def m_end_def suffix_drop intro: suffix_ConsI split: list.splits)

lemma suffix_matcher_comb [suffix_matcher_intros]:
  "suffix_matcher m1 \<Longrightarrow> suffix_matcher m2 \<Longrightarrow> suffix_matcher (m_seq m1 m2)"
  "suffix_matcher m1 \<Longrightarrow> suffix_matcher m2 \<Longrightarrow> suffix_matcher (m_alt m1 m2)"
  by (fastforce simp: suffix_matcher_def set_m_seq m_alt_def intro: suffix_order.trans)+

lemma suffix_matcher_seqs [suffix_matcher_intros]:
  "(\<And>m. m \<in> set ms \<Longrightarrow> suffix_matcher m) \<Longrightarrow> suffix_matcher (m_seqs ms)"
  by (induction ms) (auto simp: m_seqs_def intro: suffix_matcher_comb suffix_matcher_basic)

text \<open>A global replacement copies characters of its input and of the
  replacement, nothing else.\<close>

lemma replace_all_set:
  assumes "suffix_matcher m"
  shows "set (replace_all m rep s) \<subseteq> set s \<union> set rep"
proof (induction s rule: length_induct)
  case (1 s)
  have tail: "set (case s of [] \<Rightarrow> [] | c # cs \<Rightarrow> c # replace_all m rep cs) \<subseteq> set s \<union> set rep"
  proof (cases s)
    case (Cons c cs)
    then have "set (replace_all m rep cs) \<subseteq> set cs \<union> set rep" using 1 by simp
    with Cons show ?thesis by auto
  qed simp
  show ?case
  proof (cases "m s")
    case Nil
    with tail show ?thesis by (simp add: replace_all_nomatch)
  next
    case (Cons r rs)
    note eq = replace_all_match [of m s r rs rep, OF Cons]
    have "suffix r s" using suffix_matcherD [OF assms] Cons by simp
    then have sub: "set r \<subseteq> set s" by (rule set_mono_suffix)
    show ?thesis
    proof (cases "length r < length s")
      case True
      then have "set (replace_all m rep r) \<subseteq> set r \<union> set rep" using 1 by blast
      with sub True show ?thesis unfolding eq by auto
    next
      case False
      with tail show ?thesis unfolding eq by auto
    qed
  qed
qed

lemma regex_test_infix:
  assumes mono: "\<And>x y. m x \<noteq> [] \<Longrightarrow> m (x @ y) \<noteq> []" and t: "regex_test m t"
  shows "regex_test m (a @ t @ b)"
proof -
  obtain i where i: "i \<le> length t" "m (drop i t) \<noteq> []" using t by (auto simp: regex_test_iff)
  from i(2) have "m (drop i t @ b) \<noteq> []" by (rule mono)
  moreover have "drop (length a + i) (a @ t @ b) = drop i t @ b" using i(1) by simp
  ultimately show ?thesis using i(1) by (auto simp: regex_test_iff intro!: exI [of _ "length a + i"])
qed

lemma split_head_no_test:
  assumes shorter: "\<And>t r. r \<in> set (m t) \<Longrightarrow> length r < length t"
    and mono: "\<And>x y. m x \<noteq> [] \<Longrightarrow> m (x @ y) \<noteq> []"
  shows "\<not> regex_test m (split_head m s)"
proof (induction s)
  case Nil
  have "m [] = []" using shorter [of _ "[]"] by (cases "m []") auto
  then show ?case by simp
next
  case (Cons c cs)
  show ?case
  proof (cases "m (c # cs)")
    case Nil
    obtain r where r: "cs = split_head m cs @ r" using split_head_prefix by blast
    have "m (c # split_head m cs) = []"
    proof (rule ccontr)
      assume "m (c # split_head m cs) \<noteq> []"
      then have "m ((c # split_head m cs) @ r) \<noteq> []" by (rule mono)
      with r Nil show False by simp
    qed
    with Nil Cons.IH show ?thesis by simp
  next
    case (Cons r rs)
    then have "length r < Suc (length cs)" using shorter [of r "c # cs"] by simp
    moreover have "m [] = []" using shorter [of _ "[]"] by (cases "m []") auto
    ultimately show ?thesis using Cons by simp
  qed
qed

lemma split_head_cut:
  assumes shorter: "\<And>t r. r \<in> set (m t) \<Longrightarrow> length r < length t"
    and k: "m (drop k s) \<noteq> []"
  shows "\<exists>j \<le> k. split_head m s = take j s"
  using k
proof (induction s arbitrary: k)
  case Nil
  show ?case by (intro exI [of _ 0]) simp
next
  case (Cons c cs)
  show ?case
  proof (cases "m (c # cs)")
    case Nil
    with Cons.prems obtain k' where k': "k = Suc k'" by (cases k) auto
    with Cons.prems have "m (drop k' cs) \<noteq> []" by simp
    then obtain j where "j \<le> k'" "split_head m cs = take j cs" using Cons.IH by blast
    with Nil k' show ?thesis by (intro exI [of _ "Suc j"]) simp
  next
    case (Cons r rs)
    then have "length r < Suc (length cs)" using shorter [of r "c # cs"] by simp
    with Cons show ?thesis by (intro exI [of _ 0]) simp
  qed
qed

lemma lit_alts_ci_nonempty:
  "foldr m_alt (map m_lit_ci ws) (m_lit_ci w) z \<noteq> [] \<longleftrightarrow>
     (\<exists>v \<in> set (w # ws). str_starts_with (js_lower v) (js_lower z))"
  by (auto simp: foldr_m_alt_nonempty)

lemma m_seq_rep_nonempty:
  "m_seq (m_rep P lo) M x \<noteq> [] \<longleftrightarrow> (\<exists>k. lo \<le> k \<and> k \<le> length (takeWhile P x) \<and> M (drop k x) \<noteq> [])"
proof
  assume "m_seq (m_rep P lo) M x \<noteq> []"
  then have "hd (m_seq (m_rep P lo) M x) \<in> set (m_seq (m_rep P lo) M x)" by simp
  then obtain r1 where r1: "r1 \<in> set (m_rep P lo x)" and "hd (m_seq (m_rep P lo) M x) \<in> set (M r1)"
    unfolding set_m_seq by blast
  then have "M r1 \<noteq> []" by auto
  with r1 show "\<exists>k. lo \<le> k \<and> k \<le> length (takeWhile P x) \<and> M (drop k x) \<noteq> []"
    unfolding set_m_rep by blast
next
  assume "\<exists>k. lo \<le> k \<and> k \<le> length (takeWhile P x) \<and> M (drop k x) \<noteq> []"
  then obtain k where k: "lo \<le> k" "k \<le> length (takeWhile P x)" "M (drop k x) \<noteq> []" by blast
  then have "drop k x \<in> set (m_rep P lo x)" unfolding set_m_rep by blast
  moreover have "hd (M (drop k x)) \<in> set (M (drop k x))" using k(3) by simp
  ultimately have "hd (M (drop k x)) \<in> set (m_seq (m_rep P lo) M x)" unfolding set_m_seq by blast
  then show "m_seq (m_rep P lo) M x \<noteq> []" by auto
qed

lemma m_seq_rep_mono:
  assumes mono: "\<And>x y. M x \<noteq> [] \<Longrightarrow> M (x @ y) \<noteq> []"
    and x: "m_seq (m_rep P lo) M x \<noteq> []"
  shows "m_seq (m_rep P lo) M (x @ y) \<noteq> []"
proof -
  obtain k where k: "lo \<le> k" "k \<le> length (takeWhile P x)" "M (drop k x) \<noteq> []"
    using x by (auto simp: m_seq_rep_nonempty)
  have "length (takeWhile P x) \<le> length (takeWhile P (x @ y))"
    by (induction x) auto
  moreover have "k \<le> length x" using k(2) length_takeWhile_le order_trans by blast
  moreover from k(3) have "M (drop k x @ y) \<noteq> []" by (rule mono)
  ultimately show ?thesis unfolding m_seq_rep_nonempty using k(1,2)
    by (intro exI [of _ k] conjI) simp_all
qed

lemma lit_alts_ci_mono:
  "foldr m_alt (map m_lit_ci ws) (m_lit_ci w) x \<noteq> [] \<Longrightarrow>
   foldr m_alt (map m_lit_ci ws) (m_lit_ci w) (x @ y) \<noteq> []"
  unfolding lit_alts_ci_nonempty js_lower_append by (blast intro: str_starts_with_append)

lemma suffix_matcher_lit_alts [suffix_matcher_intros]:
  "suffix_matcher (foldr m_alt (map m_lit_ci ws) (m_lit_ci w))"
  by (induction ws) (simp_all add: suffix_matcher_basic suffix_matcher_comb)

lemma split_head_id: "\<not> regex_test m s \<Longrightarrow> split_head m s = s"
  by (induction s) auto

lemma replace_all_lit_char: "replace_all (m_lit [c]) [d] s = map (\<lambda>x. if x = c then d else x) s"
proof (induction s)
  case Nil
  then show ?case by (simp add: m_lit_def replace_all_nomatch)
next
  case (Cons x xs)
  then show ?case
    by (cases "x = c") (simp_all add: m_lit_def replace_all_nomatch replace_all_match)
qed

text \<open>Removing every character of a class (\<open>replace(/[...]/g, '')\<close>) is a filter.\<close>

lemma replace_all_char_filter: "replace_all (m_char P) [] s = filter (\<lambda>c. \<not> P c) s"
proof (induction s)
  case Nil
  then show ?case by (simp add: m_char_def replace_all_nomatch)
next
  case (Cons c cs)
  then show ?case by (cases "P c") (simp_all add: m_char_def replace_all_nomatch replace_all_match)
qed

section \<open>Consumption and required characters\<close>

lemma consumes_onlyD:
  "consumes_only Q m \<Longrightarrow> r \<in> set (m t) \<Longrightarrow> \<exists>p. t = p @ r \<and> list_all Q p"
  by (simp add: consumes_only_def)

lemma consumes_only_basic [consumes_only_intros]:
  "consumes_only Q m_empty"
  "list_all Q w \<Longrightarrow> consumes_only Q (m_lit w)"
  "(\<And>c. P c \<Longrightarrow> Q c) \<Longrightarrow> consumes_only Q (m_rep P lo)"
  "(\<And>c. P c \<Longrightarrow> Q c) \<Longrightarrow> consumes_only Q (m_rep_lazy P lo)"
proof -
  show "consumes_only Q m_empty" by (simp add: consumes_only_def m_empty_def)
  show "list_all Q w \<Longrightarrow> consumes_only Q (m_lit w)"
    by (auto simp: consumes_only_def m_lit_def str_starts_with_iff)
  have rep: "consumes_only Q (m_rep P lo)" if PQ: "\<And>c. P c \<Longrightarrow> Q c"
  proof (unfold consumes_only_def, intro allI impI)
    fix t r assume "r \<in> set (m_rep P lo t)"
    then obtain k where k: "k \<le> length (takeWhile P t)" "r = drop k t" by (auto simp: set_m_rep)
    have "take k t = take k (takeWhile P t)" using k(1)
      by (metis append_Nil2 diff_is_0_eq take_0 take_append takeWhile_dropWhile_id)
    then have "list_all P (take k t)"
      by (simp add: list_all_iff) (meson in_set_takeD set_takeWhileD)
    then have "list_all Q (take k t)" using PQ by (simp add: list_all_iff)
    with k(2) show "\<exists>p. t = p @ r \<and> list_all Q p" by (intro exI [of _ "take k t"]) simp
  qed
  show "(\<And>c. P c \<Longrightarrow> Q c) \<Longrightarrow> consumes_only Q (m_rep P lo)" by (rule rep)
  show "(\<And>c. P c \<Longrightarrow> Q c) \<Longrightarrow> consumes_only Q (m_rep_lazy P lo)"
    using rep unfolding consumes_only_def set_m_rep_lazy .
qed

lemma consumes_only_seq [consumes_only_intros]:
  assumes "consumes_only Q m1" and "consumes_only Q m2"
  shows "consumes_only Q (m_seq m1 m2)"
proof (unfold consumes_only_def, intro allI impI)
  fix t r assume "r \<in> set (m_seq m1 m2 t)"
  then obtain r1 where r1: "r1 \<in> set (m1 t)" and r: "r \<in> set (m2 r1)" unfolding set_m_seq by blast
  obtain p1 where "t = p1 @ r1" "list_all Q p1" using consumes_onlyD [OF assms(1) r1] by blast
  moreover obtain p2 where "r1 = p2 @ r" "list_all Q p2" using consumes_onlyD [OF assms(2) r] by blast
  ultimately show "\<exists>p. t = p @ r \<and> list_all Q p" by (intro exI [of _ "p1 @ p2"]) simp
qed

lemma consumes_only_seqs [consumes_only_intros]:
  "(\<And>m. m \<in> set ms \<Longrightarrow> consumes_only Q m) \<Longrightarrow> consumes_only Q (m_seqs ms)"
  by (induction ms) (auto simp: m_seqs_def intro: consumes_only_seq consumes_only_basic)

lemma match_at_pre:
  assumes "match_at pre cap post t = Some x"
  shows "\<exists>r1 \<in> set (pre t). \<exists>r2 \<in> set (cap r1). post r2 \<noteq> []"
proof -
  define L where "L = [(r1, r2). r1 \<leftarrow> pre t, r2 \<leftarrow> cap r1, post r2 \<noteq> []]"
  have "L \<noteq> []"
  proof
    assume "L = []"
    with assms show False by (simp add: match_at_def L_def [symmetric])
  qed
  then obtain a b rest where "L = (a, b) # rest" by (cases L) auto
  then have "(a, b) \<in> set L" by simp
  then show ?thesis unfolding L_def by auto
qed

lemma match_at_first:
  assumes "match_at pre cap post t = Some (w, g)"
  obtains r1 r2 where "r1 \<in> set (pre t)" "r2 \<in> set (cap r1)" "post r2 \<noteq> []"
    "w = take (length t - length (hd (post r2))) t" "g = take (length r1 - length r2) r1"
proof -
  define L where "L = [(r1, r2). r1 \<leftarrow> pre t, r2 \<leftarrow> cap r1, post r2 \<noteq> []]"
  have "L \<noteq> []"
  proof
    assume "L = []"
    with assms show False by (simp add: match_at_def L_def [symmetric])
  qed
  then obtain a b rest where L: "L = (a, b) # rest" by (cases L) auto
  then have "(a, b) \<in> set L" by simp
  then have "a \<in> set (pre t)" "b \<in> set (cap a)" "post b \<noteq> []" unfolding L_def by auto
  moreover have "w = take (length t - length (hd (post b))) t" "g = take (length a - length b) a"
    using assms L by (simp_all add: match_at_def L_def [symmetric])
  ultimately show ?thesis by (rule that)
qed

lemma match_at_consumes:
  assumes "match_at pre cap post t = Some (w, g)" and "consumes_only Q cap"
  shows "list_all Q g"
proof -
  obtain r1 r2 where "r2 \<in> set (cap r1)" and g: "g = take (length r1 - length r2) r1"
    using assms(1) by (rule match_at_first)
  then obtain p where "r1 = p @ r2" "list_all Q p" using consumes_onlyD [OF assms(2)] by blast
  with g show ?thesis by simp
qed

lemma match_at_whole_consumes:
  assumes "match_at pre cap post t = Some (w, g)"
    and "consumes_only Q pre" "consumes_only Q cap" "consumes_only Q post"
  shows "list_all Q w"
proof -
  obtain r1 r2 where r1: "r1 \<in> set (pre t)" and r2: "r2 \<in> set (cap r1)" and ne: "post r2 \<noteq> []"
    and w: "w = take (length t - length (hd (post r2))) t"
    using assms(1) by (rule match_at_first)
  obtain p1 where p1: "t = p1 @ r1" "list_all Q p1" using consumes_onlyD [OF assms(2) r1] by blast
  obtain p2 where p2: "r1 = p2 @ r2" "list_all Q p2" using consumes_onlyD [OF assms(3) r2] by blast
  have "hd (post r2) \<in> set (post r2)" using ne by simp
  then obtain p3 where p3: "r2 = p3 @ hd (post r2)" "list_all Q p3" using consumes_onlyD [OF assms(4)] by blast
  have t: "t = (p1 @ p2 @ p3) @ hd (post r2)" using p1(1) p2(1) p3(1) by simp
  have "w = p1 @ p2 @ p3" using t unfolding w by simp
  with p1 p2 p3 show ?thesis by simp
qed

lemma regex_match_at:
  "regex_match pre cap post s = Some x \<Longrightarrow> \<exists>i. match_at pre cap post (drop i s) = Some x"
proof (induction s)
  case Nil
  then show ?case by (intro exI [of _ 0]) simp
next
  case (Cons c cs)
  show ?case
  proof (cases "match_at pre cap post (c # cs)")
    case None
    with Cons obtain i where "match_at pre cap post (drop i cs) = Some x" by auto
    then show ?thesis by (intro exI [of _ "Suc i"]) simp
  next
    case (Some y)
    with Cons.prems show ?thesis by (intro exI [of _ 0]) simp
  qed
qed

lemma m_seq_lit_nonempty:
  "m_seq (m_lit w) M x \<noteq> [] \<Longrightarrow> str_starts_with w x"
  by (cases "str_starts_with w x") (simp_all add: m_seq_def m_lit_def)

lemma regex_match_needs:
  assumes "regex_match pre cap post s = Some x" and "suffix_matcher pre"
    and "\<And>r1. cap r1 \<noteq> [] \<Longrightarrow> c \<in> set r1"
  shows "c \<in> set s"
proof -
  obtain i where "match_at pre cap post (drop i s) = Some x" using regex_match_at [OF assms(1)] by blast
  then obtain r1 r2 where r1: "r1 \<in> set (pre (drop i s))" and r2: "r2 \<in> set (cap r1)"
    using match_at_pre by blast
  from r2 have "cap r1 \<noteq> []" by auto
  then have "c \<in> set r1" by (rule assms(3))
  moreover have "suffix r1 (drop i s)" using suffix_matcherD [OF assms(2) r1] .
  ultimately show ?thesis by (meson in_set_dropD set_mono_suffix subsetD)
qed

end
