(* ===== verification/Classifier.thy ===== *)
theory Classifier
  imports JsRegex
begin

text \<open>
  The issue classifier of \<open>src/classifier.js\<close>, \<open>classifyIssue\<close>: a keyword
  prefilter over the lower-cased text, a direct YES when no API key is
  configured, otherwise one request to the chat-completion service whose answer
  is normalised to YES or NO, and a regular-expression fallback when anything
  in that branch throws.  The service is a parameter (\<open>llm\<close>): a function from
  the request the code builds to what the call yields, so every branch of the
  source is a value of the model and the requests actually made are returned
  beside the verdict.
\<close>

section \<open>Data\<close>

text \<open>The two strings the function returns.\<close>

datatype verdict = YES | NO

text \<open>The configuration read from \<open>process.env\<close>; an unset variable is the empty
  string, which \<open>||\<close> treats like \<open>undefined\<close>.\<close>

record classifier_env =
  openai_api_key :: string
  cursor_api_key :: string
  gpt_model :: string

text \<open>The argument of \<open>openai.chat.completions.create\<close>.  The temperature
  \<open>0.1\<close> is kept in thousandths.\<close>

record llm_request =
  req_model :: string
  req_system :: string
  req_user :: string
  req_temperature_milli :: nat
  req_max_tokens :: nat

text \<open>What the call yields: it throws (network, authentication, a response
  without a \<open>choices\<close> array), or it returns a response whose
  \<open>choices[0]?.message?.content\<close> is a string or absent.\<close>

datatype llm_outcome = Llm_Error | Llm_Reply "string option"

section \<open>Fixed tables\<close>

definition start_button_issue_patterns :: "string list" where
  \<open>start_button_issue_patterns = [
    ''Not open'', ''test is not starting'', ''Link not working properly'', ''Assessment exam not start'',
    ''start bottom is disable'', ''Not able to click on Start icon'', ''Assesment not starting'',
    ''not able to access Test'', ''Test is not starting'', ''Camera and location option not open'',
    ''can\'t attend the test'', ''permission not granted'', ''Site Not Open'', ''unable to start the Assessment'',
    ''camera and the location permission not granted'', ''Not connected'', ''assessment is not open'',
    ''START EXAM is not popping'', ''test is not start'', ''COUDNT START TEST'', ''Test will be not start'',
    ''location is not showing up'', ''start is not clickable'', ''location allow not showing'',
    ''test is that not open'', ''icon is not working'', ''lock icon which you provided, but it\'s not working'',
    ''Not stared test'', ''test is not getting start'', ''not able to click on start assessment'',
    ''START BUTTON DISABLE CONDITION'', ''test did not start'', ''start test\' it is not working'',
    ''assessment is not starting'', ''Start nahi ho rahi hai'', ''Assessment is not able to start'',
    ''test exam link'', ''start test option is not visible'', ''start Test option is not enable'',
    ''unable to Attend the Test'', ''Start option not working'', ''location visible tab not shown'',
    ''test not started'', ''Not going into text step'', ''Not Working'', ''no option is showing in for gps location'',
    ''Session Not starting'', ''Session Not Opening'', ''Page not open'', ''Unable to continue with the test'',
    ''Test does not starts'', ''location access'', ''Location is not ticked'', ''Not started'',
    ''can\'t start the screening test'', ''can\'t start the Test'', ''test is not starting'',
    ''can\'t start the test because'', ''unable to click on the start test'']\<close>

definition quick_keywords :: "string list" where
  \<open>quick_keywords = [
    ''start'', ''not starting'', ''not start'', ''unable to start'', ''can\'t start'', ''cannot start'',
    ''start button'', ''start test'', ''start exam'', ''start assessment'', ''start icon'', ''start option'',
    ''button disable'', ''button not working'', ''not clickable'', ''not enable'', ''not open'',
    ''test not'', ''assessment not'', ''exam not'', ''session not'', ''page not open'']\<close>

text \<open>The fallback pattern
  \<open>/start|not starting|not start|unable to start|can't start|cannot start|button disable|not clickable|not open/i\<close>.\<close>

definition fallback_re :: matcher where
  \<open>fallback_re =
     foldr m_alt (map m_lit_ci [''start'', ''not starting'', ''not start'', ''unable to start'',
        ''can\'t start'', ''cannot start'', ''button disable'', ''not clickable'']) (m_lit_ci ''not open'')\<close>

section \<open>The request\<close>

definition system_prompt :: string where
  \<open>system_prompt = ''You are a classifier for technical support emails. Classify whether an email describes a "Start Button" or "Test Not Starting" issue. These issues involve problems where candidates cannot begin their assessment because the start button/option is not working, disabled, not clickable, or the test/assessment will not start/open. Reply ONLY with "YES" if it is a Start Button issue, or "NO" if it is any other type of issue.''\<close>

definition numbered_examples :: "string list \<Rightarrow> string" where
  \<open>numbered_examples xs =
     js_join newline (map (\<lambda>(i, ex). dec_string (i + 1) @ ''. "'' @ ex @ ''"'') (enumerate 0 xs))\<close>

definition classify_prompt :: "string \<Rightarrow> string \<Rightarrow> string \<Rightarrow> string" where
  \<open>classify_prompt emailSubject issueDescription emailBody = js_join newline [
    ''You are classifying candidate support emails. Determine if the issue is a "Start Button/Test Not Starting" issue.'',
    '''',
    ''ISSUE TO CLASSIFY:'',
    ''Subject: "'' @ emailSubject @ ''"'',
    ''Issue: "'' @ issueDescription @ ''"'',
    ''Body: "'' @ take 500 emailBody @ ''"'',
    '''',
    ''A "Start Button/Test Not Starting" issue includes problems where:'',
    ''- The test/assessment/exam cannot be started'',
    ''- Start button is disabled, not clickable, or not working'',
    ''- Start option/icon/button is not visible or not working'',
    ''- Test/assessment/exam is not opening or starting'',
    ''- Location/camera/microphone permissions are granted but test still won\'t start'',
    ''- User cannot click on start button/icon/option'',
    ''- Start button is in disabled condition'',
    ''- Test link is not working or not opening'',
    '''',
    ''EXAMPLES OF START BUTTON ISSUES (these should return YES):'',
    numbered_examples start_button_issue_patterns,
    '''',
    ''EXAMPLES OF OTHER ISSUES (these should return NO):'',
    ''- "Didn\'t receive email after completing assessment"'',
    ''- "Results not received"'',
    ''- "Certificate not received"'',
    ''- "Payment issue"'',
    ''- "Login problem"'',
    ''- "Forgot password"'',
    ''- "Account locked"'',
    ''- "Technical error during test"'',
    ''- "Questions not loading"'',
    ''- "Submission failed"'',
    '''',
    ''Reply ONLY with "YES" if it\'s a Start Button/Test Not Starting issue, or "NO" if it\'s any other issue.'']\<close>

definition llm_request_of :: "classifier_env \<Rightarrow> string \<Rightarrow> string \<Rightarrow> string \<Rightarrow> llm_request" where
  "llm_request_of env emailSubject issueDescription emailBody =
     \<lparr>req_model = js_or (gpt_model env) ''gpt-4o-mini'',
      req_system = system_prompt,
      req_user = classify_prompt emailSubject issueDescription emailBody,
      req_temperature_milli = 100,
      req_max_tokens = 10\<rparr>"

section \<open>The decision\<close>

definition search_text :: "string \<Rightarrow> string \<Rightarrow> string \<Rightarrow> string" where
  "search_text emailSubject issueDescription emailBody =
     js_lower (issueDescription @ '' '' @ emailSubject @ '' '' @ emailBody)"

definition has_quick_match :: "string \<Rightarrow> bool" where
  "has_quick_match t \<longleftrightarrow> list_ex (str_includes t) quick_keywords"

definition fallback_verdict :: "string \<Rightarrow> verdict" where
  "fallback_verdict t = (if regex_test fallback_re t then YES else NO)"

text \<open>\<open>content?.trim().toUpperCase() || 'NO'\<close>, then the \<open>includes('YES')\<close> test.\<close>

definition normalise_reply :: "string option \<Rightarrow> verdict" where
  "normalise_reply content =
     (let classification =
        js_or (case content of None \<Rightarrow> [] | Some c \<Rightarrow> js_upper (js_trim c)) ''NO''
      in if str_includes classification ''YES'' then YES else NO)"

definition api_key :: "classifier_env \<Rightarrow> string" where
  "api_key env = js_or (openai_api_key env) (cursor_api_key env)"

definition classify_issue ::
  "classifier_env \<Rightarrow> (llm_request \<Rightarrow> llm_outcome) \<Rightarrow> string \<Rightarrow> string \<Rightarrow> string \<Rightarrow> verdict \<times> llm_request list" where
  "classify_issue env llm emailSubject issueDescription emailBody =
     (let searchText = search_text emailSubject issueDescription emailBody;
          hasQuickMatch = has_quick_match searchText
      in if \<not> hasQuickMatch then (NO, [])
         else if api_key env = [] then (if hasQuickMatch then YES else NO, [])
         else
           (let req = llm_request_of env emailSubject issueDescription emailBody
            in (case llm req of
                  Llm_Error \<Rightarrow> fallback_verdict (search_text emailSubject issueDescription emailBody)
                | Llm_Reply content \<Rightarrow> normalise_reply content,
                [req])))"

section \<open>Properties\<close>

lemma search_text_lower [simp]: "js_lower (search_text s i b) = search_text s i b"
  by (simp add: search_text_def)

lemma classify_issue_no_quick:
  "\<not> has_quick_match (search_text s i b) \<Longrightarrow> classify_issue env llm s i b = (NO, [])"
  by (simp add: classify_issue_def)

lemma classify_issue_no_key:
  "has_quick_match (search_text s i b) \<Longrightarrow> api_key env = [] \<Longrightarrow> classify_issue env llm s i b = (YES, [])"
  by (simp add: classify_issue_def)

lemma classify_issue_with_key:
  assumes "has_quick_match (search_text s i b)" and "api_key env \<noteq> []"
  shows "classify_issue env llm s i b =
           (case llm (llm_request_of env s i b) of
              Llm_Error \<Rightarrow> fallback_verdict (search_text s i b)
            | Llm_Reply content \<Rightarrow> normalise_reply content,
            [llm_request_of env s i b])"
  using assms by (simp add: classify_issue_def Let_def)

text \<open>The fallback regular expression is a substring test for four words:
  every other alternative contains \<open>start\<close>.\<close>

lemma fallback_re_iff:
  "regex_test fallback_re t \<longleftrightarrow>
     list_ex (str_includes (js_lower t)) [''start'', ''button disable'', ''not clickable'', ''not open'']"
proof -
  have lw: "js_lower k = k" if \<open>k \<in> set [''start'', ''not starting'', ''not start'', ''unable to start'',
        ''can\'t start'', ''cannot start'', ''button disable'', ''not clickable'', ''not open'']\<close> for k
    using that by (auto simp: js_lower_def lower_char_def)
  have st: "str_includes k ''start''" if \<open>k \<in> set [''not starting'', ''not start'', ''unable to start'',
        ''can\'t start'', ''cannot start'']\<close> for k
    using that by auto
  show ?thesis
    unfolding fallback_re_def regex_test_alts_ci
    using lw st by (auto intro: str_includes_trans)
qed

lemma quick_keyword_start: "''start'' \<in> set quick_keywords" and quick_keyword_button_disable: "''button disable'' \<in> set quick_keywords"
  and quick_keyword_not_clickable: "''not clickable'' \<in> set quick_keywords" and quick_keyword_not_open: "''not open'' \<in> set quick_keywords"
  by (simp_all add: quick_keywords_def)

lemma fallback_implies_quick:
  "fallback_verdict (search_text s i b) = YES \<Longrightarrow> has_quick_match (search_text s i b)"
  using quick_keyword_start quick_keyword_button_disable quick_keyword_not_clickable quick_keyword_not_open
  by (auto simp: fallback_verdict_def fallback_re_iff has_quick_match_def list_ex_iff split: if_splits)

lemma classify_yes_quick:
  "fst (classify_issue env llm s i b) = YES \<Longrightarrow> has_quick_match (search_text s i b)"
  by (auto simp: classify_issue_def Let_def split: if_splits)

lemma prompt_contains_fields:
  "str_includes (classify_prompt s i b) s \<and> str_includes (classify_prompt s i b) i \<and>
   str_includes (classify_prompt s i b) (take 500 b)"
proof -
  have 1: \<open>\<exists>u v. classify_prompt s i b = u @ (''Subject: "'' @ s @ ''"'') @ v\<close>
    unfolding classify_prompt_def by (rule js_join_infix) simp
  have 2: \<open>\<exists>u v. classify_prompt s i b = u @ (''Issue: "'' @ i @ ''"'') @ v\<close>
    unfolding classify_prompt_def by (rule js_join_infix) simp
  have 3: \<open>\<exists>u v. classify_prompt s i b = u @ (''Body: "'' @ take 500 b @ ''"'') @ v\<close>
    unfolding classify_prompt_def by (rule js_join_infix) simp
  show ?thesis
    using str_includes_infix_middle [OF 1] str_includes_infix_middle [OF 2]
      str_includes_infix_middle [OF 3] by blast
qed

lemma classify_requests:
  "r \<in> set (snd (classify_issue env llm s i b)) \<Longrightarrow>
     r = llm_request_of env s i b \<and> api_key env \<noteq> [] \<and> has_quick_match (search_text s i b)"
  by (auto simp: classify_issue_def Let_def split: if_splits)

lemma normalise_reply_yes:
  "normalise_reply content = YES \<longleftrightarrow> (\<exists>c. content = Some c \<and> str_includes (js_upper (js_trim c)) ''YES'')"
proof -
  have no: "\<not> str_includes ''NO'' ''YES''" by simp
  show ?thesis
    by (cases content) (auto simp: normalise_reply_def js_or_def Let_def no)
qed

section \<open>Claims\<close>

text \<open>C1. The keyword prefilter: when the lower-cased text
  \<open>issue + ' ' + subject + ' ' + body\<close> contains none of the quick keywords,
  \<open>classifyIssue\<close> returns NO and makes no request to the reasoning service,
  whatever the configuration and whatever the service would answer.\<close>

theorem classify_prefilter_no_call:
  assumes "\<not> list_ex (str_includes (search_text subject issue body)) quick_keywords"
  shows "classify_issue env llm subject issue body = (NO, [])"
  using assms by (simp add: classify_issue_no_quick has_quick_match_def)

theorem classify_prefilter_no_call_witness:
  "\<not> list_ex (str_includes (search_text ''Payment issue'' ''Refund pending'' '''')) quick_keywords \<and>
   classify_issue \<lparr>openai_api_key = ''sk-test'', cursor_api_key = [], gpt_model = []\<rparr> (\<lambda>_. Llm_Reply (Some ''YES''))
     ''Payment issue'' ''Refund pending'' '''' = (NO, [])"
proof -
  have h: "\<not> list_ex (str_includes (search_text ''Payment issue'' ''Refund pending'' '''')) quick_keywords"
    by code_simp
  show ?thesis by (intro conjI h classify_prefilter_no_call [OF h])
qed

text \<open>C2. Without an API key (\<open>OPENAI_API_KEY\<close> and \<open>CURSOR_API_KEY\<close> both
  unset or empty) a text that passes the prefilter is classified YES, with no
  request made.\<close>

theorem classify_no_key_match:
  assumes "list_ex (str_includes (search_text subject issue body)) quick_keywords"
    and "openai_api_key env = []" and "cursor_api_key env = []"
  shows "classify_issue env llm subject issue body = (YES, [])"
  using assms by (simp add: classify_issue_no_key has_quick_match_def api_key_def js_or_def)

theorem classify_no_key_match_witness:
  "list_ex (str_includes (search_text ''Test not starting'' ''start button disable condition'' '''')) quick_keywords \<and>
   openai_api_key \<lparr>openai_api_key = [], cursor_api_key = [], gpt_model = []\<rparr> = [] \<and>
   cursor_api_key \<lparr>openai_api_key = [], cursor_api_key = [], gpt_model = []\<rparr> = [] \<and>
   classify_issue \<lparr>openai_api_key = [], cursor_api_key = [], gpt_model = []\<rparr> (\<lambda>_. Llm_Error)
     ''Test not starting'' ''start button disable condition'' '''' = (YES, [])"
proof -
  have h: "list_ex (str_includes (search_text ''Test not starting'' ''start button disable condition'' '''')) quick_keywords"
    by code_simp
  have k: "openai_api_key \<lparr>openai_api_key = [], cursor_api_key = [], gpt_model = []\<rparr> = []"
    "cursor_api_key \<lparr>openai_api_key = [], cursor_api_key = [], gpt_model = []\<rparr> = []"
    by simp_all
  show ?thesis by (intro conjI h k classify_no_key_match [OF h k])
qed

text \<open>C3. Fault tolerance: when an API key is configured and the request to the
  reasoning service throws, \<open>classifyIssue\<close> still returns a verdict, and that
  verdict is the fallback regular expression's answer on the same text.\<close>

theorem classify_error_fallback:
  assumes "api_key env \<noteq> []"
    and "llm (llm_request_of env subject issue body) = Llm_Error"
  shows "fst (classify_issue env llm subject issue body) = fallback_verdict (search_text subject issue body)"
proof (cases "has_quick_match (search_text subject issue body)")
  case True
  with assms show ?thesis by (simp add: classify_issue_with_key)
next
  case False
  then have "fallback_verdict (search_text subject issue body) = NO"
    using fallback_implies_quick by (cases "fallback_verdict (search_text subject issue body)") auto
  with False show ?thesis by (simp add: classify_issue_no_quick)
qed

theorem classify_error_fallback_witness:
  "api_key \<lparr>openai_api_key = ''sk-test'', cursor_api_key = [], gpt_model = []\<rparr> \<noteq> [] \<and>
   (\<lambda>_. Llm_Error) (llm_request_of \<lparr>openai_api_key = ''sk-test'', cursor_api_key = [], gpt_model = []\<rparr>
      ''Exam'' ''Test not loading'' '''') = Llm_Error \<and>
   fst (classify_issue \<lparr>openai_api_key = ''sk-test'', cursor_api_key = [], gpt_model = []\<rparr> (\<lambda>_. Llm_Error)
      ''Exam'' ''Test not loading'' '''') = fallback_verdict (search_text ''Exam'' ''Test not loading'' '''')"
proof -
  have k: "api_key \<lparr>openai_api_key = ''sk-test'', cursor_api_key = [], gpt_model = []\<rparr> \<noteq> []"
    by (simp add: api_key_def js_or_def)
  have e: "(\<lambda>_. Llm_Error) (llm_request_of \<lparr>openai_api_key = ''sk-test'', cursor_api_key = [], gpt_model = []\<rparr>
      ''Exam'' ''Test not loading'' '''') = Llm_Error" by simp
  show ?thesis by (intro conjI k e classify_error_fallback [OF k e])
qed

text \<open>C4. The fallback pattern
  \<open>/start|not starting|\<dots>|not clickable|not open/i\<close>, run by the backtracking
  engine, accepts exactly the texts whose lower-cased form contains one of four
  words: \<open>start\<close>, \<open>button disable\<close>, \<open>not clickable\<close>, \<open>not open\<close>.\<close>

theorem fallback_pattern_equiv:
  "fallback_verdict t = YES \<longleftrightarrow>
     list_ex (str_includes (js_lower t)) [''start'', ''button disable'', ''not clickable'', ''not open'']"
  by (simp add: fallback_verdict_def fallback_re_iff)

text \<open>C5. The service's answer is read fail-closed: after a request, the verdict
  is YES exactly when the returned content, trimmed and upper-cased, contains
  \<open>YES\<close>; an absent content, \<open>NO\<close>, an empty or any other answer gives NO.\<close>

theorem classify_reply_fail_closed:
  assumes "has_quick_match (search_text subject issue body)" and "api_key env \<noteq> []"
    and "llm (llm_request_of env subject issue body) = Llm_Reply content"
  shows "fst (classify_issue env llm subject issue body) = YES \<longleftrightarrow>
           (\<exists>c. content = Some c \<and> str_includes (js_upper (js_trim c)) ''YES'')"
  using assms by (simp add: classify_issue_with_key normalise_reply_yes)

theorem classify_reply_fail_closed_witness:
  "has_quick_match (search_text ''Exam'' ''start test not working'' '''') \<and>
   api_key \<lparr>openai_api_key = ''sk-test'', cursor_api_key = [], gpt_model = []\<rparr> \<noteq> [] \<and>
   (\<lambda>_. Llm_Reply (Some '' yes'')) (llm_request_of \<lparr>openai_api_key = ''sk-test'', cursor_api_key = [], gpt_model = []\<rparr>
      ''Exam'' ''start test not working'' '''') = Llm_Reply (Some '' yes'') \<and>
   (fst (classify_issue \<lparr>openai_api_key = ''sk-test'', cursor_api_key = [], gpt_model = []\<rparr>
      (\<lambda>_. Llm_Reply (Some '' yes'')) ''Exam'' ''start test not working'' '''') = YES \<longleftrightarrow>
    (\<exists>c. Some '' yes'' = Some c \<and> str_includes (js_upper (js_trim c)) ''YES''))"
proof -
  have q: "has_quick_match (search_text ''Exam'' ''start test not working'' '''')" by code_simp
  have k: "api_key \<lparr>openai_api_key = ''sk-test'', cursor_api_key = [], gpt_model = []\<rparr> \<noteq> []"
    by (simp add: api_key_def js_or_def)
  have r: "(\<lambda>_. Llm_Reply (Some '' yes'')) (llm_request_of \<lparr>openai_api_key = ''sk-test'', cursor_api_key = [], gpt_model = []\<rparr>
      ''Exam'' ''start test not working'' '''') = Llm_Reply (Some '' yes'')" by simp
  show ?thesis by (intro conjI q k r classify_reply_fail_closed [OF q k r])
qed

text \<open>C6. At most one request is made, and the request carries the subject, the
  issue and the first 500 characters of the body, the fixed system prompt, a
  temperature of 0.1 and a limit of 10 output tokens.\<close>

theorem classify_single_request:
  assumes "r \<in> set (snd (classify_issue env llm subject issue body))"
  shows "snd (classify_issue env llm subject issue body) = [r] \<and>
         str_includes (req_user r) subject \<and> str_includes (req_user r) issue \<and>
         str_includes (req_user r) (take 500 body) \<and> req_system r = system_prompt \<and>
         req_temperature_milli r = 100 \<and> req_max_tokens r = 10"
proof -
  from assms have r: "r = llm_request_of env subject issue body" and "api_key env \<noteq> []"
    and "has_quick_match (search_text subject issue body)"
    by (auto dest: classify_requests)
  then have "snd (classify_issue env llm subject issue body) = [r]"
    by (simp add: classify_issue_with_key)
  with r prompt_contains_fields show ?thesis by (simp add: llm_request_of_def)
qed

theorem classify_single_request_witness:
  "llm_request_of \<lparr>openai_api_key = ''k'', cursor_api_key = [], gpt_model = []\<rparr> ''S'' ''not open'' ''B''
     \<in> set (snd (classify_issue \<lparr>openai_api_key = ''k'', cursor_api_key = [], gpt_model = []\<rparr> (\<lambda>_. Llm_Error) ''S'' ''not open'' ''B'')) \<and>
   req_max_tokens (llm_request_of \<lparr>openai_api_key = ''k'', cursor_api_key = [], gpt_model = []\<rparr> ''S'' ''not open'' ''B'') = 10"
proof -
  have q: "has_quick_match (search_text ''S'' ''not open'' ''B'')" by code_simp
  have h: "llm_request_of \<lparr>openai_api_key = ''k'', cursor_api_key = [], gpt_model = []\<rparr> ''S'' ''not open'' ''B''
     \<in> set (snd (classify_issue \<lparr>openai_api_key = ''k'', cursor_api_key = [], gpt_model = []\<rparr> (\<lambda>_. Llm_Error) ''S'' ''not open'' ''B''))"
    using q by (simp add: classify_issue_with_key api_key_def js_or_def)
  show ?thesis using classify_single_request [OF h] h by blast
qed

lemma list_ex_quick_keywords:
  \<open>list_ex P quick_keywords \<longleftrightarrow>
     list_ex P [''start'', ''not starting'', ''not start'', ''unable to start'', ''can\'t start'', ''cannot start'',
                ''start button'', ''start test'', ''start exam'', ''start assessment'', ''start icon'', ''start option''] \<or>
     list_ex P [''button disable'', ''not clickable'', ''not open''] \<or> P ''page not open'' \<or>
     list_ex P [''button not working'', ''not enable'', ''test not'', ''assessment not'', ''exam not'', ''session not'']\<close>
  by (auto simp: quick_keywords_def)

lemma start_keywords_include_start:
  \<open>list_ex (str_includes t) [''start'', ''not starting'', ''not start'', ''unable to start'', ''can\'t start'',
     ''cannot start'', ''start button'', ''start test'', ''start exam'', ''start assessment'', ''start icon'',
     ''start option''] \<Longrightarrow> str_includes t ''start''\<close>
proof -
  have sub: "str_includes k ''start''" if \<open>k \<in> set [''start'', ''not starting'', ''not start'', ''unable to start'',
        ''can\'t start'', ''cannot start'', ''start button'', ''start test'', ''start exam'', ''start assessment'',
        ''start icon'', ''start option'']\<close> for k
    using that by auto
  assume \<open>list_ex (str_includes t) [''start'', ''not starting'', ''not start'', ''unable to start'', ''can\'t start'',
     ''cannot start'', ''start button'', ''start test'', ''start exam'', ''start assessment'', ''start icon'',
     ''start option'']\<close>
  then show ?thesis unfolding list_ex_iff using sub by (blast intro: str_includes_trans)
qed

text \<open>C7. The fallback is narrower than the prefilter it stands in for, and
  the difference is exactly characterised: a search text passes the prefilter
  but is classified NO by the fallback (as happens when the service fails)
  if and only if it contains one of \<open>button not working\<close>, \<open>not enable\<close>,
  \<open>test not\<close>, \<open>assessment not\<close>, \<open>exam not\<close>, \<open>session not\<close> and none
  of the four words of the fallback.\<close>

theorem fallback_narrower_than_prefilter:
  "has_quick_match (search_text s i b) \<and> fallback_verdict (search_text s i b) = NO \<longleftrightarrow>
     list_ex (str_includes (search_text s i b))
       [''button not working'', ''not enable'', ''test not'', ''assessment not'', ''exam not'', ''session not''] \<and>
     \<not> list_ex (str_includes (search_text s i b)) [''start'', ''button disable'', ''not clickable'', ''not open'']"
proof -
  let ?t = "search_text s i b"
  have low: "js_lower ?t = ?t" by (simp add: search_text_def)
  have fb: "fallback_verdict ?t = NO \<longleftrightarrow>
      \<not> list_ex (str_includes ?t) [''start'', ''button disable'', ''not clickable'', ''not open'']"
    using fallback_re_iff [of ?t] by (simp add: fallback_verdict_def low)
  have po: "str_includes ?t ''page not open'' \<Longrightarrow> str_includes ?t ''not open''"
    by (rule str_includes_trans) auto
  show ?thesis
    unfolding fb has_quick_match_def list_ex_quick_keywords
    using start_keywords_include_start [of ?t] po by auto
qed
end
