(* ===== verification/Base64.thy ===== *)
theory Base64
  imports Prelude
begin

text \<open>
  Node's \<open>Buffer\<close> conversions the sources call: \<open>toString('base64')\<close>
  (RFC 4648 with padding), \<open>Buffer.from(s, 'base64')\<close> (lenient: it accepts both
  the standard and the URL-safe alphabet, skips characters outside them and stops
  at the first \<open>=\<close>), and the UTF-8 conversions between strings and bytes, which
  on the ASCII messages the model covers are one byte per character.  Bytes are
  \<open>8 word\<close>; the 24-bit groups are computed on their \<open>unat\<close> values.
\<close>

section \<open>Alphabet\<close>

text \<open>The encoder's alphabet \<open>A-Z a-z 0-9 + /\<close>, by position.\<close>

definition b64_char :: "nat \<Rightarrow> char" where
  "b64_char v =
     char_of (if v < 26 then 65 + v else if v < 52 then 71 + v else if v < 62 then v - 4
              else if v = 62 then 43 else (47::nat))"

text \<open>The decoder's table: both alphabets, \<open>None\<close> for any other character.\<close>

definition b64_value :: "char \<Rightarrow> nat option" where
  "b64_value c =
     (let n = (of_char c :: nat) in
      if 65 \<le> n \<and> n \<le> 90 then Some (n - 65)
      else if 97 \<le> n \<and> n \<le> 122 then Some (n - 71)
      else if 48 \<le> n \<and> n \<le> 57 then Some (n + 4)
      else if n = 43 \<or> n = 45 then Some 62
      else if n = 47 \<or> n = 95 then Some 63
      else None)"

section \<open>Encoding and decoding\<close>

fun encode_groups :: "nat list \<Rightarrow> string" where
  "encode_groups (a # b # c # rest) =
     (let n = a * 65536 + b * 256 + c in
      [b64_char (n div 262144), b64_char (n div 4096 mod 64), b64_char (n div 64 mod 64),
       b64_char (n mod 64)]) @ encode_groups rest"
| "encode_groups [a, b] =
     (let n = a * 65536 + b * 256 in
      [b64_char (n div 262144), b64_char (n div 4096 mod 64), b64_char (n div 64 mod 64), CHR ''=''])"
| "encode_groups [a] =
     (let n = a * 65536 in [b64_char (n div 262144), b64_char (n div 4096 mod 64), CHR ''='', CHR ''=''])"
| "encode_groups [] = []"

definition base64_encode :: "byte list \<Rightarrow> string" where
  "base64_encode bs = encode_groups (map unat bs)"

fun decode_sextets :: "nat list \<Rightarrow> nat list" where
  "decode_sextets (a # b # c # d # rest) =
     (let n = a * 262144 + b * 4096 + c * 64 + d in [n div 65536, n div 256 mod 256, n mod 256])
     @ decode_sextets rest"
| "decode_sextets [a, b, c] = (let n = a * 262144 + b * 4096 + c * 64 in [n div 65536, n div 256 mod 256])"
| "decode_sextets [a, b] = (let n = a * 262144 + b * 4096 in [n div 65536])"
| "decode_sextets [a] = []"
| "decode_sextets [] = []"

definition base64_decode :: "string \<Rightarrow> byte list" where
  "base64_decode s =
     map of_nat (decode_sextets (List.map_filter b64_value (takeWhile (\<lambda>c. c \<noteq> CHR ''='') s)))"

definition utf8_encode :: "string \<Rightarrow> byte list" where
  "utf8_encode s = map (\<lambda>c. of_nat (of_char c)) s"

definition utf8_decode :: "byte list \<Rightarrow> string" where
  "utf8_decode bs = map (\<lambda>b. char_of (unat b)) bs"

section \<open>Lemmas\<close>

lemma of_char_b64_char:
  "(of_char (b64_char v) :: nat) =
     (if v < 26 then 65 + v else if v < 52 then 71 + v else if v < 62 then v - 4
      else if v = 62 then 43 else 47)"
  unfolding b64_char_def of_char_of by simp

lemma b64_value_char [simp]: "v < 64 \<Longrightarrow> b64_value (b64_char v) = Some v"
  unfolding b64_value_def Let_def of_char_b64_char by simp arith

lemma b64_char_not_pad [simp]: "v < 64 \<Longrightarrow> b64_char v \<noteq> CHR ''=''"
proof
  assume "v < 64" "b64_char v = CHR ''=''"
  then have "b64_value (CHR ''='') = Some v" by (metis b64_value_char)
  then show False by (simp add: b64_value_def)
qed

lemma div64_split: "(n::nat) div 64 = n div 4096 * 64 + n div 64 mod 64"
proof -
  have "n div 64 div 64 = n div 4096" by (simp add: div_mult2_eq [symmetric])
  then show ?thesis by (metis div_mult_mod_eq)
qed

lemma div4096_split: "(n::nat) div 4096 = n div 262144 * 64 + n div 4096 mod 64"
proof -
  have "n div 4096 div 64 = n div 262144" by (simp add: div_mult2_eq [symmetric])
  then show ?thesis by (metis div_mult_mod_eq)
qed

text \<open>A number is the sum of its base-64 digits.\<close>

lemma digits64:
  "(n::nat) div 262144 * 262144 + n div 4096 mod 64 * 4096 + n div 64 mod 64 * 64 + n mod 64 = n"
proof -
  have "n = n div 64 * 64 + n mod 64" by simp
  also have "\<dots> = (n div 4096 * 64 + n div 64 mod 64) * 64 + n mod 64" using div64_split by simp
  also have "\<dots> = ((n div 262144 * 64 + n div 4096 mod 64) * 64 + n div 64 mod 64) * 64 + n mod 64"
    using div4096_split by simp
  finally show ?thesis by simp
qed

text \<open>And a 24-bit group is the sum of its three bytes.\<close>

lemma bytes3:
  fixes a b c :: nat
  assumes "a < 256" "b < 256" "c < 256"
  shows "(a * 65536 + b * 256 + c) div 65536 = a \<and> (a * 65536 + b * 256 + c) div 256 mod 256 = b \<and>
         (a * 65536 + b * 256 + c) mod 256 = c"
proof -
  have e1: "a * 65536 + b * 256 + c = c + (b + a * 256) * 256" by simp
  have e2: "a * 65536 + b * 256 + c = (c + b * 256) + a * 65536" by simp
  have "(c + b * 256 + a * 65536) div 65536 = a + (c + b * 256) div 65536"
    by (rule div_mult_self1) simp
  moreover have "(c + b * 256) div 65536 = 0" using assms by simp
  ultimately have 1: "(a * 65536 + b * 256 + c) div 65536 = a" by (simp only: e2)
  have "(c + (b + a * 256) * 256) div 256 = (b + a * 256) + c div 256"
    by (rule div_mult_self1) simp
  then have "(a * 65536 + b * 256 + c) div 256 = b + a * 256" using assms by (simp only: e1)
  then have 2: "(a * 65536 + b * 256 + c) div 256 mod 256 = b" using assms by simp
  have "(c + (b + a * 256) * 256) mod 256 = c mod 256" by (rule mod_mult_self1)
  then have 3: "(a * 65536 + b * 256 + c) mod 256 = c" using assms by (simp only: e1) simp
  from 1 2 3 show ?thesis by blast
qed

lemma takeWhile_not_pad:
  "\<forall>v \<in> set vs. v < 64 \<Longrightarrow>
   takeWhile (\<lambda>c. c \<noteq> CHR ''='') (map b64_char vs @ r) = map b64_char vs @ takeWhile (\<lambda>c. c \<noteq> CHR ''='') r"
  by (induction vs) auto

lemma map_filter_b64_value:
  "\<forall>v \<in> set vs. v < 64 \<Longrightarrow> List.map_filter b64_value (map b64_char vs @ r) = vs @ List.map_filter b64_value r"
  by (induction vs) (auto simp: map_filter_simps)

text \<open>The four sextets of a group decode to its three bytes; the sextets of a
  one- or two-byte group decode to those bytes.\<close>

lemma decode_group:
  "decode_sextets (n div 262144 # n div 4096 mod 64 # n div 64 mod 64 # n mod 64 # rest) =
     [n div 65536, n div 256 mod 256, n mod 256] @ decode_sextets rest"
  by (simp only: decode_sextets.simps Let_def digits64)

lemma decode_group2:
  assumes "n mod 64 = 0"
  shows "decode_sextets [n div 262144, n div 4096 mod 64, n div 64 mod 64] = [n div 65536, n div 256 mod 256]"
proof -
  have "n div 262144 * 262144 + n div 4096 mod 64 * 4096 + n div 64 mod 64 * 64 = n"
    using digits64 [of n] assms by simp
  then show ?thesis by (simp only: decode_sextets.simps Let_def)
qed

lemma decode_group1:
  assumes "n mod 64 = 0" "n div 64 mod 64 = 0"
  shows "decode_sextets [n div 262144, n div 4096 mod 64] = [n div 65536]"
proof -
  have "n div 262144 * 262144 + n div 4096 mod 64 * 4096 = n"
    using digits64 [of n] assms by simp
  then show ?thesis by (simp only: decode_sextets.simps Let_def)
qed

lemma sextets_bound:
  "(n::nat) < 16777216 \<Longrightarrow> \<forall>v \<in> set [n div 262144, n div 4096 mod 64, n div 64 mod 64, n mod 64]. v < 64"
  by auto

lemma group_bound:
  fixes a b c :: nat
  assumes "a < 256" "b < 256" "c < 256"
  shows "a * 65536 + b * 256 + c < 16777216"
proof -
  have "a * 65536 \<le> 255 * 65536" "b * 256 \<le> 255 * 256" using assms by simp_all
  with assms show ?thesis by linarith
qed

text \<open>Decoding what the encoder wrote: one group at a time.\<close>

lemma decode_encode_groups:
  "\<forall>x \<in> set ns. x < 256 \<Longrightarrow>
   decode_sextets (List.map_filter b64_value (takeWhile (\<lambda>c. c \<noteq> CHR ''='') (encode_groups ns))) = ns"
proof (induction ns rule: encode_groups.induct)
  case (1 a b c rest)
  define n where "n = a * 65536 + b * 256 + c"
  have lt: "a < 256" "b < 256" "c < 256" using "1.prems" by auto
  have vs: "\<forall>v \<in> set [n div 262144, n div 4096 mod 64, n div 64 mod 64, n mod 64]. v < 64"
    using group_bound [OF lt] by (intro sextets_bound) (simp add: n_def)
  have enc: "encode_groups (a # b # c # rest) =
      map b64_char [n div 262144, n div 4096 mod 64, n div 64 mod 64, n mod 64] @ encode_groups rest"
    by (simp only: encode_groups.simps Let_def n_def list.map append_Cons append_Nil)
  have bs: "[n div 65536, n div 256 mod 256, n mod 256] = [a, b, c]"
    using bytes3 [OF lt] by (simp add: n_def)
  have "decode_sextets (List.map_filter b64_value (takeWhile (\<lambda>c. c \<noteq> CHR ''='') (encode_groups rest))) = rest"
    using "1.IH" "1.prems" by simp
  then show ?case
    by (simp only: enc takeWhile_not_pad [OF vs] map_filter_b64_value [OF vs] append_Cons append_Nil
        decode_group bs)
next
  case (2 a b)
  define n where "n = a * 65536 + b * 256"
  have lt: "a < 256" "b < 256" using "2.prems" by auto
  have vs: "\<forall>v \<in> set [n div 262144, n div 4096 mod 64, n div 64 mod 64]. v < 64"
    using sextets_bound [of n] group_bound [OF lt, of 0] by (simp add: n_def)
  have enc: "encode_groups [a, b] = map b64_char [n div 262144, n div 4096 mod 64, n div 64 mod 64] @ [CHR ''='']"
    by (simp only: encode_groups.simps Let_def n_def list.map append_Cons append_Nil)
  have "n = (a * 1024 + b * 4) * 64" by (simp add: n_def)
  then have m: "n mod 64 = 0" by simp
  have d: "[n div 65536, n div 256 mod 256] = [a, b]" using bytes3 [of a b 0] lt by (simp add: n_def)
  have "List.map_filter b64_value (takeWhile (\<lambda>c. c \<noteq> CHR ''='') (encode_groups [a, b])) =
        [n div 262144, n div 4096 mod 64, n div 64 mod 64]"
    by (simp only: enc takeWhile_not_pad [OF vs] map_filter_b64_value [OF vs]) simp
  then show ?case by (simp only: decode_group2 [OF m] d)
next
  case (3 a)
  define n where "n = a * 65536"
  have lt: "a < 256" using "3.prems" by auto
  have vs: "\<forall>v \<in> set [n div 262144, n div 4096 mod 64]. v < 64"
    using sextets_bound [of n] group_bound [OF lt, of 0 0] by (simp add: n_def)
  have enc: "encode_groups [a] = map b64_char [n div 262144, n div 4096 mod 64] @ [CHR ''='', CHR ''='']"
    by (simp only: encode_groups.simps Let_def n_def list.map append_Cons append_Nil)
  have "n = (a * 16 * 64) * 64" by (simp add: n_def)
  then have m: "n mod 64 = 0" "n div 64 mod 64 = 0" by simp_all
  have d: "[n div 65536] = [a]" by (simp add: n_def)
  have "List.map_filter b64_value (takeWhile (\<lambda>c. c \<noteq> CHR ''='') (encode_groups [a])) =
        [n div 262144, n div 4096 mod 64]"
    by (simp only: enc takeWhile_not_pad [OF vs] map_filter_b64_value [OF vs]) simp
  then show ?case by (simp only: decode_group1 [OF m] d)
next
  case 4
  then show ?case by simp
qed

lemma base64_decode_encode: "base64_decode (base64_encode bs) = bs"
proof -
  have "\<forall>x \<in> set (map unat bs). x < 256"
    using unsigned_less [where 'b = 8] by auto
  then have "decode_sextets (List.map_filter b64_value (takeWhile (\<lambda>c. c \<noteq> CHR ''='') (encode_groups (map unat bs))))
             = map unat bs"
    by (rule decode_encode_groups)
  then show ?thesis by (simp add: base64_decode_def base64_encode_def comp_def)
qed

lemma utf8_decode_encode [simp]: "utf8_decode (utf8_encode s) = s"
  by (simp add: utf8_decode_def utf8_encode_def comp_def unsigned_of_nat char_of_take_bit_eq)

text \<open>The shape of an encoding: characters of the alphabet, then padding;
  the decoder reads \<open>-\<close> and \<open>_\<close> as \<open>+\<close> and \<open>/\<close>.\<close>

lemma b64_char_ne_pad [simp]: "b64_char v \<noteq> CHR ''=''"
proof
  assume "b64_char v = CHR ''=''"
  then have "(of_char (b64_char v) :: nat) = 61" by simp
  then show False unfolding of_char_b64_char by (simp split: if_splits)
qed

lemma encode_groups_shape: "\<exists>B k. encode_groups ns = B @ replicate k CHR ''='' \<and> CHR ''='' \<notin> set B"
proof (induction ns rule: encode_groups.induct)
  case (1 a b c rest)
  then obtain B k where "encode_groups rest = B @ replicate k CHR ''=''" "CHR ''='' \<notin> set B" by blast
  then show ?case
    by (intro exI [of _ "take 4 (encode_groups (a # b # c # rest)) @ B"] exI [of _ k])
      (simp add: Let_def b64_char_ne_pad [THEN not_sym])
next
  case (2 a b)
  show ?case by (intro exI [of _ "take 3 (encode_groups [a, b])"] exI [of _ 1])
    (simp add: Let_def b64_char_ne_pad [THEN not_sym])
next
  case (3 a)
  show ?case by (intro exI [of _ "take 2 (encode_groups [a])"] exI [of _ 2])
    (simp add: Let_def numeral_2_eq_2 b64_char_ne_pad [THEN not_sym])
next
  case 4
  show ?case by simp
qed

lemma map_filter_b64_value_map:
  assumes "\<And>c. b64_value (f c) = b64_value c"
  shows "List.map_filter b64_value (map f s) = List.map_filter b64_value s"
  by (induction s) (simp_all add: map_filter_simps assms split: option.split)

lemma b64_value_url_chars:
  "b64_value (if c = CHR ''+'' then CHR ''-'' else c) = b64_value c"
  "b64_value (if c = CHR ''/'' then CHR ''_'' else c) = b64_value c"
  by (simp_all add: b64_value_def)

end
