(* ===== verification/MailMessage.thy ===== *)
theory MailMessage
  imports JsRegex Base64
begin

text \<open>
  The Gmail message the extractor reads (\<open>src/extractor.js\<close>, lines 6--85 of
  \<open>extractInfo\<close> and \<open>decodeBase64\<close>): the payload as a tree of parts, the header
  lookup, the HTML clean-up of a \<open>text/html\<close> part by a chain of global
  replacements, and the search for the body over the payload, its parts and one
  level of nested parts.  JavaScript's falsy values are written out: an absent
  \<open>body.data\<close>, \<open>parts\<close> or \<open>headers\<close> and an empty one take the same branches
  of the code, so both are the empty string or list here.  A missing
  \<open>payload\<close> makes \<open>email.payload.headers\<close> throw; that is the one way
  \<open>extractInfo\<close> fails.
\<close>

section \<open>Data\<close>

record header =
  hdr_name :: string
  hdr_value :: string

datatype message_part =
  Part (mime_type: string) (part_headers: "header list") (body_data: string)
    (sub_parts: "message_part list")

record gmail_message =
  msg_id :: string
  msg_thread :: string
  msg_payload :: "message_part option"

section \<open>Headers\<close>

text \<open>\<open>headers.find(h => h.name.toLowerCase() === name)?.value || ''\<close>.\<close>

definition find_header :: "string \<Rightarrow> header list \<Rightarrow> string" where
  "find_header name hs =
     (case find (\<lambda>h. js_lower (hdr_name h) = name) hs of None \<Rightarrow> [] | Some h \<Rightarrow> hdr_value h)"

section \<open>Decoding and HTML clean-up\<close>

text \<open>\<open>decodeBase64\<close>: \<open>Buffer.from(data, 'base64').toString('utf-8')\<close>.  The
  decoder skips what it cannot read and does not throw, so the \<open>catch\<close> that
  returns the empty string is not reachable.\<close>

definition decode_base64 :: "string \<Rightarrow> string" where
  "decode_base64 data = utf8_decode (base64_decode data)"

definition m_ws_star :: matcher where
  "m_ws_star = m_rep is_js_space 0"

definition m_ws_plus :: matcher where
  "m_ws_plus = m_rep is_js_space 1"

text \<open>The patterns of the clean-up, in the order the code applies them.\<close>

definition script_re :: matcher where
  "script_re = m_seqs [m_lit_ci ''<script'', m_rep (\<lambda>c. c \<noteq> CHR ''>'') 0, m_lit ''>'',
     m_rep_lazy (\<lambda>_. True) 0, m_lit_ci ''</script>'']"

definition style_re :: matcher where
  "style_re = m_seqs [m_lit_ci ''<style'', m_rep (\<lambda>c. c \<noteq> CHR ''>'') 0, m_lit ''>'',
     m_rep_lazy (\<lambda>_. True) 0, m_lit_ci ''</style>'']"

definition br_re :: matcher where
  "br_re = m_seqs [m_lit_ci ''<br'', m_ws_star, m_alt (m_lit ''/'') m_empty, m_lit ''>'']"

definition div_close_re :: matcher where
  "div_close_re = m_lit_ci ''</div>''"

definition p_close_re :: matcher where
  "p_close_re = m_lit_ci ''</p>''"

definition tag_re :: matcher where
  "tag_re = m_seqs [m_lit ''<'', m_rep (\<lambda>c. c \<noteq> CHR ''>'') 0, m_lit ''>'']"

definition clean_html :: "string \<Rightarrow> string" where
  "clean_html htmlBody =
     (let cleanBody = replace_all script_re [] htmlBody;
          cleanBody = replace_all style_re [] cleanBody;
          cleanBody = replace_all br_re newline cleanBody;
          cleanBody = replace_all div_close_re newline cleanBody;
          cleanBody = replace_all p_close_re newline cleanBody;
          cleanBody = replace_all tag_re '' '' cleanBody
      in js_trim (replace_all m_ws_plus '' '' cleanBody))"

section \<open>The body\<close>

text \<open>A part whose type is \<open>mime\<close> and whose \<open>body.data\<close> is truthy.\<close>

definition has_body :: "string \<Rightarrow> message_part \<Rightarrow> bool" where
  "has_body mime p \<longleftrightarrow> mime_type p = mime \<and> body_data p \<noteq> []"

text \<open>The inner loop over \<open>part.parts\<close>: a plain-text part ends it; an HTML
  part is taken only while no body was found, and the loop goes on, so a later
  plain-text part still replaces it.\<close>

fun nested_body :: "string \<Rightarrow> message_part list \<Rightarrow> string" where
  "nested_body body [] = body"
| "nested_body body (p # ps) =
     (if has_body ''text/plain'' p then decode_base64 (body_data p)
      else if has_body ''text/html'' p \<and> body = [] then nested_body (clean_html (decode_base64 (body_data p))) ps
      else nested_body body ps)"

text \<open>The outer loop over \<open>payload.parts\<close>: the first plain-text or HTML part
  ends it; a part with nested parts ends it when they gave a non-empty body.\<close>

fun parts_body :: "message_part list \<Rightarrow> string" where
  "parts_body [] = []"
| "parts_body (p # ps) =
     (if has_body ''text/plain'' p then decode_base64 (body_data p)
      else if has_body ''text/html'' p then clean_html (decode_base64 (body_data p))
      else if sub_parts p \<noteq> [] then
        (let body = nested_body [] (sub_parts p) in if body \<noteq> [] then body else parts_body ps)
      else parts_body ps)"

definition payload_body :: "message_part \<Rightarrow> string" where
  "payload_body payload =
     js_trim (if body_data payload \<noteq> [] then decode_base64 (body_data payload)
              else if sub_parts payload \<noteq> [] then parts_body (sub_parts payload)
              else [])"

section \<open>Reference properties\<close>

text \<open>A text holds no complete tag when no \<open>>\<close> follows a \<open><\<close>: once the first
  \<open><\<close> is passed, no \<open>>\<close> remains.\<close>

definition tag_free :: "string \<Rightarrow> bool" where
  "tag_free s \<longleftrightarrow> CHR ''>'' \<notin> set (dropWhile (\<lambda>c. c \<noteq> CHR ''<'') s)"

text \<open>The body one level of nested parts should give (the preference of the
  specification): the first plain-text part wherever it is, else the first HTML
  part whose clean-up is not empty.\<close>

definition nested_body_spec :: "message_part list \<Rightarrow> string" where
  "nested_body_spec ps =
     (case find (has_body ''text/plain'') ps of
        Some p \<Rightarrow> decode_base64 (body_data p)
      | None \<Rightarrow> (case find (\<lambda>s. s \<noteq> []) (map (\<lambda>p. clean_html (decode_base64 (body_data p)))
                                           (filter (has_body ''text/html'') ps)) of
                  Some s \<Rightarrow> s
                | None \<Rightarrow> []))"

section \<open>Lemmas\<close>

lemma tag_free_Cons [simp]:
  "tag_free (c # cs) \<longleftrightarrow> (if c = CHR ''<'' then CHR ''>'' \<notin> set cs else tag_free cs)"
  by (simp add: tag_free_def)

lemma tag_free_Nil [simp]: "tag_free []"
  by (simp add: tag_free_def)

lemma tag_free_append:
  "tag_free (xs @ ys) \<longleftrightarrow> tag_free xs \<and> (if CHR ''<'' \<in> set xs then CHR ''>'' \<notin> set ys else tag_free ys)"
  by (induction xs) auto

lemma tag_free_no_close: "CHR ''>'' \<notin> set s \<Longrightarrow> tag_free s"
  by (induction s) auto

lemma tag_free_appendD:
  assumes "tag_free (xs @ ys)"
  shows "tag_free xs" "tag_free ys"
  using assms tag_free_no_close [of ys] by (simp_all add: tag_free_append split: if_splits)

lemma tag_free_js_trim: "tag_free s \<Longrightarrow> tag_free (js_trim s)"
proof -
  assume s: "tag_free s"
  obtain a b where eq: "s = a @ js_trim s @ b" using js_trim_infix by blast
  from s have "tag_free (a @ js_trim s @ b)" by (subst (asm) eq)
  then have "tag_free (js_trim s @ b)" by (rule tag_free_appendD(2))
  then show ?thesis by (rule tag_free_appendD(1))
qed

lemma tag_re_Cons_close:
  assumes "CHR ''>'' \<in> set cs"
  shows "tag_re (CHR ''<'' # cs) \<noteq> []"
proof -
  let ?k = "length (takeWhile (\<lambda>c. c \<noteq> CHR ''>'') cs)"
  have ne: "dropWhile (\<lambda>c. c \<noteq> CHR ''>'') cs \<noteq> []" using assms by (simp add: dropWhile_eq_Nil_conv)
  then obtain rest where "dropWhile (\<lambda>c. c \<noteq> CHR ''>'') cs = CHR ''>'' # rest"
    using hd_dropWhile [OF ne] by (cases "dropWhile (\<lambda>c. c \<noteq> CHR ''>'') cs") auto
  then have d: "drop ?k cs = CHR ''>'' # rest" by (simp add: dropWhile_eq_drop)
  have "drop ?k cs \<in> set (m_rep (\<lambda>c. c \<noteq> CHR ''>'') 0 cs)" by (auto simp: set_m_rep)
  moreover have "rest \<in> set (m_lit ''>'' (drop ?k cs))" using d by (simp add: m_lit_def)
  ultimately have "rest \<in> set (m_seq (m_rep (\<lambda>c. c \<noteq> CHR ''>'') 0) (m_lit ''>'') cs)"
    unfolding set_m_seq by (rule bexI [rotated])
  moreover have "cs \<in> set (m_lit ''<'' (CHR ''<'' # cs))" by (simp add: m_lit_def)
  ultimately have "rest \<in> set (tag_re (CHR ''<'' # cs))"
    unfolding tag_re_def m_seqs_simps set_m_seq by blast
  then show ?thesis by auto
qed

lemma tag_re_shorter:
  assumes "r \<in> set (tag_re s)"
  shows "length r < length s"
proof -
  obtain r1 where r1: "r1 \<in> set (m_lit ''<'' s)"
    and r: "r \<in> set (m_seq (m_rep (\<lambda>c. c \<noteq> CHR ''>'') 0) (m_lit ''>'') r1)"
    using assms by (auto simp: tag_re_def set_m_seq)
  have "length r1 < length s" using r1 by (auto simp: m_lit_def str_starts_with_iff split: if_splits)
  moreover have "suffix_matcher (m_seq (m_rep (\<lambda>c. c \<noteq> CHR ''>'') 0) (m_lit ''>''))"
    by (intro suffix_matcher_intros)
  then have "suffix r r1" using r by (rule suffix_matcherD)
  ultimately show ?thesis by (meson order.strict_trans1 suffix_length_le)
qed

lemma replace_tag_re_tag_free:
  assumes "CHR ''<'' \<notin> set rep" "CHR ''>'' \<notin> set rep"
  shows "tag_free (replace_all tag_re rep s)"
proof (induction s rule: length_induct)
  case (1 s)
  have suf: "suffix_matcher tag_re" unfolding tag_re_def by (auto intro!: suffix_matcher_intros)
  show ?case
  proof (cases "tag_re s")
    case Nil
    show ?thesis
    proof (cases s)
      case (Cons c cs)
      have "tag_free (replace_all tag_re rep cs)" using 1 Cons by simp
      moreover have "CHR ''>'' \<notin> set (replace_all tag_re rep cs)" if "c = CHR ''<''"
        using tag_re_Cons_close [of cs] Nil Cons that replace_all_set [OF suf, of rep cs] assms(2) by auto
      moreover have "replace_all tag_re rep s = c # replace_all tag_re rep cs"
        using replace_all_nomatch [of tag_re s rep, OF Nil] Cons by simp
      ultimately show ?thesis by simp
    qed (insert replace_all_nomatch [of tag_re s rep, OF Nil], simp)
  next
    case (Cons r rs)
    then have "length r < length s" using tag_re_shorter [of r s] by simp
    then have "tag_free (replace_all tag_re rep r)" using 1 by blast
    moreover have "replace_all tag_re rep s = rep @ replace_all tag_re rep r"
      using replace_all_match [of tag_re s r rs rep, OF Cons] \<open>length r < length s\<close> by simp
    ultimately show ?thesis using assms by (simp add: tag_free_append tag_free_no_close)
  qed
qed

lemma replace_all_tag_free:
  assumes suf: "suffix_matcher m" and rep: "CHR ''<'' \<notin> set rep" "CHR ''>'' \<notin> set rep"
  shows "tag_free s \<Longrightarrow> tag_free (replace_all m rep s)"
proof (induction s rule: length_induct)
  case (1 s)
  have tail: "tag_free (case s of [] \<Rightarrow> [] | c # cs \<Rightarrow> c # replace_all m rep cs)"
  proof (cases s)
    case (Cons c cs)
    have cs: "tag_free cs" using 1(2) Cons tag_free_no_close [of cs] by (simp split: if_splits)
    then have "tag_free (replace_all m rep cs)" using 1(1) Cons by simp
    moreover have "CHR ''>'' \<notin> set (replace_all m rep cs)" if "c = CHR ''<''"
      using replace_all_set [OF suf, of rep cs] 1(2) Cons that rep(2) by auto
    ultimately show ?thesis using Cons by simp
  qed simp
  show ?case
  proof (cases "m s")
    case Nil
    with tail show ?thesis by (simp add: replace_all_nomatch)
  next
    case (Cons r rs)
    note eq = replace_all_match [of m s r rs rep, OF Cons]
    have "suffix r s" using suffix_matcherD [OF suf] Cons by simp
    then obtain p where p: "s = p @ r" by (auto simp: suffix_def)
    show ?thesis
    proof (cases "length r < length s")
      case True
      have "tag_free r" using 1(2) p tag_free_appendD(2) by simp
      then have "tag_free (replace_all m rep r)" using 1(1) True by blast
      with True rep show ?thesis unfolding eq by (simp add: tag_free_append tag_free_no_close)
    next
      case False
      with tail rep show ?thesis unfolding eq by (simp add: tag_free_append tag_free_no_close)
    qed
  qed
qed

lemma nested_body_found:
  "nested_body body ps =
     (case find (has_body ''text/plain'') ps of
        Some p \<Rightarrow> decode_base64 (body_data p)
      | None \<Rightarrow> if body \<noteq> [] then body else nested_body_spec ps)"
  by (induction ps arbitrary: body) (auto simp: nested_body_spec_def has_body_def split: option.splits)

text \<open>C12. Within one level of nested parts the code prefers plain text
  wherever it stands: its loop computes the reference body \<open>nested_body_spec\<close>.\<close>

theorem nested_body_prefers_plain: "nested_body [] ps = nested_body_spec ps"
  by (simp add: nested_body_found nested_body_spec_def split: option.split)

text \<open>C13. The HTML clean-up leaves no complete tag: in its result no \<open>>\<close>
  follows a \<open><\<close>.\<close>

theorem clean_html_tag_free: "tag_free (clean_html s)"
proof -
  have "tag_free (replace_all tag_re '' '' t)" for t by (rule replace_tag_re_tag_free) simp_all
  moreover have "suffix_matcher m_ws_plus" unfolding m_ws_plus_def by (rule suffix_matcher_basic)
  ultimately have "tag_free (replace_all m_ws_plus '' '' (replace_all tag_re '' '' t))" for t
    using replace_all_tag_free [of m_ws_plus "'' ''"] by simp
  then show ?thesis by (simp add: clean_html_def Let_def tag_free_js_trim)
qed

text \<open>C14. At the first level of parts the code takes the first part that is
  plain text or HTML, so an HTML part before a plain-text part wins, while one
  level deeper the plain-text part wins; the specification asks for plain text
  first at both levels.\<close>

theorem parts_body_first_part_wins:
  assumes "has_body ''text/html'' h" and "has_body ''text/plain'' p"
  shows "parts_body [h, p] = clean_html (decode_base64 (body_data h)) \<and>
         nested_body [] [h, p] = decode_base64 (body_data p)"
  using assms by (simp add: has_body_def)

theorem parts_body_first_part_wins_witness:
  "parts_body [Part ''text/html'' [] ''PGI+SGk8L2I+'' [], Part ''text/plain'' [] ''SGk='' []] =
     clean_html (decode_base64 ''PGI+SGk8L2I+'') \<and>
   nested_body [] [Part ''text/html'' [] ''PGI+SGk8L2I+'' [], Part ''text/plain'' [] ''SGk='' []] =
     decode_base64 ''SGk=''"
  using parts_body_first_part_wins [of "Part ''text/html'' [] ''PGI+SGk8L2I+'' []" "Part ''text/plain'' [] ''SGk='' []"]
  by (simp add: has_body_def)

end
