(* ===== verification/Extractor.thy ===== *)
theory Extractor
  imports MailMessage
begin

text \<open>
  \<open>extractInfo\<close> of \<open>src/extractor.js\<close>: the sender's address and name from the
  \<open>From\<close> header, the body (\<open>MailMessage\<close>), and the labelled fields of the body
  (candidate e-mail, full name, issue) by the regular expressions of the source,
  with the fallbacks to the header values.  The result is the ticket record the
  code returns, or the error the code rethrows.
\<close>

section \<open>Character classes\<close>

text \<open>\<open>[a-zA-Z0-9._-]\<close>, \<open>[\w\.-]\<close>, \<open>[a-zA-Z]\<close>, \<open>[:\s]\<close> and \<open>['"]\<close>.\<close>

definition email_char :: "char \<Rightarrow> bool" where
  "email_char c \<longleftrightarrow> is_alpha c \<or> is_digit c \<or> c = CHR ''.'' \<or> c = CHR ''_'' \<or> c = CHR ''-''"

definition word_dot_dash :: "char \<Rightarrow> bool" where
  "word_dot_dash c \<longleftrightarrow> is_word c \<or> c = CHR ''.'' \<or> c = CHR ''-''"

definition colon_or_space :: "char \<Rightarrow> bool" where
  "colon_or_space c \<longleftrightarrow> c = CHR '':'' \<or> is_js_space c"

definition is_quote :: "char \<Rightarrow> bool" where
  "is_quote c \<longleftrightarrow> c = CHR 0x27 \<or> c = CHR 0x22"

section \<open>The From header\<close>

text \<open>\<open>/([\w\.-]+@[\w\.-]+\.\w+)/\<close>: the whole pattern is group 1.\<close>

definition bare_address_re :: matcher where
  "bare_address_re = m_seqs [m_rep word_dot_dash 1, m_lit ''@'', m_rep word_dot_dash 1, m_lit ''.'', m_rep is_word 1]"

text \<open>\<open>fromHeader.match(/<(.+?)>/) || fromHeader.match(/([\w\.-]+@[\w\.-]+\.\w+)/)\<close>,
  then \<open>emailMatch[1] || emailMatch[0]\<close>; no match leaves the empty string.\<close>

definition sender_email :: "string \<Rightarrow> string" where
  "sender_email fromHeader =
     (case regex_match (m_lit ''<'') (m_rep_lazy is_dot 1) (m_lit ''>'') fromHeader of
        Some (whole, g) \<Rightarrow> js_or g whole
      | None \<Rightarrow>
          (case regex_match m_empty bare_address_re m_empty fromHeader of
             Some (whole, g) \<Rightarrow> js_or g whole
           | None \<Rightarrow> []))"

text \<open>\<open>fromHeader.match(/^(.+?)\s*</)\<close>: the display name, trimmed and without
  quotes; otherwise the local part of the address, or \<open>'Candidate'\<close>.\<close>

definition header_name :: "string \<Rightarrow> string \<Rightarrow> string" where
  "header_name fromHeader senderEmail =
     (case match_at m_empty (m_rep_lazy is_dot 1) (m_seq m_ws_star (m_lit ''<'')) fromHeader of
        Some (_, g) \<Rightarrow> replace_all (m_char is_quote) [] (js_trim g)
      | None \<Rightarrow> js_or (takeWhile (\<lambda>c. c \<noteq> CHR ''@'') senderEmail) ''Candidate'')"

section \<open>Labelled fields of the body\<close>

text \<open>\<open>[a-zA-Z0-9._-]+@[a-zA-Z0-9._-]+\.[a-zA-Z]{2,}\<close>, group 1 of the three
  e-mail patterns.\<close>

definition email_re :: matcher where
  "email_re = m_seqs [m_rep email_char 1, m_lit ''@'', m_rep email_char 1, m_lit ''.'', m_rep is_alpha 2]"

text \<open>The labels before it: \<open>Candidate\s+Email\s+ID[:\s]+\<close>,
  \<open>Candidate\s+Email[:\s]+\<close> and \<open>Email\s+ID[:\s]+\<close>, under the \<open>i\<close> flag.\<close>

definition email_labels :: "matcher list" where
  "email_labels =
     [m_seqs [m_lit_ci ''Candidate'', m_ws_plus, m_lit_ci ''Email'', m_ws_plus, m_lit_ci ''ID'', m_rep colon_or_space 1],
      m_seqs [m_lit_ci ''Candidate'', m_ws_plus, m_lit_ci ''Email'', m_rep colon_or_space 1],
      m_seqs [m_lit_ci ''Email'', m_ws_plus, m_lit_ci ''ID'', m_rep colon_or_space 1]]"

text \<open>The loop over \<open>emailPatterns\<close>: the first pattern that matches gives the
  trimmed group.\<close>

fun first_email :: "matcher list \<Rightarrow> string \<Rightarrow> string" where
  "first_email [] body = []"
| "first_email (label # labels) body =
     (case regex_match label email_re m_empty body of
        Some (_, g) \<Rightarrow> js_trim g
      | None \<Rightarrow> first_email labels body)"

text \<open>\<open>/Candidate\s+Full\s+Name[:\s]+(.+?)(?=\s*(?:Candidate\s+(?:Email\s+ID|Phone|Assessment\s+Key)|Subject|Issue)|$)/i\<close>.\<close>

definition name_label :: matcher where
  "name_label = m_seqs [m_lit_ci ''Candidate'', m_ws_plus, m_lit_ci ''Full'', m_ws_plus, m_lit_ci ''Name'',
     m_rep colon_or_space 1]"

definition next_field_ahead :: matcher where
  "next_field_ahead =
     m_ahead (m_alt
       (m_seq m_ws_star
          (m_alt (m_seqs [m_lit_ci ''Candidate'', m_ws_plus,
                    m_alt (m_seqs [m_lit_ci ''Email'', m_ws_plus, m_lit_ci ''ID''])
                      (m_alt (m_lit_ci ''Phone'') (m_seqs [m_lit_ci ''Assessment'', m_ws_plus, m_lit_ci ''Key'']))])
             (m_alt (m_lit_ci ''Subject'') (m_lit_ci ''Issue''))))
       m_end)"

definition body_name :: "string \<Rightarrow> string \<Rightarrow> string" where
  "body_name body candidateName =
     (case regex_match name_label (m_rep_lazy is_dot 1) next_field_ahead body of
        Some (_, g) \<Rightarrow> js_trim g
      | None \<Rightarrow> candidateName)"

text \<open>\<open>/Issue[:\s]+(.+?)(?=\s*(?:Thank\s+you|$))/i\<close>.\<close>

definition issue_label :: matcher where
  "issue_label = m_seq (m_lit_ci ''Issue'') (m_rep colon_or_space 1)"

definition thank_you_ahead :: matcher where
  "thank_you_ahead =
     m_ahead (m_seq m_ws_star (m_alt (m_seqs [m_lit_ci ''Thank'', m_ws_plus, m_lit_ci ''you'']) m_end))"

definition body_issue :: "string \<Rightarrow> string" where
  "body_issue body =
     (case regex_match issue_label (m_rep_lazy is_dot 1) thank_you_ahead body of
        Some (_, g) \<Rightarrow> js_trim g
      | None \<Rightarrow> [])"

section \<open>The ticket\<close>

record ticket =
  tk_candidate_name :: string
  tk_candidate_email :: string
  tk_sender_email :: string
  tk_subject :: string
  tk_body :: string
  tk_issue :: string
  tk_message_id :: string
  tk_thread_id :: string

text \<open>The exception \<open>extractInfo\<close> rethrows: reading \<open>headers\<close> of an
  undefined \<open>payload\<close>.\<close>

datatype extract_error = Payload_Missing

definition extract_info :: "gmail_message \<Rightarrow> extract_error + ticket" where
  "extract_info email =
     (case msg_payload email of
        None \<Rightarrow> Inl Payload_Missing
      | Some payload \<Rightarrow>
          (let headers = part_headers payload;
               fromHeader = find_header ''from'' headers;
               subjectHeader = find_header ''subject'' headers;
               senderEmail = sender_email fromHeader;
               candidateName = header_name fromHeader senderEmail;
               body = payload_body payload;
               candidateEmail = first_email email_labels body;
               extractedCandidateName = body_name body candidateName;
               issueDescription = body_issue body
           in Inr \<lparr>tk_candidate_name = js_or extractedCandidateName (js_or candidateName ''Candidate''),
                   tk_candidate_email = js_or candidateEmail senderEmail,
                   tk_sender_email = senderEmail,
                   tk_subject = subjectHeader,
                   tk_body = body,
                   tk_issue = issueDescription,
                   tk_message_id = msg_id email,
                   tk_thread_id = msg_thread email\<rparr>))"

text \<open>A string without a line terminator: it cannot break a header line.\<close>

abbreviation single_line :: "string \<Rightarrow> bool" where
  "single_line s \<equiv> \<not> list_ex is_newline s"

section \<open>Properties\<close>

lemma extract_info_Some:
  "msg_payload email = Some payload \<Longrightarrow>
   extract_info email = Inr
     \<lparr>tk_candidate_name =
        js_or (body_name (payload_body payload)
                 (header_name (find_header ''from'' (part_headers payload))
                    (sender_email (find_header ''from'' (part_headers payload)))))
          (js_or (header_name (find_header ''from'' (part_headers payload))
                    (sender_email (find_header ''from'' (part_headers payload)))) ''Candidate''),
      tk_candidate_email = js_or (first_email email_labels (payload_body payload))
                                 (sender_email (find_header ''from'' (part_headers payload))),
      tk_sender_email = sender_email (find_header ''from'' (part_headers payload)),
      tk_subject = find_header ''subject'' (part_headers payload),
      tk_body = payload_body payload,
      tk_issue = body_issue (payload_body payload),
      tk_message_id = msg_id email,
      tk_thread_id = msg_thread email\<rparr>"
  by (simp add: extract_info_def Let_def)

lemma extract_info_Inr_fields:
  assumes "extract_info email = Inr t"
  shows "\<exists>payload. msg_payload email = Some payload \<and> tk_body t = payload_body payload \<and>
           tk_candidate_email t = js_or (first_email email_labels (tk_body t)) (tk_sender_email t) \<and>
           tk_candidate_name t \<noteq> [] \<and> tk_message_id t = msg_id email"
  using assms by (cases "msg_payload email") (simp add: extract_info_def, auto simp: extract_info_Some)

section \<open>Claims\<close>

text \<open>C8. Extraction fails exactly when the message has no payload; a message
  without headers, without a body or with parts of no usable type still gives a
  ticket.\<close>

theorem extract_fails_iff_no_payload:
  "(\<exists>e. extract_info email = Inl e) \<longleftrightarrow> msg_payload email = None"
  by (cases "msg_payload email") (simp_all add: extract_info_def Let_def)

text \<open>C9. The candidate name of every ticket is non-empty: the body's name, the
  header's name and the literal \<open>Candidate\<close> are tried in turn.\<close>

theorem extract_name_nonempty:
  assumes "extract_info email = Inr t"
  shows "tk_candidate_name t \<noteq> []"
  using extract_info_Inr_fields [OF assms] by blast

theorem extract_name_nonempty_witness:
  "extract_info \<lparr>msg_id = ''m0'', msg_thread = [], msg_payload = Some (Part ''text/plain'' [] [] [])\<rparr>
     = Inr \<lparr>tk_candidate_name = ''Candidate'', tk_candidate_email = [], tk_sender_email = [], tk_subject = [],
            tk_body = [], tk_issue = [], tk_message_id = ''m0'', tk_thread_id = []\<rparr> \<and>
   tk_candidate_name \<lparr>tk_candidate_name = ''Candidate'', tk_candidate_email = [], tk_sender_email = [], tk_subject = [],
            tk_body = [], tk_issue = [], tk_message_id = ''m0'', tk_thread_id = []\<rparr> \<noteq> []"
proof -
  have e: "extract_info \<lparr>msg_id = ''m0'', msg_thread = [], msg_payload = Some (Part ''text/plain'' [] [] [])\<rparr>
     = Inr \<lparr>tk_candidate_name = ''Candidate'', tk_candidate_email = [], tk_sender_email = [], tk_subject = [],
            tk_body = [], tk_issue = [], tk_message_id = ''m0'', tk_thread_id = []\<rparr>"
    by code_simp
  show ?thesis using e extract_name_nonempty [OF e] by blast
qed

section \<open>Single lines and required characters\<close>

lemma newline_classes:
  "is_dot c \<Longrightarrow> \<not> is_newline c"
  "is_alpha c \<Longrightarrow> \<not> is_newline c"
  "is_word c \<Longrightarrow> \<not> is_newline c"
  "email_char c \<Longrightarrow> \<not> is_newline c"
  "word_dot_dash c \<Longrightarrow> \<not> is_newline c"
  by (auto simp: is_dot_def is_newline_def is_alpha_def is_digit_def is_word_def email_char_def word_dot_dash_def)

lemma single_line_iff: "single_line s \<longleftrightarrow> list_all (\<lambda>c. \<not> is_newline c) s"
  by (simp add: list_ex_iff list_all_iff)

lemma single_line_ops:
  "single_line s \<Longrightarrow> single_line (js_trim s)"
  "single_line a \<Longrightarrow> single_line b \<Longrightarrow> single_line (js_or a b)"
  "single_line s \<Longrightarrow> single_line (takeWhile P s)"
  "single_line s \<Longrightarrow> single_line (replace_all (m_char P) [] s)"
proof -
  show "single_line s \<Longrightarrow> single_line (js_trim s)"
    using js_trim_infix [of s] by (metis list_ex_append)
  show "single_line a \<Longrightarrow> single_line b \<Longrightarrow> single_line (js_or a b)" by (simp add: js_or_def)
  show "single_line s \<Longrightarrow> single_line (takeWhile P s)"
    by (simp add: list_ex_iff) (meson set_takeWhileD)
  show "single_line s \<Longrightarrow> single_line (replace_all (m_char P) [] s)"
    by (simp add: replace_all_char_filter list_ex_iff)
qed

lemma literals_single_line:
  "list_all (\<lambda>c. \<not> is_newline c) ''@''" "list_all (\<lambda>c. \<not> is_newline c) ''.''"
  "list_all (\<lambda>c. \<not> is_newline c) ''<''" "list_all (\<lambda>c. \<not> is_newline c) ''>''"
  by (simp_all add: is_newline_def)

lemma consumes_single_line:
  "consumes_only (\<lambda>c. \<not> is_newline c) email_re"
  "consumes_only (\<lambda>c. \<not> is_newline c) bare_address_re"
  "consumes_only (\<lambda>c. \<not> is_newline c) (m_rep_lazy is_dot 1)"
  "consumes_only (\<lambda>c. \<not> is_newline c) (m_lit ''<'')"
  "consumes_only (\<lambda>c. \<not> is_newline c) (m_lit ''>'')"
  "consumes_only (\<lambda>c. \<not> is_newline c) m_empty"
proof -
  show "consumes_only (\<lambda>c. \<not> is_newline c) email_re"
    unfolding email_re_def by (rule consumes_only_seqs) (auto intro!: consumes_only_intros literals_single_line dest: newline_classes)
  show "consumes_only (\<lambda>c. \<not> is_newline c) bare_address_re"
    unfolding bare_address_re_def by (rule consumes_only_seqs) (auto intro!: consumes_only_intros literals_single_line dest: newline_classes)
  show "consumes_only (\<lambda>c. \<not> is_newline c) (m_rep_lazy is_dot 1)"
    by (rule consumes_only_basic(4)) (rule newline_classes(1))
  show "consumes_only (\<lambda>c. \<not> is_newline c) (m_lit ''<'')" "consumes_only (\<lambda>c. \<not> is_newline c) (m_lit ''>'')"
    by (rule consumes_only_basic(2), rule literals_single_line)+
  show "consumes_only (\<lambda>c. \<not> is_newline c) m_empty" by (rule consumes_only_basic(1))
qed

lemma regex_group_single_line:
  assumes "regex_match pre cap post s = Some (w, g)" and "consumes_only (\<lambda>c. \<not> is_newline c) cap"
  shows "single_line g"
proof -
  obtain i where "match_at pre cap post (drop i s) = Some (w, g)" using regex_match_at [OF assms(1)] by blast
  then show ?thesis unfolding single_line_iff using assms(2) by (rule match_at_consumes)
qed

lemma regex_whole_single_line:
  assumes "regex_match pre cap post s = Some (w, g)"
    and "consumes_only (\<lambda>c. \<not> is_newline c) pre" "consumes_only (\<lambda>c. \<not> is_newline c) cap"
    "consumes_only (\<lambda>c. \<not> is_newline c) post"
  shows "single_line w"
proof -
  obtain i where "match_at pre cap post (drop i s) = Some (w, g)" using regex_match_at [OF assms(1)] by blast
  then show ?thesis unfolding single_line_iff using assms(2-4) by (rule match_at_whole_consumes)
qed

lemma sender_email_single_line: "single_line (sender_email h)"
proof (cases "regex_match (m_lit ''<'') (m_rep_lazy is_dot 1) (m_lit ''>'') h")
  case (Some x)
  obtain w g where x: "x = (w, g)" by (cases x)
  have "single_line g" using Some x consumes_single_line(3) by (simp add: regex_group_single_line)
  moreover have "single_line w" using Some x consumes_single_line(3-5)
    by (simp add: regex_whole_single_line)
  ultimately show ?thesis using Some x by (simp add: sender_email_def single_line_ops(2))
next
  case None
  show ?thesis
  proof (cases "regex_match m_empty bare_address_re m_empty h")
    case (Some x)
    obtain w g where x: "x = (w, g)" by (cases x)
    have "single_line g" using Some x consumes_single_line(2) by (simp add: regex_group_single_line)
    moreover have "single_line w" using Some x consumes_single_line(2,6)
      by (simp add: regex_whole_single_line)
    ultimately show ?thesis using None Some x by (simp add: sender_email_def single_line_ops(2))
  next
    case None2: None
    then show ?thesis using None by (simp add: sender_email_def)
  qed
qed

lemma header_name_single_line:
  assumes "single_line se"
  shows "single_line (header_name h se)"
proof (cases "match_at m_empty (m_rep_lazy is_dot 1) (m_seq m_ws_star (m_lit ''<'')) h")
  case (Some x)
  obtain w g where x: "x = (w, g)" by (cases x)
  have "list_all (\<lambda>c. \<not> is_newline c) g"
    using Some x consumes_single_line(3) by (simp add: match_at_consumes)
  then have "single_line g" by (simp add: single_line_iff)
  then show ?thesis using Some x by (simp add: header_name_def single_line_ops)
next
  case None
  have "single_line ''Candidate''" by (simp add: is_newline_def)
  with None assms show ?thesis by (simp add: header_name_def single_line_ops)
qed

lemma body_name_single_line:
  assumes "single_line cn"
  shows "single_line (body_name body cn)"
proof (cases "regex_match name_label (m_rep_lazy is_dot 1) next_field_ahead body")
  case (Some x)
  obtain w g where x: "x = (w, g)" by (cases x)
  have "single_line g" using Some x consumes_single_line(3) by (simp add: regex_group_single_line)
  then show ?thesis using Some x by (simp add: body_name_def single_line_ops)
qed (simp add: body_name_def assms)

lemma first_email_single_line: "single_line (first_email labels body)"
proof (induction labels)
  case (Cons label labels)
  show ?case
  proof (cases "regex_match label email_re m_empty body")
    case (Some x)
    obtain w g where x: "x = (w, g)" by (cases x)
    have "single_line g" using Some x consumes_single_line(1) by (simp add: regex_group_single_line)
    then show ?thesis using Some x by (simp add: single_line_ops)
  qed (simp add: Cons.IH)
qed simp

lemma at_required:
  "email_re t \<noteq> [] \<Longrightarrow> CHR ''@'' \<in> set t"
  "bare_address_re t \<noteq> [] \<Longrightarrow> CHR ''@'' \<in> set t"
proof -
  have rep_at: "CHR ''@'' \<in> set t"
    if ne: "m_seq (m_rep P 1) (m_seq (m_lit ''@'') M) t \<noteq> []" for P M
  proof -
    obtain k where k: "m_seq (m_lit ''@'') M (drop k t) \<noteq> []"
      using ne unfolding m_seq_rep_nonempty by blast
    then have "str_starts_with ''@'' (drop k t)" by (rule m_seq_lit_nonempty)
    then obtain r where "drop k t = CHR ''@'' # r" by (auto simp: str_starts_with_iff)
    then show ?thesis by (metis in_set_dropD list.set_intros(1))
  qed
  show "email_re t \<noteq> [] \<Longrightarrow> CHR ''@'' \<in> set t" unfolding email_re_def by (simp add: rep_at)
  show "bare_address_re t \<noteq> [] \<Longrightarrow> CHR ''@'' \<in> set t" unfolding bare_address_re_def by (simp add: rep_at)
qed

lemma first_email_no_at:
  assumes "CHR ''@'' \<notin> set body" and "\<And>l. l \<in> set labels \<Longrightarrow> suffix_matcher l"
  shows "first_email labels body = []"
  using assms(2)
proof (induction labels)
  case (Cons label labels)
  have "regex_match label email_re m_empty body = None"
  proof (rule ccontr)
    assume "regex_match label email_re m_empty body \<noteq> None"
    then obtain x where "regex_match label email_re m_empty body = Some x" by blast
    from regex_match_needs [OF this _ at_required(1)] Cons.prems assms(1) show False by simp
  qed
  with Cons show ?case by simp
qed simp

lemma sender_email_no_at:
  assumes "CHR ''@'' \<notin> set h" and "CHR ''<'' \<notin> set h"
  shows "sender_email h = []"
proof -
  have "regex_match (m_lit ''<'') (m_rep_lazy is_dot 1) (m_lit ''>'') h = None"
  proof (rule ccontr)
    assume "regex_match (m_lit ''<'') (m_rep_lazy is_dot 1) (m_lit ''>'') h \<noteq> None"
    then obtain x where x: "regex_match (m_lit ''<'') (m_rep_lazy is_dot 1) (m_lit ''>'') h = Some x" by blast
    obtain i where "match_at (m_lit ''<'') (m_rep_lazy is_dot 1) (m_lit ''>'') (drop i h) = Some x"
      using regex_match_at [OF x] by blast
    then obtain r1 where "r1 \<in> set (m_lit ''<'' (drop i h))" using match_at_pre by blast
    then have "str_starts_with ''<'' (drop i h)" by (auto simp: m_lit_def split: if_splits)
    then have "CHR ''<'' \<in> set (drop i h)" by (auto simp: str_starts_with_iff)
    with assms(2) show False by (meson in_set_dropD)
  qed
  moreover have "regex_match m_empty bare_address_re m_empty h = None"
  proof (rule ccontr)
    assume "regex_match m_empty bare_address_re m_empty h \<noteq> None"
    then obtain x where "regex_match m_empty bare_address_re m_empty h = Some x" by blast
    from regex_match_needs [OF this suffix_matcher_basic(1) at_required(2)] assms(1) show False by simp
  qed
  ultimately show ?thesis by (simp add: sender_email_def)
qed

lemma email_labels_suffix: "l \<in> set email_labels \<Longrightarrow> suffix_matcher l"
  unfolding email_labels_def m_ws_plus_def by (auto intro!: suffix_matcher_intros)

lemma extract_email_single_line:
  assumes "extract_info email = Inr t"
  shows "single_line (tk_candidate_email t)"
proof -
  obtain payload where p: "msg_payload email = Some payload"
    using assms by (cases "msg_payload email") (simp_all add: extract_info_def)
  have "single_line (js_or (first_email email_labels (payload_body payload))
                            (sender_email (find_header ''from'' (part_headers payload))))"
    using first_email_single_line sender_email_single_line by (rule single_line_ops(2))
  then show ?thesis using assms by (auto simp: extract_info_Some [OF p])
qed

text \<open>C10. The candidate name and the candidate e-mail of every ticket are
  single lines: the patterns that produce them (\<open>.\<close>, the address classes,
  the literals around them) never consume a line terminator, so the address
  that becomes the \<open>To:\<close> header of the reply cannot split it, and the name
  cannot break the greeting line.\<close>

theorem extract_fields_single_line:
  assumes "extract_info email = Inr t"
  shows "\<not> list_ex is_newline (tk_candidate_name t) \<and> \<not> list_ex is_newline (tk_candidate_email t)"
proof -
  obtain payload where p: "msg_payload email = Some payload"
    using assms by (cases "msg_payload email") (simp_all add: extract_info_def)
  let ?h = "find_header ''from'' (part_headers payload)"
  have se: "single_line (sender_email ?h)" by (rule sender_email_single_line)
  have hn: "single_line (header_name ?h (sender_email ?h))" using se by (rule header_name_single_line)
  have c: "single_line ''Candidate''" by (simp add: is_newline_def)
  have hc: "single_line (js_or (header_name ?h (sender_email ?h)) ''Candidate'')" using hn c by (rule single_line_ops(2))
  have "single_line (js_or (body_name (payload_body payload) (header_name ?h (sender_email ?h)))
                      (js_or (header_name ?h (sender_email ?h)) ''Candidate''))"
    using body_name_single_line [OF hn] hc by (rule single_line_ops(2))
  then show ?thesis using assms extract_email_single_line [OF assms] by (auto simp: extract_info_Some [OF p])
qed

theorem extract_fields_single_line_witness:
  "extract_info \<lparr>msg_id = ''m1'', msg_thread = ''t1'',
     msg_payload = Some (Part ''text/plain'' [\<lparr>hdr_name = ''From'', hdr_value = ''Jane Doe <jane@x.com>''\<rparr>] [] [])\<rparr>
     = Inr \<lparr>tk_candidate_name = ''Jane Doe'', tk_candidate_email = ''jane@x.com'', tk_sender_email = ''jane@x.com'',
            tk_subject = [], tk_body = [], tk_issue = [], tk_message_id = ''m1'', tk_thread_id = ''t1''\<rparr> \<and>
   \<not> list_ex is_newline ''Jane Doe'' \<and> \<not> list_ex is_newline ''jane@x.com''"
proof -
  have e: "extract_info \<lparr>msg_id = ''m1'', msg_thread = ''t1'',
     msg_payload = Some (Part ''text/plain'' [\<lparr>hdr_name = ''From'', hdr_value = ''Jane Doe <jane@x.com>''\<rparr>] [] [])\<rparr>
     = Inr \<lparr>tk_candidate_name = ''Jane Doe'', tk_candidate_email = ''jane@x.com'', tk_sender_email = ''jane@x.com'',
            tk_subject = [], tk_body = [], tk_issue = [], tk_message_id = ''m1'', tk_thread_id = ''t1''\<rparr>"
    by code_simp
  show ?thesis using e extract_fields_single_line [OF e] by simp
qed

text \<open>C11. The candidate e-mail is empty for every message whose \<open>From\<close>
  header contains neither \<open>@\<close> nor \<open><\<close> and whose body contains no \<open>@\<close>,
  although the specification says the fallback chain always gives a value:
  no e-mail pattern and no sender pattern can match, and both fall back to the
  empty string.\<close>

theorem extract_candidate_email_empty:
  assumes "msg_payload email = Some payload"
    and "CHR ''@'' \<notin> set (find_header ''from'' (part_headers payload))"
    and "CHR ''<'' \<notin> set (find_header ''from'' (part_headers payload))"
    and "CHR ''@'' \<notin> set (payload_body payload)"
  shows "\<exists>t. extract_info email = Inr t \<and> tk_candidate_email t = [] \<and> tk_sender_email t = []"
  using first_email_no_at [OF assms(4) email_labels_suffix] sender_email_no_at [OF assms(2,3)]
  by (simp add: extract_info_Some [OF assms(1)] js_or_def)

theorem extract_candidate_email_empty_witness:
  "\<exists>t. extract_info \<lparr>msg_id = ''m2'', msg_thread = [],
       msg_payload = Some (Part ''text/plain'' [\<lparr>hdr_name = ''From'', hdr_value = ''Support Desk''\<rparr>] [] [])\<rparr> = Inr t
     \<and> tk_candidate_email t = [] \<and> tk_sender_email t = []"
  by (rule extract_candidate_email_empty) code_simp+

end
