(* ===== verification/Logo.thy ===== *)
theory Logo
  imports Base64
begin

text \<open>
  The asset provider (\<open>src/logoUtils.js\<close>): \<open>loadLogoAsBase64\<close> looks for a
  logo file in a fixed list of places and returns it as a base64 data URI, and
  \<open>getLogo\<close> prefers a logo given in the environment, then the file, then a
  URL.  The file system is a parameter: for every path it says whether
  \<open>existsSync\<close> finds a file and whether \<open>readFileSync\<close> then reads its bytes or
  throws.  \<open>path.join(__dirname, name)\<close> is the directory, a slash and the
  name; \<open>path.extname\<close> is the part of the last path segment from its last dot,
  empty when the segment has no dot after its first character.
\<close>

section \<open>Environment and file system\<close>

record logo_env =
  env_logo_base64 :: string
  env_logo_url :: string

datatype file_status = Absent | Present "byte list" | Unreadable

type_synonym file_system = "string \<Rightarrow> file_status"

section \<open>Operations\<close>

definition path_join :: "string \<Rightarrow> string list \<Rightarrow> string" where
  "path_join dir names = dir @ concat (map (\<lambda>n. CHR ''/'' # n) names)"

text \<open>\<open>[logoPath, ...].filter(Boolean)\<close>: an absent or empty argument is dropped.\<close>

definition possible_paths :: "string \<Rightarrow> string option \<Rightarrow> string list" where
  "possible_paths dir logoPath =
     filter (\<lambda>p. p \<noteq> [])
       ((case logoPath of None \<Rightarrow> [] | Some p \<Rightarrow> [p]) @
        [path_join dir [''logo.png''], path_join dir [''logo.jpg''],
         path_join dir [''assets'', ''logo.png''], path_join dir [''assets'', ''logo.jpg'']])"

definition ext_name :: "string \<Rightarrow> string" where
  "ext_name p =
     (let base = rev (takeWhile (\<lambda>c. c \<noteq> CHR ''/'') (rev p));
          r = takeWhile (\<lambda>c. c \<noteq> CHR ''.'') (rev base)
      in if length base \<le> Suc (length r) then [] else CHR ''.'' # rev r)"

definition mime_of_ext :: "string \<Rightarrow> string" where
  "mime_of_ext ext =
     (if ext = ''.jpg'' \<or> ext = ''.jpeg'' then ''image/jpeg''
      else if ext = ''.gif'' then ''image/gif''
      else if ext = ''.svg'' then ''image/svg+xml''
      else ''image/png'')"

text \<open>The loop over the candidate paths: the first path that exists is read;
  a read that throws is caught and gives the empty string, as does the end of
  the list.\<close>

fun load_from :: "file_system \<Rightarrow> string list \<Rightarrow> string" where
  "load_from fs [] = []"
| "load_from fs (p # ps) =
     (case fs p of
        Absent \<Rightarrow> load_from fs ps
      | Unreadable \<Rightarrow> []
      | Present bytes \<Rightarrow>
          ''data:'' @ mime_of_ext (js_lower (ext_name p)) @ '';base64,'' @ base64_encode bytes)"

definition load_logo_as_base64 :: "file_system \<Rightarrow> string \<Rightarrow> string option \<Rightarrow> string" where
  "load_logo_as_base64 fs dir logoPath = load_from fs (possible_paths dir logoPath)"

definition get_logo :: "logo_env \<Rightarrow> file_system \<Rightarrow> string \<Rightarrow> string" where
  "get_logo env fs dir =
     (if env_logo_base64 env \<noteq> [] then
        (if str_starts_with ''data:'' (env_logo_base64 env) then env_logo_base64 env
         else ''data:image/png;base64,'' @ env_logo_base64 env)
      else
        (let base64Logo = load_logo_as_base64 fs dir None in
         if base64Logo \<noteq> [] then base64Logo
         else js_or (env_logo_url env) ''https://www.otomeyt.ai/logo.png''))"

section \<open>Lemmas\<close>

lemma load_from_data_uri:
  "load_from fs ps = [] \<or> str_starts_with ''data:image/'' (load_from fs ps)"
  by (induction ps) (auto simp: mime_of_ext_def split: file_status.split)

text \<open>C16. \<open>getLogo\<close> never returns the empty string: with no logo in the
  environment and no readable file it falls back to the URL of the environment
  or, when that is unset, to a fixed URL.\<close>

theorem get_logo_nonempty: "get_logo env fs dir \<noteq> []"
  by (simp add: get_logo_def Let_def)

lemma logo_example_encoding: "base64_encode [0x89, 0x50, 0x4E, 0x47] = ''iVBORw==''"
  by (simp add: base64_encode_def b64_char_def char_of_def bit_simps)

lemma load_from_first_present:
  assumes "\<forall>q \<in> set before. fs q = Absent" and "fs p = Present bytes"
  shows "load_from fs (before @ p # after) =
           ''data:'' @ mime_of_ext (js_lower (ext_name p)) @ '';base64,'' @ base64_encode bytes"
  using assms(1) by (induction before) (simp_all add: assms(2))

text \<open>C17. With no logo in the environment, \<open>getLogo\<close> returns the first
  file of the list of candidate paths that exists, read and encoded as a data
  URI whose type follows the file's extension; the paths before it must be
  absent (an unreadable file ends the search with the empty string).\<close>

theorem get_logo_first_file:
  assumes "env_logo_base64 env = []"
    and "possible_paths dir None = before @ p # after"
    and "\<forall>q \<in> set before. fs q = Absent" and "fs p = Present bytes"
  shows "get_logo env fs dir = ''data:'' @ mime_of_ext (js_lower (ext_name p)) @ '';base64,'' @ base64_encode bytes"
  using assms load_from_first_present [OF assms(3,4), of after]
  by (simp add: get_logo_def load_logo_as_base64_def Let_def)

theorem get_logo_first_file_witness:
  "get_logo \<lparr>env_logo_base64 = [], env_logo_url = []\<rparr>
     (\<lambda>p. if p = ''/srv/app/src/assets/logo.jpg'' then Present [0x89, 0x50, 0x4E, 0x47] else Absent)
     ''/srv/app/src'' = ''data:image/jpeg;base64,iVBORw==''"
proof -
  have "get_logo \<lparr>env_logo_base64 = [], env_logo_url = []\<rparr>
     (\<lambda>p. if p = ''/srv/app/src/assets/logo.jpg'' then Present [0x89, 0x50, 0x4E, 0x47] else Absent)
     ''/srv/app/src'' = ''data:'' @ mime_of_ext (js_lower (ext_name ''/srv/app/src/assets/logo.jpg'')) @ '';base64,''
        @ base64_encode [0x89, 0x50, 0x4E, 0x47]"
    by (rule get_logo_first_file [where before = "[''/srv/app/src/logo.png'', ''/srv/app/src/logo.jpg'',
          ''/srv/app/src/assets/logo.png'']" and after = "[]"])
       (simp_all add: possible_paths_def path_join_def)
  then show ?thesis
    by (simp add: ext_name_def mime_of_ext_def Let_def logo_example_encoding js_lower_def lower_char_Char)
qed
end
