(* ===== verification/Templates.thy ===== *)
theory Templates
  imports JsRegex Logo
begin

text \<open>
  The response composer (\<open>src/templates.js\<close>): the clean-up of the candidate
  name by \<open>split\<close> on a field label, the plain-text and HTML templates of
  \<open>generateStartButtonIssueResponse\<close> with the logo of \<open>getLogo\<close> (theory
  \<open>Logo\<close>), and the fixed subject of \<open>getStartButtonIssueSubject\<close>.  The
  template literals are written line by line and joined with newlines, with
  the indentation of the source.
\<close>

section \<open>The name\<close>

text \<open>\<open>/\s+(?:Candidate|Email|Phone|Assessment|Subject|Issue)/i\<close>.\<close>

definition field_label_re :: matcher where
  "field_label_re =
     foldr m_alt (map m_lit_ci [''Candidate'', ''Email'', ''Phone'', ''Assessment'', ''Subject''])
       (m_lit_ci ''Issue'')"

definition name_split_re :: matcher where
  "name_split_re = m_seq (m_rep is_js_space 1) field_label_re"

text \<open>\<open>candidateName.split(...)[0].trim()\<close>.\<close>

definition clean_name :: "string \<Rightarrow> string" where
  "clean_name candidateName = js_trim (split_head name_split_re candidateName)"

section \<open>The templates\<close>

definition plain_text_of :: "string \<Rightarrow> string" where
  "plain_text_of cleanName = js_join newline
     [''Hi '' @ cleanName @ '','',
      [],
      ''Please ensure you enabled the camera and microphone permissions for the Google Chrome browser to be able to click on the Start button.'',
      [],
      ''If you encounter any issues, kindly enable all necessary permissions and reload the page.'',
      [],
      ''If the issue persists, try the following steps:'',
      ''- Take the test in incognito mode, or'',
      ''- Switch to a different device.'',
      [],
      ''Regards,'',
      ''Otomeyt Support Team'',
      ''www.otomeyt.ai'']"

text \<open>\<open>${logo ? `<div ...>...</div>` : ''}\<close>.\<close>

definition logo_block :: "string \<Rightarrow> string" where
  \<open>logo_block logo =
     (if logo \<noteq> [] then js_join newline
        [''<div style="margin-top: 20px;">'',
         ''    <img src="'' @ logo @ ''" alt="Otomeyt AI" style="max-width: 200px; height: auto;" />'',
         ''  </div>'']
      else [])\<close>

definition html_of :: "string \<Rightarrow> string \<Rightarrow> string" where
  \<open>html_of cleanName logo = js_join newline
     [[],
      ''<!DOCTYPE html>'',
      ''<html>'',
      ''<head>'',
      ''  <meta charset="UTF-8">'',
      ''</head>'',
      ''<body style="font-family: Arial, sans-serif; line-height: 1.6; color: #333;">'',
      ''  <p>Hi '' @ cleanName @ '',</p>'',
      ''  '',
      ''  <p>Please ensure you enabled the camera and microphone permissions for the Google Chrome browser to be able to click on the Start button.</p>'',
      ''  '',
      ''  <p>If you encounter any issues, kindly enable all necessary permissions and reload the page.</p>'',
      ''  '',
      ''  <p>If the issue persists, try the following steps:</p>'',
      ''  <ul>'',
      ''    <li>Take the test in incognito mode, or</li>'',
      ''    <li>Switch to a different device.</li>'',
      ''  </ul>'',
      ''  '',
      ''  <p>Regards,<br>'',
      ''  Otomeyt Support Team<br>'',
      ''  <a href="https://www.otomeyt.ai" style="color: #0066cc;">www.otomeyt.ai</a></p>'',
      ''  '',
      ''  '' @ logo_block logo,
      ''</body>'',
      ''</html>'']\<close>

record reply_body =
  rb_plain :: string
  rb_html :: string

definition generate_start_button_issue_response ::
  "logo_env \<Rightarrow> file_system \<Rightarrow> string \<Rightarrow> string \<Rightarrow> reply_body" where
  "generate_start_button_issue_response env fs dir candidateName =
     (let cleanName = clean_name candidateName;
          plainText = plain_text_of cleanName;
          logo = get_logo env fs dir;
          html = html_of cleanName logo
      in \<lparr>rb_plain = plainText, rb_html = html\<rparr>)"

definition get_start_button_issue_subject :: string where
  "get_start_button_issue_subject = ''Regarding Your Assessment Start Issue''"

section \<open>Lemmas\<close>

lemma name_split_re_mono:
  assumes "name_split_re x \<noteq> []"
  shows "name_split_re (x @ y) \<noteq> []"
proof -
  have "field_label_re u \<noteq> [] \<Longrightarrow> field_label_re (u @ v) \<noteq> []" for u v
    unfolding field_label_re_def by (rule lit_alts_ci_mono)
  then show ?thesis using assms unfolding name_split_re_def by (rule m_seq_rep_mono)
qed

lemma name_split_re_shorter:
  assumes "r \<in> set (name_split_re t)"
  shows "length r < length t"
proof -
  obtain r1 where r1: "r1 \<in> set (m_rep is_js_space 1 t)" and r: "r \<in> set (field_label_re r1)"
    using assms unfolding name_split_re_def set_m_seq by blast
  obtain k where k: "1 \<le> k" "k \<le> length (takeWhile is_js_space t)" "r1 = drop k t"
    using r1 by (auto simp: set_m_rep)
  have "k \<le> length t" using k(2) length_takeWhile_le order_trans by blast
  with k have "length r1 < length t" by simp
  moreover have "suffix_matcher field_label_re" unfolding field_label_re_def by (rule suffix_matcher_lit_alts)
  then have "suffix r r1" using r by (rule suffix_matcherD)
  ultimately show ?thesis by (meson order.strict_trans1 suffix_length_le)
qed

lemma clean_name_no_test: "\<not> regex_test name_split_re (clean_name n)"
proof
  let ?p = "split_head name_split_re n"
  have p: "\<not> regex_test name_split_re ?p"
    using name_split_re_shorter name_split_re_mono by (rule split_head_no_test)
  obtain a b where ab: "?p = a @ js_trim ?p @ b" using js_trim_infix by blast
  assume "regex_test name_split_re (clean_name n)"
  then have "regex_test name_split_re (a @ js_trim ?p @ b)"
    unfolding clean_name_def using name_split_re_mono by (rule regex_test_infix [rotated])
  with p ab show False by simp
qed

lemma html_of_includes:
  "str_includes (html_of cleanName logo) (''  <p>Hi '' @ cleanName @ '',</p>'')"
  "str_includes (html_of cleanName logo) (''  '' @ logo_block logo)"
  unfolding html_of_def str_includes_iff by (rule js_join_infix, simp)+

lemma logo_block_image:
  \<open>logo \<noteq> [] \<Longrightarrow> str_includes (logo_block logo) (''<img src="'' @ logo)\<close>
proof -
  let ?R = \<open>''" alt="Otomeyt AI" style="max-width: 200px; height: auto;" />''\<close>
  assume "logo \<noteq> []"
  then obtain a b where ab: \<open>logo_block logo = a @ (''    <img src="'' @ logo @ ?R) @ b\<close>
    unfolding logo_block_def by (metis js_join_infix list.set_intros(1) list.set_intros(2))
  have \<open>\<exists>u v. logo_block logo = u @ (''    '' @ (''<img src="'' @ logo) @ ?R) @ v\<close>
    using ab by (intro exI [of _ a] exI [of _ b]) simp
  then show ?thesis by (rule str_includes_infix_middle)
qed

lemma response_html:
  "rb_html (generate_start_button_issue_response env fs dir n) = html_of (clean_name n) (get_logo env fs dir)"
  "rb_plain (generate_start_button_issue_response env fs dir n) = plain_text_of (clean_name n)"
  by (simp_all add: generate_start_button_issue_response_def Let_def)

lemma generated_body_rich:
  "rb_plain (generate_start_button_issue_response env fs dir n) \<noteq> []"
  "rb_html (generate_start_button_issue_response env fs dir n) \<noteq> []"
  by (simp_all add: response_html plain_text_of_def html_of_def js_join_Cons del: js_join.simps)

text \<open>C15. The cleaned name is in normal form: it contains no white space
  followed by a field label (\<open>Candidate\<close>, \<open>Email\<close>, \<open>Phone\<close>,
  \<open>Assessment\<close>, \<open>Subject\<close>, \<open>Issue\<close>, in any case), so the split
  pattern matches nowhere in it, and cleaning it again changes nothing.\<close>

theorem clean_name_normal_form:
  "\<not> regex_test name_split_re (clean_name n) \<and> clean_name (clean_name n) = clean_name n"
proof
  show "\<not> regex_test name_split_re (clean_name n)" by (rule clean_name_no_test)
  then have "split_head name_split_re (clean_name n) = clean_name n" by (rule split_head_id)
  then show "clean_name (clean_name n) = clean_name n" by (simp add: clean_name_def)
qed

text \<open>C18. The reply greets the candidate by the cleaned name: the plain text
  begins with \<open>Hi <name>,\<close> and the HTML holds \<open><p>Hi <name>,</p>\<close>.\<close>

theorem response_greets_clean_name:
  "str_starts_with (''Hi '' @ clean_name n @ '','')
     (rb_plain (generate_start_button_issue_response env fs dir n)) \<and>
   str_includes (rb_html (generate_start_button_issue_response env fs dir n))
     (''<p>Hi '' @ clean_name n @ '',</p>'')"
proof
  show "str_starts_with (''Hi '' @ clean_name n @ '','')
          (rb_plain (generate_start_button_issue_response env fs dir n))"
    by (simp add: response_html plain_text_of_def str_starts_with_iff)
  have "str_includes (''  <p>Hi '' @ clean_name n @ '',</p>'') (''<p>Hi '' @ clean_name n @ '',</p>'')"
    unfolding str_includes_iff by (intro exI [of _ "''  ''"] exI [of _ "[]"]) simp
  with html_of_includes(1) show "str_includes (rb_html (generate_start_button_issue_response env fs dir n))
               (''<p>Hi '' @ clean_name n @ '',</p>'')"
    unfolding response_html by (rule str_includes_trans)
qed

text \<open>C19. The HTML reply always carries the logo image: \<open>getLogo\<close> never
  returns the empty string, so the branch of the template that omits the
  image block is never taken, although the specification foresees it.\<close>

theorem response_always_has_logo_image:
  \<open>str_includes (rb_html (generate_start_button_issue_response env fs dir n))
     (''<img src="'' @ get_logo env fs dir)\<close>
proof -
  have \<open>str_includes (''  '' @ logo_block (get_logo env fs dir)) (''<img src="'' @ get_logo env fs dir)\<close>
  proof (rule str_includes_append_right, rule logo_block_image)
    show "get_logo env fs dir \<noteq> []" by (simp add: get_logo_def Let_def)
  qed
  with html_of_includes(2) show ?thesis unfolding response_html by (rule str_includes_trans)
qed

lemma field_label_re_label:
  assumes "js_lower lab \<in> set [''candidate'', ''email'', ''phone'', ''assessment'', ''subject'', ''issue'']"
  shows "field_label_re (lab @ r) \<noteq> []"
proof -
  let ?L = "[''Candidate'', ''Email'', ''Phone'', ''Assessment'', ''Subject'']"
  have low: "map js_lower (?L @ [''Issue''])
      = [''candidate'', ''email'', ''phone'', ''assessment'', ''subject'', ''issue'']"
    by (simp add: js_lower_def lower_char_Char)
  have "js_lower lab \<in> set (map js_lower (?L @ [''Issue'']))"
    unfolding low by (rule assms)
  then have "js_lower lab \<in> js_lower ` set (?L @ [''Issue''])" by (simp only: set_map)
  then obtain v where vm: "v \<in> set (?L @ [''Issue''])" and lv': "js_lower lab = js_lower v" by (rule imageE)
  have gen: "\<And>xs x. set (xs @ [x]) = set (x # xs)" by simp
  have v: "v \<in> set (''Issue'' # ?L)" using vm unfolding gen [of ?L "''Issue''"] .
  have lv: "js_lower v = js_lower lab" using lv' by (rule sym)
  have "str_starts_with (js_lower v) (js_lower (lab @ r))"
    unfolding lv js_lower_append by (simp add: str_starts_with_iff)
  with v show ?thesis unfolding field_label_re_def lit_alts_ci_nonempty by blast
qed

text \<open>C20. A field label that leaked into the name is cut off with all that
  follows it: whatever the name \<open>n\<close> and the rest \<open>r\<close>, white space followed
  by \<open>Candidate\<close>, \<open>Email\<close>, \<open>Phone\<close>, \<open>Assessment\<close>, \<open>Subject\<close> or
  \<open>Issue\<close> (in any case) after \<open>n\<close> leaves a trimmed prefix of \<open>n\<close>.\<close>

theorem clean_name_leaked_label:
  assumes "js_lower lab \<in> set [''candidate'', ''email'', ''phone'', ''assessment'', ''subject'', ''issue'']"
    and "w \<noteq> []" and "list_all is_js_space w"
  shows "\<exists>p. prefix p n \<and> clean_name (n @ w @ lab @ r) = js_trim p"
proof -
  have "length w \<le> length (takeWhile is_js_space (w @ lab @ r))"
    using assms(3) by (induction w) auto
  then have "name_split_re (w @ lab @ r) \<noteq> []"
    unfolding name_split_re_def m_seq_rep_nonempty using assms(2) field_label_re_label [OF assms(1)]
    by (intro exI [of _ "length w"]) (simp add: Suc_leI)
  then have "name_split_re (drop (length n) (n @ w @ lab @ r)) \<noteq> []" by simp
  then obtain j where "j \<le> length n" "split_head name_split_re (n @ w @ lab @ r) = take j (n @ w @ lab @ r)"
    using split_head_cut [OF name_split_re_shorter] by blast
  then show ?thesis unfolding clean_name_def by (intro exI [of _ "take j n"]) (simp add: take_is_prefix)
qed

theorem clean_name_leaked_label_witness:
  "\<exists>p. prefix p ''Jane Doe'' \<and> clean_name (''Jane Doe'' @ '' '' @ ''Candidate'' @ '' Email ID: jane@x.com'') = js_trim p"
  by (rule clean_name_leaked_label) (simp_all add: js_lower_def lower_char_Char is_js_space_def)
end
