(* ===== verification/Dispatcher.thy ===== *)
theory Dispatcher
  imports Templates MailMessage
begin

text \<open>
  The dispatcher (\<open>src/reply.js\<close>): \<open>sendReply\<close> builds the raw MIME text of
  a reply (headers, optional \<open>Cc\<close>, either a single plain-text part or a
  \<open>multipart/alternative\<close> body with the plain part first), encodes it as
  base64url and hands it to the Gmail transport; \<open>markAsRead\<close> asks Gmail to
  remove the \<open>UNREAD\<close> label.  The transport and the label service are
  parameters; each operation returns its outcome and the requests it made,
  so that a property can say what reached the outside.  The boundary of a
  multipart message is built from \<open>Date.now()\<close> and
  \<open>Math.random().toString(36)\<close>, which are inputs here.
\<close>

section \<open>Data\<close>

text \<open>The \<open>body\<close> argument: a string, or the object the composer returns.\<close>

datatype mail_body = Text_Body string | Object_Body reply_body

text \<open>The \<open>cc\<close> argument: absent (\<open>null\<close>), a string, or an array.\<close>

datatype cc_arg = Cc_None | Cc_Text string | Cc_Array "string list"

record send_request =
  sr_raw :: string
  sr_thread :: "string option"

text \<open>What \<open>sendReply\<close> and \<open>markAsRead\<close> rethrow: the \<open>TypeError\<close> of
  \<open>plainTextBody.trim()\<close> when the body is an object without both texts, or
  the error of the Gmail call.\<close>

datatype dispatch_error = Body_Type_Error | Transport_Error string

type_synonym transport = "send_request \<Rightarrow> string + string"

type_synonym label_service = "string \<Rightarrow> string option"

section \<open>The message\<close>

fun cc_header :: "cc_arg \<Rightarrow> string list" where
  "cc_header Cc_None = []"
| "cc_header (Cc_Text c) = (if c \<noteq> [] then [''Cc: '' @ c] else [])"
| "cc_header (Cc_Array cs) = [''Cc: '' @ js_join '', '' cs]"

definition mime_boundary :: "nat \<Rightarrow> string \<Rightarrow> string" where
  "mime_boundary now random36 = ''----=_Part_'' @ dec_string now @ ''_'' @ take 9 (drop 2 random36)"

text \<open>The body is HTML mail when it is an object whose two texts are truthy.\<close>

fun html_parts :: "mail_body \<Rightarrow> (string \<times> string) option" where
  "html_parts (Text_Body s) = None"
| "html_parts (Object_Body rb) =
     (if rb_plain rb \<noteq> [] \<and> rb_html rb \<noteq> [] then Some (rb_plain rb, rb_html rb) else None)"

definition build_message ::
  "string \<Rightarrow> string \<Rightarrow> mail_body \<Rightarrow> cc_arg \<Rightarrow> string \<Rightarrow> dispatch_error + string" where
  \<open>build_message to subject body cc boundary =
     (let headers = [''To: '' @ to, ''Subject: '' @ subject] @ cc_header cc in
      case html_parts body of
        Some (plainTextBody, htmlBody) \<Rightarrow>
          Inr (js_join newline (headers @
                 [''MIME-Version: 1.0'',
                  ''Content-Type: multipart/alternative; boundary="'' @ boundary @ ''"'', []])
               @ newline @
               js_join newline
                 [''--'' @ boundary, ''Content-Type: text/plain; charset=utf-8'',
                  ''Content-Transfer-Encoding: 7bit'', [], plainTextBody, [],
                  ''--'' @ boundary, ''Content-Type: text/html; charset=utf-8'',
                  ''Content-Transfer-Encoding: 7bit'', [], htmlBody, [],
                  ''--'' @ boundary @ ''--''])
      | None \<Rightarrow>
          (case body of
             Object_Body _ \<Rightarrow> Inl Body_Type_Error
           | Text_Body plainTextBody \<Rightarrow>
               Inr (js_join newline (headers @ [''Content-Type: text/plain; charset=utf-8'', []])
                    @ newline @ js_trim plainTextBody @ newline)))\<close>

section \<open>Encoding and the Gmail calls\<close>

text \<open>\<open>/=+$/\<close>.\<close>

definition pad_re :: matcher where
  "pad_re = m_seq (m_rep (\<lambda>c. c = CHR ''='') 1) m_end"

text \<open>\<open>Buffer.from(message).toString('base64').replace(/\+/g, '-')
  .replace(/\//g, '_').replace(/=+$/, '')\<close>.\<close>

definition base64url :: "string \<Rightarrow> string" where
  "base64url message =
     replace_first pad_re []
       (replace_all (m_lit ''/'') ''_'' (replace_all (m_lit ''+'') ''-'' (base64_encode (utf8_encode message))))"

definition send_reply ::
  "transport \<Rightarrow> nat \<Rightarrow> string \<Rightarrow> string \<Rightarrow> string \<Rightarrow> mail_body \<Rightarrow> string \<Rightarrow> cc_arg \<Rightarrow>
   (dispatch_error + string) \<times> send_request list" where
  "send_reply gmail now random36 to subject body threadId cc =
     (case build_message to subject body cc (mime_boundary now random36) of
        Inl e \<Rightarrow> (Inl e, [])
      | Inr message \<Rightarrow>
          (let req = \<lparr>sr_raw = base64url message,
                      sr_thread = (if threadId \<noteq> [] then Some threadId else None)\<rparr> in
           (case gmail req of Inl err \<Rightarrow> Inl (Transport_Error err) | Inr msgId \<Rightarrow> Inr msgId, [req])))"

definition mark_as_read :: "label_service \<Rightarrow> string \<Rightarrow> dispatch_error + unit" where
  "mark_as_read modify messageId =
     (case modify messageId of None \<Rightarrow> Inr () | Some err \<Rightarrow> Inl (Transport_Error err))"

section \<open>Lemmas\<close>

lemma pad_re_pad: "\<exists>rs. pad_re (replicate (Suc j) CHR ''='') = [] # rs"
proof -
  have "rev [1..<Suc (Suc j)] = Suc j # rev [1..<Suc j]" by simp
  then show ?thesis by (simp add: pad_re_def m_seq_def m_rep_def m_end_def takeWhile_replicate)
qed

lemma pad_re_other: "c \<noteq> CHR ''='' \<Longrightarrow> pad_re (c # s) = []"
  by (simp add: pad_re_def m_seq_def m_rep_def)

lemma replace_first_pad:
  "CHR ''='' \<notin> set B \<Longrightarrow> replace_first pad_re [] (B @ replicate k CHR ''='') = B"
proof (induction B)
  case Nil
  show ?case
  proof (cases k)
    case 0
    then show ?thesis by (simp add: pad_re_def m_seq_def m_rep_def)
  next
    case (Suc j)
    then obtain rs where "pad_re (replicate k CHR ''='') = [] # rs" using pad_re_pad by blast
    then show ?thesis by (cases k) simp_all
  qed
next
  case (Cons c cs)
  then have "c \<noteq> CHR ''=''" by auto
  with Cons show ?case by (simp add: pad_re_other)
qed

lemma base64url_encode:
  obtains B k where "base64_encode (utf8_encode message) = B @ replicate k CHR ''=''"
    and "CHR ''='' \<notin> set B"
    and "base64url message = map (\<lambda>x. if x = CHR ''/'' then CHR ''_'' else x)
                               (map (\<lambda>x. if x = CHR ''+'' then CHR ''-'' else x) B)"
proof -
  obtain B k where E: "base64_encode (utf8_encode message) = B @ replicate k CHR ''=''" "CHR ''='' \<notin> set B"
    using encode_groups_shape base64_encode_def by metis
  let ?g = "\<lambda>B. map (\<lambda>x. if x = CHR ''/'' then CHR ''_'' else x) (map (\<lambda>x. if x = CHR ''+'' then CHR ''-'' else x) B)"
  have "CHR ''='' \<notin> set (?g B)" using E(2) by auto
  then have "base64url message = ?g B"
    using replace_first_pad [of "?g B" k] by (simp add: base64url_def replace_all_lit_char E(1))
  with E that show ?thesis by blast
qed

lemma base64url_decode: "decode_base64 (base64url message) = message"
proof -
  obtain B k where E: "base64_encode (utf8_encode message) = B @ replicate k CHR ''=''"
    and B: "CHR ''='' \<notin> set B"
    and U: "base64url message = map (\<lambda>x. if x = CHR ''/'' then CHR ''_'' else x)
                               (map (\<lambda>x. if x = CHR ''+'' then CHR ''-'' else x) B)"
    by (rule base64url_encode)
  let ?f1 = "\<lambda>x. if x = CHR ''+'' then CHR ''-'' else x"
  let ?f2 = "\<lambda>x. if x = CHR ''/'' then CHR ''_'' else x"
  have T: "takeWhile (\<lambda>c. c \<noteq> CHR ''='') (map ?f2 (map ?f1 B)) = map ?f2 (map ?f1 B)"
    using B by (auto simp: takeWhile_eq_all_conv)
  have T2: "takeWhile (\<lambda>c. c \<noteq> CHR ''='') (B @ replicate k CHR ''='') = B"
    using B by (cases k) (auto simp: takeWhile_append takeWhile_eq_all_conv)
  have M: "List.map_filter b64_value (map ?f2 (map ?f1 B)) = List.map_filter b64_value B"
    by (simp only: map_filter_b64_value_map b64_value_url_chars)
  have "base64_decode (base64url message) = base64_decode (base64_encode (utf8_encode message))"
    unfolding E U base64_decode_def by (simp only: T T2 M)
  then show ?thesis by (simp add: decode_base64_def base64_decode_encode)
qed

lemma build_message_error: "build_message to subject body cc bnd = Inl e \<Longrightarrow> e = Body_Type_Error"
  by (cases body) (auto simp: build_message_def Let_def split: option.splits if_splits)

lemma build_message_to_line:
  assumes "build_message to subject body cc bnd = Inr msg"
  shows "\<exists>rest. msg = ''To: '' @ to @ newline @ rest"
proof (cases "html_parts body")
  case None
  then obtain s where "body = Text_Body s" "msg = js_join newline ((''To: '' @ to) # (''Subject: '' @ subject) #
      cc_header cc @ [''Content-Type: text/plain; charset=utf-8'', []]) @ newline @ js_trim s @ newline"
    using assms by (cases body) (auto simp: build_message_def Let_def)
  then show ?thesis by (simp add: js_join_Cons del: js_join.simps)
next
  case (Some pq)
  then show ?thesis using assms
    by (cases pq) (auto simp: build_message_def Let_def js_join_Cons del: js_join.simps)
qed

lemma send_reply_request:
  assumes "r \<in> set (snd (send_reply gmail now rnd to subject body tid cc))"
  shows "\<exists>msg. build_message to subject body cc (mime_boundary now rnd) = Inr msg \<and> sr_raw r = base64url msg"
  using assms by (auto simp: send_reply_def Let_def split: sum.splits)

lemma send_reply_outcome:
  "html_parts body \<noteq> None \<Longrightarrow>
   fst (send_reply gmail now r to subject body t cc) =
     (case gmail \<lparr>sr_raw = base64url (projr (build_message to subject body cc (mime_boundary now r))),
                  sr_thread = (if t \<noteq> [] then Some t else None)\<rparr> of
        Inl err \<Rightarrow> Inl (Transport_Error err) | Inr msgId \<Rightarrow> Inr msgId)"
  by (auto simp: send_reply_def build_message_def Let_def del: js_join.simps split: sum.split)

text \<open>C21. \<open>sendReply\<close> is atomic: it submits at most one request; it returns
  a message id exactly when the transport accepted its one request, rethrows the
  transport's error after one request, and fails with the type error of an
  incomplete body object before any request.\<close>

theorem send_reply_atomic:
  "(case send_reply gmail now random36 to subject body threadId cc of
      (Inr msgId, reqs) \<Rightarrow> \<exists>req. reqs = [req] \<and> gmail req = Inr msgId
    | (Inl (Transport_Error e), reqs) \<Rightarrow> \<exists>req. reqs = [req] \<and> gmail req = Inl e
    | (Inl Body_Type_Error, reqs) \<Rightarrow> reqs = [])"
proof (cases "build_message to subject body cc (mime_boundary now random36)")
  case (Inl e)
  then have "e = Body_Type_Error" by (rule build_message_error)
  with Inl show ?thesis by (simp add: send_reply_def)
next
  case (Inr msg)
  then show ?thesis by (simp add: send_reply_def Let_def split: sum.split)
qed

text \<open>C22. What is sent reads back as what was built: the base64url payload of
  the one request, decoded by the extractor's \<open>decodeBase64\<close>, is the MIME text
  \<open>sendReply\<close> built, and the thread id is passed exactly when it is non-empty.\<close>

theorem send_payload_roundtrip:
  assumes "send_reply gmail now random36 to subject body threadId cc = (res, [req])"
  shows "\<exists>msg. build_message to subject body cc (mime_boundary now random36) = Inr msg \<and>
           decode_base64 (sr_raw req) = msg \<and>
           sr_thread req = (if threadId \<noteq> [] then Some threadId else None)"
  using assms by (auto simp: send_reply_def Let_def base64url_decode split: sum.splits)

theorem send_payload_roundtrip_witness:
  "send_reply (\<lambda>r. Inr ''id1'') 5 ''0.zz'' ''a@b.c'' ''S'' (Text_Body '' hi '') ''t1'' Cc_None =
     (Inr ''id1'', [\<lparr>sr_raw = base64url (js_join newline [''To: a@b.c'', ''Subject: S'',
         ''Content-Type: text/plain; charset=utf-8'', []] @ newline @ ''hi'' @ newline), sr_thread = Some ''t1''\<rparr>]) \<and>
   decode_base64 (base64url (js_join newline [''To: a@b.c'', ''Subject: S'',
         ''Content-Type: text/plain; charset=utf-8'', []] @ newline @ ''hi'' @ newline)) =
     js_join newline [''To: a@b.c'', ''Subject: S'', ''Content-Type: text/plain; charset=utf-8'', []] @ newline @ ''hi'' @ newline"
  using send_payload_roundtrip [of "\<lambda>r. Inr ''id1''" 5 "''0.zz''" "''a@b.c''" "''S''" "Text_Body '' hi ''" "''t1''" Cc_None
      "Inr ''id1''" "\<lparr>sr_raw = base64url (js_join newline [''To: a@b.c'', ''Subject: S'',
         ''Content-Type: text/plain; charset=utf-8'', []] @ newline @ ''hi'' @ newline), sr_thread = Some ''t1''\<rparr>"]
  by (simp add: send_reply_def build_message_def js_trim_def is_js_space_def Let_def del: js_join.simps)

text \<open>C23. The payload is URL-safe: no \<open>+\<close>, no \<open>/\<close> and no \<open>=\<close> in it.\<close>

theorem base64url_alphabet:
  "CHR ''+'' \<notin> set (base64url message) \<and> CHR ''/'' \<notin> set (base64url message) \<and>
   CHR ''='' \<notin> set (base64url message)"
proof -
  obtain B k where "CHR ''='' \<notin> set B"
    and U: "base64url message = map (\<lambda>x. if x = CHR ''/'' then CHR ''_'' else x)
                               (map (\<lambda>x. if x = CHR ''+'' then CHR ''-'' else x) B)"
    by (rule base64url_encode)
  then show ?thesis by auto
qed

text \<open>C24. A composed reply (both texts non-empty) is sent as
  \<open>multipart/alternative\<close> with the boundary in its content type, the plain text
  before the HTML.\<close>

theorem send_rich_plain_first:
  assumes "rb_plain rb \<noteq> []" "rb_html rb \<noteq> []"
  shows \<open>\<exists>msg. build_message to subject (Object_Body rb) cc bnd = Inr msg \<and>
           (\<exists>a b c. msg = a @ rb_plain rb @ b @ rb_html rb @ c) \<and>
           str_includes msg (''Content-Type: multipart/alternative; boundary="'' @ bnd @ ''"'')\<close>
proof -
  let ?ct = \<open>''Content-Type: multipart/alternative; boundary="'' @ bnd @ ''"''\<close>
  let ?H = "[''To: '' @ to, ''Subject: '' @ subject] @ cc_header cc @ [''MIME-Version: 1.0'', ?ct, []]"
  let ?xs = "[''--'' @ bnd, ''Content-Type: text/plain; charset=utf-8'', ''Content-Transfer-Encoding: 7bit'', []]"
  let ?ys = "[[], ''--'' @ bnd, ''Content-Type: text/html; charset=utf-8'', ''Content-Transfer-Encoding: 7bit'', []]"
  let ?zs = "[[], ''--'' @ bnd @ ''--'']"
  have msg: "build_message to subject (Object_Body rb) cc bnd =
             Inr (js_join newline ?H @ newline @ js_join newline (?xs @ rb_plain rb # ?ys @ rb_html rb # ?zs))"
    using assms by (simp add: build_message_def Let_def del: js_join.simps)
  obtain a b c where abc: "js_join newline (?xs @ rb_plain rb # ?ys @ rb_html rb # ?zs) = a @ rb_plain rb @ b @ rb_html rb @ c"
    using js_join_order [of newline ?xs "rb_plain rb" ?ys "rb_html rb" ?zs] by (elim exE)
  have "?ct \<in> set ?H" by simp
  from js_join_infix [OF this] obtain u v where uv: "js_join newline ?H = u @ ?ct @ v" by blast
  show ?thesis
  proof (intro exI conjI)
    show "build_message to subject (Object_Body rb) cc bnd =
          Inr (js_join newline ?H @ newline @ js_join newline (?xs @ rb_plain rb # ?ys @ rb_html rb # ?zs))"
      by (rule msg)
    show "js_join newline ?H @ newline @ js_join newline (?xs @ rb_plain rb # ?ys @ rb_html rb # ?zs) =
          (js_join newline ?H @ newline @ a) @ rb_plain rb @ b @ rb_html rb @ c"
      by (simp only: abc append.assoc)
    show "str_includes (js_join newline ?H @ newline @ js_join newline (?xs @ rb_plain rb # ?ys @ rb_html rb # ?zs)) ?ct"
      unfolding uv str_includes_iff
      by (intro exI [of _ u] exI [of _ "v @ newline @ js_join newline (?xs @ rb_plain rb # ?ys @ rb_html rb # ?zs)"])
         (simp only: append.assoc)
  qed
qed

theorem send_rich_plain_first_witness:
  \<open>\<exists>msg. build_message ''a@b.c'' ''S'' (Object_Body \<lparr>rb_plain = ''P'', rb_html = ''H''\<rparr>) Cc_None ''B'' = Inr msg \<and>
     (\<exists>a b c. msg = a @ ''P'' @ b @ ''H'' @ c) \<and>
     str_includes msg (''Content-Type: multipart/alternative; boundary="'' @ ''B'' @ ''"'')\<close>
  using send_rich_plain_first [of "\<lparr>rb_plain = ''P'', rb_html = ''H''\<rparr>" "''a@b.c''" "''S''" Cc_None "''B''"]
  by simp

text \<open>C25. A body object without both texts is not sent: \<open>plainTextBody\<close> is then
  the object itself and \<open>trim\<close> throws a \<open>TypeError\<close> before any request.\<close>

theorem send_object_without_text_fails:
  assumes "rb_plain rb = [] \<or> rb_html rb = []"
  shows "send_reply gmail now random36 to subject (Object_Body rb) threadId cc = (Inl Body_Type_Error, [])"
  using assms by (auto simp: send_reply_def build_message_def Let_def)

theorem send_object_without_text_fails_witness:
  "send_reply (\<lambda>r. Inr ''x'') 0 [] ''a@b.c'' ''S'' (Object_Body \<lparr>rb_plain = [], rb_html = ''H''\<rparr>) [] Cc_None =
     (Inl Body_Type_Error, [])"
  by (rule send_object_without_text_fails) simp

end
