(* ===== verification/Orchestrator.thy ===== *)
theory Orchestrator
  imports Classifier Extractor Dispatcher
begin

text \<open>
  The orchestrator: \<open>readUnreadMessages\<close> (\<open>src/gmailReader.js\<close>) and the
  per-message loop of \<open>processEmails\<close> (\<open>src/server.js\<close>,
  \<open>src/main-continuous.js\<close>) and \<open>main\<close> (\<open>src/main.js\<close>), which chain
  extraction, classification, composition, sending and marking read.  The Gmail
  mailbox is an explicit state: the ids that carry the \<open>UNREAD\<close> label, in the
  order \<open>messages.list\<close> returns them, and the full message that
  \<open>messages.get\<close> returns for an id (\<open>None\<close> when the call fails).  Every other
  collaborator (authorisation and listing, the chat-completion service, the
  logo, the transport, the label service, the clock) is a field of
  \<open>services\<close>.  A run returns the new mailbox and the trace of the steps it took
  per message, so that order and isolation can be stated.  Repeated runs,
  interleaved with the arrival of new mail, form the inductive relation
  \<open>reachable\<close>.
\<close>

section \<open>State and collaborators\<close>

record mailbox =
  mb_unread :: "string list"
  mb_store :: "string \<Rightarrow> gmail_message option"

record services =
  sv_list_ok :: bool
  sv_classifier :: classifier_env
  sv_llm :: "llm_request \<Rightarrow> llm_outcome"
  sv_logo :: logo_env
  sv_fs :: file_system
  sv_dir :: string
  sv_clock :: "string \<Rightarrow> nat \<times> string"
  sv_transport :: transport
  sv_modify :: label_service

text \<open>The steps of one message that reach the outside or decide its fate.\<close>

datatype event =
    Ev_Extract_Failed string
  | Ev_Classified string verdict
  | Ev_Sent string
  | Ev_Send_Failed string
  | Ev_Marked string
  | Ev_Mark_Failed string

section \<open>Reading the inbox\<close>

text \<open>\<open>messages.list({q: 'is:unread', maxResults: 50})\<close>, then
  \<open>messages.get\<close> for each id; a failed fetch gives \<open>null\<close> and is filtered
  out.  A failure of the listing (or of \<open>authorize\<close> before it) is \<open>None\<close>:
  it is rethrown to the caller.\<close>

definition max_results :: nat where
  "max_results = 50"

definition read_unread_messages :: "services \<Rightarrow> mailbox \<Rightarrow> gmail_message list option" where
  "read_unread_messages sv mb =
     (if sv_list_ok sv then Some (List.map_filter (mb_store mb) (take max_results (mb_unread mb)))
      else None)"

section \<open>One message\<close>

definition support_cc :: "string list" where
  "support_cc = [''candidatesupport@otomeyt.ai'', ''hello@otomeyt.ai'']"

text \<open>\<open>await markAsRead(auth, message.id)\<close>: on success the label is gone.\<close>

definition mark_step ::
  "services \<Rightarrow> mailbox \<Rightarrow> string \<Rightarrow> event list \<Rightarrow> bool \<Rightarrow> mailbox \<times> event list \<times> bool \<times> bool" where
  "mark_step sv mb msgId evs replied =
     (case mark_as_read (sv_modify sv) msgId of
        Inl _ \<Rightarrow> (mb, evs @ [Ev_Mark_Failed msgId], replied, False)
      | Inr _ \<Rightarrow> (mb\<lparr>mb_unread := filter (\<lambda>i. i \<noteq> msgId) (mb_unread mb)\<rparr>, evs @ [Ev_Marked msgId], replied, True))"

text \<open>The body of the \<open>for\<close> loop with its \<open>catch\<close>: the new mailbox, the
  trace, whether \<open>replied++\<close> and whether \<open>processed++\<close> were reached.\<close>

definition process_message ::
  "services \<Rightarrow> mailbox \<Rightarrow> gmail_message \<Rightarrow> mailbox \<times> event list \<times> bool \<times> bool" where
  "process_message sv mb message =
     (case extract_info message of
        Inl _ \<Rightarrow> (mb, [Ev_Extract_Failed (msg_id message)], False, False)
      | Inr extracted \<Rightarrow>
          (let classification = fst (classify_issue (sv_classifier sv) (sv_llm sv)
                   (tk_subject extracted) (tk_issue extracted) (tk_body extracted));
               evs = [Ev_Classified (msg_id message) classification]
           in if classification = YES then
                (let replyBody = generate_start_button_issue_response (sv_logo sv) (sv_fs sv) (sv_dir sv)
                                   (tk_candidate_name extracted);
                     replySubject = get_start_button_issue_subject;
                     (now, random36) = sv_clock sv (msg_id message)
                 in case fst (send_reply (sv_transport sv) now random36 (tk_candidate_email extracted)
                                replySubject (Object_Body replyBody) (tk_thread_id extracted)
                                (Cc_Array support_cc)) of
                      Inl _ \<Rightarrow> (mb, evs @ [Ev_Send_Failed (msg_id message)], False, False)
                    | Inr _ \<Rightarrow> mark_step sv mb (msg_id message) (evs @ [Ev_Sent (msg_id message)]) True)
              else mark_step sv mb (msg_id message) evs False))"

section \<open>The batch\<close>

text \<open>The \<open>for\<close> loop over the batch with the counters of \<open>server.js\<close>.\<close>

fun process_batch :: "services \<Rightarrow> mailbox \<Rightarrow> gmail_message list \<Rightarrow> mailbox \<times> event list \<times> nat \<times> nat" where
  "process_batch sv mb [] = (mb, [], 0, 0)"
| "process_batch sv mb (message # rest) =
     (let (mb1, evs1, r, p) = process_message sv mb message;
          (mb2, evs2, replied, processed) = process_batch sv mb1 rest
      in (mb2, evs1 @ evs2, (if r then Suc replied else replied), (if p then Suc processed else processed)))"

text \<open>What \<open>processEmails\<close> of \<open>server.js\<close> returns: the two counters, or
  zero counters with the error of a failed listing.\<close>

datatype batch_report = Report nat nat | Report_Error

definition server_process_emails :: "services \<Rightarrow> mailbox \<Rightarrow> mailbox \<times> event list \<times> batch_report" where
  "server_process_emails sv mb =
     (case read_unread_messages sv mb of
        None \<Rightarrow> (mb, [], Report_Error)
      | Some unreadMessages \<Rightarrow>
          (if unreadMessages = [] then (mb, [], Report 0 0)
           else (let (mb', evs, replied, processed) = process_batch sv mb unreadMessages
                 in (mb', evs, Report processed replied))))"

text \<open>\<open>processEmails\<close> of \<open>main-continuous.js\<close>: the same loop without
  counters; a failed listing is logged.\<close>

definition continuous_process_emails :: "services \<Rightarrow> mailbox \<Rightarrow> mailbox \<times> event list" where
  "continuous_process_emails sv mb =
     (case read_unread_messages sv mb of
        None \<Rightarrow> (mb, [])
      | Some unreadMessages \<Rightarrow>
          (if unreadMessages = [] then (mb, [])
           else (let (mb', evs, _) = process_batch sv mb unreadMessages in (mb', evs))))"

text \<open>\<open>main\<close> of \<open>main.js\<close>: one run; a failed listing ends the process with
  exit code 1.\<close>

datatype exit_code = Exit_Ok | Exit_Fatal

definition main_run :: "services \<Rightarrow> mailbox \<Rightarrow> mailbox \<times> event list \<times> exit_code" where
  "main_run sv mb =
     (case read_unread_messages sv mb of
        None \<Rightarrow> (mb, [], Exit_Fatal)
      | Some unreadMessages \<Rightarrow>
          (if unreadMessages = [] then (mb, [], Exit_Ok)
           else (let (mb', evs, _) = process_batch sv mb unreadMessages in (mb', evs, Exit_Ok))))"

section \<open>Traces\<close>

text \<open>The six ways one message can go through the loop body: its trace, and
  whether \<open>replied++\<close> and \<open>processed++\<close> are reached.\<close>

definition message_blocks :: "string \<Rightarrow> (event list \<times> bool \<times> bool) list" where
  "message_blocks i =
     [([Ev_Extract_Failed i], False, False),
      ([Ev_Classified i NO, Ev_Marked i], False, True),
      ([Ev_Classified i NO, Ev_Mark_Failed i], False, False),
      ([Ev_Classified i YES, Ev_Send_Failed i], False, False),
      ([Ev_Classified i YES, Ev_Sent i, Ev_Marked i], True, True),
      ([Ev_Classified i YES, Ev_Sent i, Ev_Mark_Failed i], True, False)]"

text \<open>The message an event is about, and the events the counters count.\<close>

fun ev_id :: "event \<Rightarrow> string" where
  "ev_id (Ev_Extract_Failed i) = i"
| "ev_id (Ev_Classified i v) = i"
| "ev_id (Ev_Sent i) = i"
| "ev_id (Ev_Send_Failed i) = i"
| "ev_id (Ev_Marked i) = i"
| "ev_id (Ev_Mark_Failed i) = i"

fun ev_sent :: "event \<Rightarrow> bool" where
  "ev_sent (Ev_Sent i) = True"
| "ev_sent _ = False"

fun ev_marked :: "event \<Rightarrow> bool" where
  "ev_marked (Ev_Marked i) = True"
| "ev_marked _ = False"

section \<open>Repeated runs\<close>

text \<open>The timer of \<open>setInterval\<close> runs \<open>processEmails\<close> again and again, each
  time with whatever the collaborators answer then; between runs new mail
  arrives under a fresh id.  The second component is the trace of all runs.\<close>

inductive reachable :: "mailbox \<Rightarrow> event list \<Rightarrow> bool" where
  start: "reachable \<lparr>mb_unread = [], mb_store = Map.empty\<rparr> []"
| deliver: "reachable mb tr \<Longrightarrow> mb_store mb i = None \<Longrightarrow> msg_id m = i \<Longrightarrow>
    reachable \<lparr>mb_unread = i # mb_unread mb, mb_store = (mb_store mb)(i \<mapsto> m)\<rparr> tr"
| run: "reachable mb tr \<Longrightarrow> continuous_process_emails sv mb = (mb', tr') \<Longrightarrow> reachable mb' (tr @ tr')"

section \<open>Reference views of the mailbox\<close>

text \<open>The invariant of reachable mailboxes: the store is keyed by message id,
  the unread ids are stored and distinct, every event is about a stored
  message, and a message marked read is not unread and has no later event.\<close>

definition mailbox_inv :: "mailbox \<Rightarrow> event list \<Rightarrow> bool" where
  "mailbox_inv mb tr \<longleftrightarrow>
     (\<forall>j m. mb_store mb j = Some m \<longrightarrow> msg_id m = j) \<and>
     set (mb_unread mb) \<subseteq> dom (mb_store mb) \<and> distinct (mb_unread mb) \<and>
     (\<forall>e \<in> set tr. ev_id e \<in> dom (mb_store mb)) \<and>
     (\<forall>xs i ys. tr = xs @ Ev_Marked i # ys \<longrightarrow> i \<notin> set (mb_unread mb) \<and> (\<forall>e \<in> set ys. ev_id e \<noteq> i))"

text \<open>The abstract view of a run: the set of unread ids.  The contract a run
  promises is stated per message, from what the collaborators answer for that
  message alone: a message is handled when it extracts, is classified NO or
  its reply (the standard subject and body, support in copy) is accepted, and
  the label service accepts the mark; a run removes from the unread set the
  handled messages among the first fifty unread ones.\<close>

definition abs_unread :: "mailbox \<Rightarrow> string set" where
  "abs_unread mb = set (mb_unread mb)"

definition reply_accepted :: "services \<Rightarrow> gmail_message \<Rightarrow> ticket \<Rightarrow> bool" where
  "reply_accepted sv message t =
     (case sv_clock sv (msg_id message) of (now, random36) \<Rightarrow>
        (case fst (send_reply (sv_transport sv) now random36 (tk_candidate_email t) get_start_button_issue_subject
                (Object_Body (generate_start_button_issue_response (sv_logo sv) (sv_fs sv) (sv_dir sv)
                   (tk_candidate_name t)))
                (tk_thread_id t) (Cc_Array support_cc)) of
           Inl _ \<Rightarrow> False
         | Inr _ \<Rightarrow> True))"

definition handled :: "services \<Rightarrow> gmail_message \<Rightarrow> bool" where
  "handled sv message =
     (case extract_info message of
        Inl _ \<Rightarrow> False
      | Inr t \<Rightarrow>
          (fst (classify_issue (sv_classifier sv) (sv_llm sv) (tk_subject t) (tk_issue t) (tk_body t)) = NO
           \<or> reply_accepted sv message t) \<and> sv_modify sv (msg_id message) = None)"

definition handled_ids :: "services \<Rightarrow> mailbox \<Rightarrow> string set" where
  "handled_ids sv mb =
     (if sv_list_ok sv then
        set (filter (\<lambda>j. case mb_store mb j of None \<Rightarrow> False | Some m \<Rightarrow> handled sv m)
               (take max_results (mb_unread mb)))
      else {})"

definition mark_read_abs :: "services \<Rightarrow> mailbox \<Rightarrow> string set \<Rightarrow> string set" where
  "mark_read_abs sv mb unread = unread - handled_ids sv mb"

text \<open>Collaborators and mailboxes for the concrete runs below: no API key
  (classification by the prefilter), no logo, a fixed clock; the transport and
  the label service are chosen per example.  The mailbox holds one unread
  message, \<open>m1\<close>, which asks about the start button.\<close>

abbreviation demo_services :: "transport \<Rightarrow> label_service \<Rightarrow> services" where
  "demo_services send mark \<equiv>
     \<lparr>sv_list_ok = True,
      sv_classifier = \<lparr>openai_api_key = [], cursor_api_key = [], gpt_model = ''gpt-4o-mini''\<rparr>,
      sv_llm = (\<lambda>_. Llm_Error), sv_logo = \<lparr>env_logo_base64 = [], env_logo_url = []\<rparr>,
      sv_fs = (\<lambda>_. Absent), sv_dir = ''/app/src'', sv_clock = (\<lambda>_. (0, ''0.abc'')),
      sv_transport = send, sv_modify = mark\<rparr>"

abbreviation demo_message :: "string \<Rightarrow> string \<Rightarrow> gmail_message" where
  "demo_message i subj \<equiv>
     \<lparr>msg_id = i, msg_thread = ''t'',
      msg_payload = Some (Part ''text/plain'' [\<lparr>hdr_name = ''Subject'', hdr_value = subj\<rparr>] [] [])\<rparr>"

abbreviation demo_mailbox :: mailbox where
  "demo_mailbox \<equiv> \<lparr>mb_unread = [''m1''], mb_store = Map.empty(''m1'' \<mapsto> demo_message ''m1'' ''start button'')\<rparr>"

text \<open>A message whose \<open>From\<close> header carries a display name and an address, and its ticket.\<close>

abbreviation jane_message :: gmail_message where
  "jane_message \<equiv> \<lparr>msg_id = ''m1'', msg_thread = ''t1'',
     msg_payload = Some (Part ''text/plain'' [\<lparr>hdr_name = ''From'', hdr_value = ''Jane Doe <jane@x.com>''\<rparr>] [] [])\<rparr>"

abbreviation jane_ticket :: ticket where
  "jane_ticket \<equiv> \<lparr>tk_candidate_name = ''Jane Doe'', tk_candidate_email = ''jane@x.com'', tk_sender_email = ''jane@x.com'',
            tk_subject = [], tk_body = [], tk_issue = [], tk_message_id = ''m1'', tk_thread_id = ''t1''\<rparr>"

section \<open>Lemmas\<close>

lemma mark_step_shape:
  "mark_step sv mb i evs r =
     (if sv_modify sv i = None then (mb\<lparr>mb_unread := filter (\<lambda>j. j \<noteq> i) (mb_unread mb)\<rparr>, evs @ [Ev_Marked i], r, True)
      else (mb, evs @ [Ev_Mark_Failed i], r, False))"
  by (simp add: mark_step_def mark_as_read_def split: option.split)

lemma verdict_not_YES [simp]: "v \<noteq> YES \<longleftrightarrow> v = NO"
  by (cases v) simp_all

lemma process_message_shape:
  "\<exists>evs r p. process_message sv mb m =
     ((if p then mb\<lparr>mb_unread := filter (\<lambda>j. j \<noteq> msg_id m) (mb_unread mb)\<rparr> else mb), evs, r, p) \<and>
     (evs, r, p) \<in> set (message_blocks (msg_id m))"
  by (auto simp: process_message_def mark_step_shape message_blocks_def Let_def
           split: sum.split prod.split if_split)

lemma process_message_indep: "snd (process_message sv mb m) = snd (process_message sv mb' m)"
  by (simp add: process_message_def mark_step_shape Let_def split: sum.split prod.split)


lemma process_message_result:
  obtains evs r p where
    "process_message sv mb m = ((if p then mb\<lparr>mb_unread := filter (\<lambda>j. j \<noteq> msg_id m) (mb_unread mb)\<rparr> else mb), evs, r, p)"
    "(evs, r, p) \<in> set (message_blocks (msg_id m))"
  using process_message_shape by blast

lemma message_blocks_props:
  assumes "(evs, r, p) \<in> set (message_blocks i)"
  shows "\<forall>e \<in> set evs. ev_id e = i"
    and "length (filter ev_sent evs) = (if r then 1 else 0)"
    and "length (filter ev_marked evs) = (if p then 1 else 0)"
    and "Ev_Marked i \<in> set evs \<longleftrightarrow> p"
  using assms by (auto simp: message_blocks_def)

lemma process_batch_events:
  "fst (snd (process_batch sv mb ms)) = concat (map (\<lambda>m. fst (snd (process_message sv mb m))) ms)"
proof (induction ms arbitrary: mb)
  case Nil
  then show ?case by simp
next
  case (Cons m ms)
  obtain mb1 evs1 r p where pm: "process_message sv mb m = (mb1, evs1, r, p)"
    by (cases "process_message sv mb m") auto
  obtain mb2 evs2 r2 p2 where rest: "process_batch sv mb1 ms = (mb2, evs2, r2, p2)"
    by (cases "process_batch sv mb1 ms") auto
  have "map (\<lambda>m'. fst (snd (process_message sv mb1 m'))) ms = map (\<lambda>m'. fst (snd (process_message sv mb m'))) ms"
    using process_message_indep [of sv mb1 _ mb] by simp
  with Cons.IH [of mb1] rest have "evs2 = concat (map (\<lambda>m'. fst (snd (process_message sv mb m'))) ms)" by simp
  with pm rest show ?case by simp
qed

lemma process_batch_counters:
  assumes "process_batch sv mb ms = (mb', evs, replied, processed)"
  shows "replied = length (filter ev_sent evs) \<and> processed = length (filter ev_marked evs)"
  using assms
proof (induction ms arbitrary: mb mb' evs replied processed)
  case Nil
  then show ?case by simp
next
  case (Cons m ms)
  obtain evs1 r p where pm: "process_message sv mb m = ((if p then mb\<lparr>mb_unread := filter (\<lambda>j. j \<noteq> msg_id m) (mb_unread mb)\<rparr> else mb), evs1, r, p)"
    and blk: "(evs1, r, p) \<in> set (message_blocks (msg_id m))" by (rule process_message_result)
  obtain mb2 evs2 r2 p2 where rest: "process_batch sv (if p then mb\<lparr>mb_unread := filter (\<lambda>j. j \<noteq> msg_id m) (mb_unread mb)\<rparr> else mb) ms = (mb2, evs2, r2, p2)"
    by (cases "process_batch sv (if p then mb\<lparr>mb_unread := filter (\<lambda>j. j \<noteq> msg_id m) (mb_unread mb)\<rparr> else mb) ms") auto
  from Cons.prems pm rest have e: "evs = evs1 @ evs2" "replied = (if r then Suc r2 else r2)" "processed = (if p then Suc p2 else p2)"
    by auto
  from Cons.IH [OF rest] message_blocks_props(2,3) [OF blk] e show ?case by simp
qed

lemma process_batch_mailbox:
  "mb_store (fst (process_batch sv mb ms)) = mb_store mb \<and>
   mb_unread (fst (process_batch sv mb ms)) =
     filter (\<lambda>j. Ev_Marked j \<notin> set (fst (snd (process_batch sv mb ms)))) (mb_unread mb)"
proof (induction ms arbitrary: mb)
  case Nil
  then show ?case by simp
next
  case (Cons m ms)
  obtain evs1 r p where pm: "process_message sv mb m = ((if p then mb\<lparr>mb_unread := filter (\<lambda>j. j \<noteq> msg_id m) (mb_unread mb)\<rparr> else mb), evs1, r, p)"
    and blk: "(evs1, r, p) \<in> set (message_blocks (msg_id m))" by (rule process_message_result)
  let ?mb1 = "if p then mb\<lparr>mb_unread := filter (\<lambda>j. j \<noteq> msg_id m) (mb_unread mb)\<rparr> else mb"
  obtain mb2 evs2 r2 p2 where rest: "process_batch sv ?mb1 ms = (mb2, evs2, r2, p2)"
    by (cases "process_batch sv ?mb1 ms") auto
  have ids: "\<forall>e \<in> set evs1. ev_id e = msg_id m" and mk: "Ev_Marked (msg_id m) \<in> set evs1 \<longleftrightarrow> p"
    using message_blocks_props [OF blk] by auto
  have mk2: "Ev_Marked j \<in> set evs1 \<longleftrightarrow> j = msg_id m \<and> p" for j
    using ids mk by force
  from Cons.IH [of ?mb1] rest have "mb_store mb2 = mb_store mb"
    and "mb_unread mb2 = filter (\<lambda>j. Ev_Marked j \<notin> set evs2) (mb_unread ?mb1)" by auto
  with pm rest mk2 show ?case by (auto simp: filter_filter intro: filter_cong)
qed


lemma message_blocks_marked_last:
  assumes "(evs, r, p) \<in> set (message_blocks k)" and "evs = xs @ Ev_Marked j # us"
  shows "j = k \<and> us = []"
  using assms by (auto simp: message_blocks_def Cons_eq_append_conv append_eq_Cons_conv)

lemma block_events:
  obtains r p where "(fst (snd (process_message sv mb m)), r, p) \<in> set (message_blocks (msg_id m))"
proof -
  obtain evs r p where "process_message sv mb m = ((if p then mb\<lparr>mb_unread := filter (\<lambda>j. j \<noteq> msg_id m) (mb_unread mb)\<rparr> else mb), evs, r, p)"
    "(evs, r, p) \<in> set (message_blocks (msg_id m))" by (rule process_message_result)
  then show ?thesis using that by simp
qed

lemma blocks_marked_last:
  assumes "distinct (map msg_id ms)"
    and "concat (map (\<lambda>m. fst (snd (process_message sv mb m))) ms) = xs @ Ev_Marked i # ys"
  shows "\<forall>e \<in> set ys. ev_id e \<noteq> i"
  using assms
proof (induction ms arbitrary: xs)
  case Nil
  then show ?case by simp
next
  case (Cons m ms)
  let ?b = "fst (snd (process_message sv mb m))"
  let ?rest = "concat (map (\<lambda>m. fst (snd (process_message sv mb m))) ms)"
  obtain r p where blk: "(?b, r, p) \<in> set (message_blocks (msg_id m))" by (rule block_events)
  from Cons.prems(2) have "?b @ ?rest = xs @ Ev_Marked i # ys" by simp
  then obtain us where "(?b = xs @ us \<and> us @ ?rest = Ev_Marked i # ys) \<or> (?b @ us = xs \<and> ?rest = us @ Ev_Marked i # ys)"
    by (auto simp: append_eq_append_conv2)
  then show ?case
  proof (elim disjE conjE)
    assume b: "?b = xs @ us" and r: "us @ ?rest = Ev_Marked i # ys"
    show ?thesis
    proof (cases us)
      case Nil
      with r have "?rest = [] @ Ev_Marked i # ys" by simp
      with Cons.IH Cons.prems(1) show ?thesis by simp
    next
      case (Cons u us')
      with r have u: "u = Ev_Marked i" "ys = us' @ ?rest" by auto
      with b Cons have "i = msg_id m \<and> us' = []" using message_blocks_marked_last [OF blk] by simp
      moreover have "\<forall>e \<in> set ?rest. ev_id e \<noteq> msg_id m"
      proof
        fix e assume "e \<in> set ?rest"
        then obtain m' where m': "m' \<in> set ms" "e \<in> set (fst (snd (process_message sv mb m')))" by auto
        obtain r' p' where "(fst (snd (process_message sv mb m')), r', p') \<in> set (message_blocks (msg_id m'))"
          by (rule block_events)
        then have "ev_id e = msg_id m'" using message_blocks_props(1) m'(2) by blast
        moreover have "msg_id m' \<noteq> msg_id m" using Cons.prems(1) m'(1) by (auto simp: image_iff)
        ultimately show "ev_id e \<noteq> msg_id m" by simp
      qed
      ultimately show ?thesis using u by simp
    qed
  next
    assume "?b @ us = xs" and r: "?rest = us @ Ev_Marked i # ys"
    with Cons.IH Cons.prems(1) show ?thesis by simp
  qed
qed


lemma map_filter_store_ids:
  assumes "\<forall>j m. store j = Some m \<longrightarrow> msg_id m = j" and "set xs \<subseteq> dom store"
  shows "map msg_id (List.map_filter store xs) = xs"
  using assms(2) by (induction xs) (auto simp: map_filter_simps assms(1) split: option.split)

lemma run_effect:
  assumes store: "\<forall>j m. mb_store mb j = Some m \<longrightarrow> msg_id m = j"
    and dom: "set (mb_unread mb) \<subseteq> dom (mb_store mb)"
    and dist: "distinct (mb_unread mb)"
    and run: "continuous_process_emails sv mb = (mb', tr')"
  shows "mb_store mb' = mb_store mb"
    and "mb_unread mb' = filter (\<lambda>j. Ev_Marked j \<notin> set tr') (mb_unread mb)"
    and "\<forall>e \<in> set tr'. ev_id e \<in> set (mb_unread mb)"
    and "\<forall>xs i ys. tr' = xs @ Ev_Marked i # ys \<longrightarrow> (\<forall>e \<in> set ys. ev_id e \<noteq> i)"
proof -
  have "(mb' = mb \<and> tr' = []) \<or>
        (\<exists>ms. read_unread_messages sv mb = Some ms \<and> mb' = fst (process_batch sv mb ms) \<and>
              tr' = fst (snd (process_batch sv mb ms)))"
  proof (cases "read_unread_messages sv mb")
    case None
    then show ?thesis using run by (simp add: continuous_process_emails_def)
  next
    case (Some ms)
    then show ?thesis using run
      by (cases "ms = []") (auto simp: continuous_process_emails_def split: prod.splits)
  qed
  then have "(mb_store mb' = mb_store mb \<and> mb_unread mb' = filter (\<lambda>j. Ev_Marked j \<notin> set tr') (mb_unread mb) \<and>
              (\<forall>e \<in> set tr'. ev_id e \<in> set (mb_unread mb)) \<and>
              (\<forall>xs i ys. tr' = xs @ Ev_Marked i # ys \<longrightarrow> (\<forall>e \<in> set ys. ev_id e \<noteq> i)))"
  proof (elim disjE exE conjE)
    assume "mb' = mb" "tr' = []"
    then show ?thesis by simp
  next
    fix ms assume rd: "read_unread_messages sv mb = Some ms"
      and mb': "mb' = fst (process_batch sv mb ms)" and tr': "tr' = fst (snd (process_batch sv mb ms))"
    have "set (take max_results (mb_unread mb)) \<subseteq> dom (mb_store mb)"
      using set_take_subset dom by (rule order_trans)
    then have ids: "map msg_id ms = take max_results (mb_unread mb)"
      using rd map_filter_store_ids [OF store, of "take max_results (mb_unread mb)"]
      by (auto simp: read_unread_messages_def split: if_splits)
    then have d: "distinct (map msg_id ms)" using dist by (simp add: distinct_take)
    have ev: "tr' = concat (map (\<lambda>m. fst (snd (process_message sv mb m))) ms)"
      using tr' process_batch_events by simp
    have "\<forall>e \<in> set tr'. ev_id e \<in> set (mb_unread mb)"
    proof
      fix e assume "e \<in> set tr'"
      then obtain m where m: "m \<in> set ms" "e \<in> set (fst (snd (process_message sv mb m)))" using ev by auto
      obtain r p where "(fst (snd (process_message sv mb m)), r, p) \<in> set (message_blocks (msg_id m))"
        by (rule block_events)
      then have "ev_id e = msg_id m" using message_blocks_props(1) m(2) by blast
      moreover have "msg_id m \<in> set (take max_results (mb_unread mb))" using m(1) ids [symmetric] by force
      ultimately show "ev_id e \<in> set (mb_unread mb)" using set_take_subset by fastforce
    qed
    moreover have "\<forall>xs i ys. tr' = xs @ Ev_Marked i # ys \<longrightarrow> (\<forall>e \<in> set ys. ev_id e \<noteq> i)"
    proof (intro allI impI)
      fix xs i ys assume "tr' = xs @ Ev_Marked i # ys"
      then show "\<forall>e \<in> set ys. ev_id e \<noteq> i" using blocks_marked_last [OF d, of sv mb xs i ys] ev by simp
    qed
    ultimately show ?thesis using process_batch_mailbox [of sv mb ms] mb' tr' by simp
  qed
  then show "mb_store mb' = mb_store mb"
    and "mb_unread mb' = filter (\<lambda>j. Ev_Marked j \<notin> set tr') (mb_unread mb)"
    and "\<forall>e \<in> set tr'. ev_id e \<in> set (mb_unread mb)"
    and "\<forall>xs i ys. tr' = xs @ Ev_Marked i # ys \<longrightarrow> (\<forall>e \<in> set ys. ev_id e \<noteq> i)" by auto
qed

lemma reachable_inv: "reachable mb tr \<Longrightarrow> mailbox_inv mb tr"
proof (induction rule: reachable.induct)
  case start
  then show ?case by (simp add: mailbox_inv_def)
next
  case (deliver mb tr i m)
  then have old: "\<forall>e \<in> set tr. ev_id e \<in> dom (mb_store mb)" and nu: "i \<notin> set (mb_unread mb)"
    by (auto simp: mailbox_inv_def)
  have "\<forall>xs j ys. tr = xs @ Ev_Marked j # ys \<longrightarrow> j \<noteq> i"
  proof (intro allI impI)
    fix xs j ys assume "tr = xs @ Ev_Marked j # ys"
    then have "j \<in> dom (mb_store mb)" using old by force
    with deliver.hyps(2) show "j \<noteq> i" by auto
  qed
  with deliver nu show ?case by (auto simp: mailbox_inv_def)
next
  case (run mb tr sv mb' tr')
  from run.IH have store: "\<forall>j m. mb_store mb j = Some m \<longrightarrow> msg_id m = j"
    and dom: "set (mb_unread mb) \<subseteq> dom (mb_store mb)" and dist: "distinct (mb_unread mb)"
    and old: "\<forall>e \<in> set tr. ev_id e \<in> dom (mb_store mb)"
    and mk: "\<forall>xs i ys. tr = xs @ Ev_Marked i # ys \<longrightarrow> i \<notin> set (mb_unread mb) \<and> (\<forall>e \<in> set ys. ev_id e \<noteq> i)"
    by (auto simp: mailbox_inv_def)
  note eff = run_effect [OF store dom dist run.hyps(2)]
  have sub: "set (mb_unread mb') \<subseteq> set (mb_unread mb)" using eff(2) by auto
  have new: "\<forall>xs i ys. tr @ tr' = xs @ Ev_Marked i # ys \<longrightarrow> i \<notin> set (mb_unread mb') \<and> (\<forall>e \<in> set ys. ev_id e \<noteq> i)"
  proof (intro allI impI)
    fix xs i ys assume split: "tr @ tr' = xs @ Ev_Marked i # ys"
    then obtain us where "(tr = xs @ us \<and> us @ tr' = Ev_Marked i # ys) \<or> (tr @ us = xs \<and> tr' = us @ Ev_Marked i # ys)"
      by (auto simp: append_eq_append_conv2)
    then show "i \<notin> set (mb_unread mb') \<and> (\<forall>e \<in> set ys. ev_id e \<noteq> i)"
    proof (elim disjE conjE)
      assume a: "tr = xs @ us" and b: "us @ tr' = Ev_Marked i # ys"
      show ?thesis
      proof (cases us)
        case Nil
        with b have t: "tr' = [] @ Ev_Marked i # ys" by simp
        then show ?thesis using eff(2) eff(4) [rule_format, OF t] by auto
      next
        case (Cons u us')
        with a b have tr: "tr = xs @ Ev_Marked i # us'" and ys: "ys = us' @ tr'" by auto
        from mk tr have "i \<notin> set (mb_unread mb)" "\<forall>e \<in> set us'. ev_id e \<noteq> i" by blast+
        with eff(3) sub ys show ?thesis by auto
      qed
    next
      assume t: "tr' = us @ Ev_Marked i # ys"
      then show ?thesis using eff(2) eff(4) [rule_format, OF t] by auto
    qed
  qed
  have "\<forall>e \<in> set (tr @ tr'). ev_id e \<in> dom (mb_store mb')" using old eff(1,3) dom by auto
  with store dom dist eff(1) sub new show ?case
    by (auto simp: mailbox_inv_def distinct_filter eff(2))
qed

lemma extract_info_payload: "msg_payload m \<noteq> None \<Longrightarrow> \<exists>t. extract_info m = Inr t"
  by (cases "msg_payload m") (auto simp: extract_info_def Let_def)

lemma process_message_marks:
  assumes "sv_modify sv (msg_id m) = None" and "\<forall>req e. sv_transport sv req \<noteq> Inl e"
    and "msg_payload m \<noteq> None"
  shows "Ev_Marked (msg_id m) \<in> set (fst (snd (process_message sv mb m)))"
proof -
  obtain t where t: "extract_info m = Inr t" using extract_info_payload [OF assms(3)] by blast
  show ?thesis using assms(1,2)
    by (simp add: process_message_def t send_reply_outcome generated_body_rich mark_step_shape Let_def
        split: sum.split prod.split del: js_join.simps)
qed

lemma takeWhile_line:
  "single_line a \<Longrightarrow> takeWhile (\<lambda>c. \<not> is_newline c) (a @ newline @ rest) = a"
  by (simp add: takeWhile_append2 list_ex_iff is_newline_def)

lemma set_map_filter_iff: "y \<in> set (List.map_filter f xs) \<longleftrightarrow> (\<exists>x \<in> set xs. f x = Some y)"
  by (induction xs) (auto split: option.split)

lemma marked_iff_handled:
  "Ev_Marked (msg_id m) \<in> set (fst (snd (process_message sv mb m))) \<longleftrightarrow> handled sv m"
  by (auto simp: process_message_def handled_def reply_accepted_def mark_step_shape Let_def
      split: sum.split prod.split del: js_join.simps)

lemma run_marked_ids:
  assumes store: "\<forall>j m. mb_store mb j = Some m \<longrightarrow> msg_id m = j"
    and run: "continuous_process_emails sv mb = (mb', tr')"
  shows "Ev_Marked j \<in> set tr' \<longleftrightarrow> j \<in> handled_ids sv mb"
proof (cases "read_unread_messages sv mb")
  case None
  then have "tr' = []" and "\<not> sv_list_ok sv"
    using run by (simp_all add: continuous_process_emails_def read_unread_messages_def split: if_splits)
  then show ?thesis by (simp add: handled_ids_def)
next
  case (Some ms)
  then have ok: "sv_list_ok sv" and ms: "ms = List.map_filter (mb_store mb) (take max_results (mb_unread mb))"
    by (simp_all add: read_unread_messages_def split: if_splits)
  have tr': "tr' = concat (map (\<lambda>m. fst (snd (process_message sv mb m))) ms)"
  proof (cases "ms = []")
    case True
    then show ?thesis using run Some by (simp add: continuous_process_emails_def)
  next
    case False
    obtain a b c where pb: "process_batch sv mb ms = (a, b, c)" by (cases "process_batch sv mb ms") auto
    then have "tr' = b" using run Some False by (simp add: continuous_process_emails_def)
    with pb process_batch_events [of sv mb ms] show ?thesis by simp
  qed
  have ev: "Ev_Marked j \<in> set (fst (snd (process_message sv mb m))) \<longleftrightarrow> msg_id m = j \<and> handled sv m" for m
  proof
    assume j: "Ev_Marked j \<in> set (fst (snd (process_message sv mb m)))"
    obtain r p where "(fst (snd (process_message sv mb m)), r, p) \<in> set (message_blocks (msg_id m))"
      by (rule block_events)
    then have "msg_id m = j" using message_blocks_props(1) j by fastforce
    with j show "msg_id m = j \<and> handled sv m" using marked_iff_handled by blast
  next
    assume "msg_id m = j \<and> handled sv m"
    then show "Ev_Marked j \<in> set (fst (snd (process_message sv mb m)))" using marked_iff_handled by blast
  qed
  have "Ev_Marked j \<in> set tr' \<longleftrightarrow> (\<exists>m \<in> set ms. msg_id m = j \<and> handled sv m)"
    unfolding tr' using ev by auto
  also have "\<dots> \<longleftrightarrow> (\<exists>k \<in> set (take max_results (mb_unread mb)). \<exists>m. mb_store mb k = Some m \<and> k = j \<and> handled sv m)"
  proof
    assume "\<exists>m \<in> set ms. msg_id m = j \<and> handled sv m"
    then obtain m where mm: "m \<in> set ms" and m: "msg_id m = j" "handled sv m" by blast
    from mm obtain k where k: "k \<in> set (take max_results (mb_unread mb))" "mb_store mb k = Some m"
      unfolding ms set_map_filter_iff by blast
    from k(2) store m(1) have "k = j" by blast
    with k m show "\<exists>k \<in> set (take max_results (mb_unread mb)). \<exists>m. mb_store mb k = Some m \<and> k = j \<and> handled sv m"
      by blast
  next
    assume "\<exists>k \<in> set (take max_results (mb_unread mb)). \<exists>m. mb_store mb k = Some m \<and> k = j \<and> handled sv m"
    then obtain k m where k: "k \<in> set (take max_results (mb_unread mb))" "mb_store mb k = Some m"
      and m: "k = j" "handled sv m" by blast
    from k have "m \<in> set ms" unfolding ms set_map_filter_iff by blast
    moreover from k(2) store m(1) have "msg_id m = j" by blast
    ultimately show "\<exists>m \<in> set ms. msg_id m = j \<and> handled sv m" using m(2) by blast
  qed
  also have "\<dots> \<longleftrightarrow> j \<in> handled_ids sv mb"
    using ok by (auto simp: handled_ids_def split: option.splits)
  finally show ?thesis .
qed

lemma demo_extract_yes: "extract_info (demo_message ''m1'' ''start button'') =
   Inr \<lparr>tk_candidate_name = ''Candidate'', tk_candidate_email = [], tk_sender_email = [], tk_subject = ''start button'',
        tk_body = [], tk_issue = [], tk_message_id = ''m1'', tk_thread_id = ''t''\<rparr>"
  by code_simp

lemma demo_classify_yes: "fst (classify_issue \<lparr>openai_api_key = [], cursor_api_key = [], gpt_model = ''gpt-4o-mini''\<rparr> llm
   ''start button'' [] []) = YES"
  by code_simp

lemma demo_yes_ok:
  "process_message (demo_services (\<lambda>_. Inr ''r'') mark) mb (demo_message ''m1'' ''start button'') =
     mark_step (demo_services (\<lambda>_. Inr ''r'') mark) mb ''m1'' [Ev_Classified ''m1'' YES, Ev_Sent ''m1''] True"
  by (simp add: process_message_def demo_extract_yes demo_classify_yes send_reply_outcome generated_body_rich Let_def del: js_join.simps)

lemma demo_yes_fail:
  "process_message (demo_services (\<lambda>_. Inl ''down'') mark) mb (demo_message ''m1'' ''start button'') =
     (mb, [Ev_Classified ''m1'' YES, Ev_Send_Failed ''m1''], False, False)"
  by (simp add: process_message_def demo_extract_yes demo_classify_yes send_reply_outcome generated_body_rich Let_def del: js_join.simps)

lemma demo_run_mark_fails:
  "continuous_process_emails (demo_services (\<lambda>_. Inr ''r'') (\<lambda>_. Some ''e'')) demo_mailbox =
     (demo_mailbox, [Ev_Classified ''m1'' YES, Ev_Sent ''m1'', Ev_Mark_Failed ''m1''])"
  by (simp add: continuous_process_emails_def read_unread_messages_def max_results_def map_filter_simps
      demo_yes_ok mark_step_shape)

lemma demo_run_ok:
  "continuous_process_emails (demo_services (\<lambda>_. Inr ''r'') (\<lambda>_. None)) demo_mailbox =
     (demo_mailbox\<lparr>mb_unread := []\<rparr>, [Ev_Classified ''m1'' YES, Ev_Sent ''m1'', Ev_Marked ''m1''])"
  by (simp add: continuous_process_emails_def read_unread_messages_def max_results_def demo_yes_ok mark_step_shape)

lemma demo_server_run:
  "server_process_emails (demo_services (\<lambda>_. Inr ''r'') (\<lambda>_. Some ''e'')) demo_mailbox =
     (demo_mailbox, [Ev_Classified ''m1'' YES, Ev_Sent ''m1'', Ev_Mark_Failed ''m1''], Report 0 1)"
  by (simp add: server_process_emails_def read_unread_messages_def max_results_def demo_yes_ok mark_step_shape)

lemma demo_reachable: "reachable demo_mailbox []"
  using reachable.deliver [OF reachable.start, of "''m1''" "demo_message ''m1'' ''start button''"] by simp

lemma demo_reachable_run:
  "reachable (demo_mailbox\<lparr>mb_unread := []\<rparr>) [Ev_Classified ''m1'' YES, Ev_Sent ''m1'', Ev_Marked ''m1'']"
  using reachable.run [OF demo_reachable demo_run_ok] by simp

text \<open>C26. Isolation of messages: the trace of a run is the concatenation, in batch order, of the traces each fetched message produces when processed alone, from any mailbox; no message influences the steps of another.\<close>

theorem run_isolation:
  assumes "read_unread_messages sv mb = Some ms" and "continuous_process_emails sv mb = (mb', tr)"
  shows "tr = concat (map (\<lambda>m. fst (snd (process_message sv mb0 m))) ms)"
proof (cases "ms = []")
  case True
  with assms show ?thesis by (simp add: continuous_process_emails_def)
next
  case False
  obtain a b c d where pb: "process_batch sv mb ms = (a, b, c, d)" by (cases "process_batch sv mb ms") auto
  with assms False have "tr = b" by (simp add: continuous_process_emails_def Let_def)
  with pb have "tr = concat (map (\<lambda>m. fst (snd (process_message sv mb m))) ms)"
    using process_batch_events [of sv mb ms] by simp
  then show ?thesis using process_message_indep [of sv mb _ mb0] by simp
qed

theorem run_isolation_witness:
  "[Ev_Classified ''m1'' YES, Ev_Sent ''m1'', Ev_Mark_Failed ''m1''] =
     concat (map (\<lambda>m. fst (snd (process_message (demo_services (\<lambda>_. Inr ''r'') (\<lambda>_. Some ''e'')) \<lparr>mb_unread = [], mb_store = Map.empty\<rparr> m)))
       [demo_message ''m1'' ''start button''])"
  by (rule run_isolation [OF _ demo_run_mark_fails])
     (simp add: read_unread_messages_def max_results_def)

text \<open>C27. The steps of one message come in the order of the code: extraction, classification, for YES the send, and the attempt to mark read only after a successful send; these are the six possible traces.\<close>

theorem message_step_order: "snd (process_message sv mb m) \<in> set (message_blocks (msg_id m))"
proof -
  obtain evs r p where "process_message sv mb m = ((if p then mb\<lparr>mb_unread := filter (\<lambda>j. j \<noteq> msg_id m) (mb_unread mb)\<rparr> else mb), evs, r, p)"
    "(evs, r, p) \<in> set (message_blocks (msg_id m))" by (rule process_message_result)
  then show ?thesis by simp
qed

text \<open>C28. When the send fails, markAsRead is not attempted: the message stays unread and neither counter moves, although the specification asks for a mark-read attempt even after a failed send.\<close>

theorem send_failure_leaves_unread:
  assumes "process_message sv mb m = (mb', evs, r, p)" and "Ev_Send_Failed (msg_id m) \<in> set evs"
  shows "mb' = mb \<and> Ev_Marked (msg_id m) \<notin> set evs \<and> Ev_Mark_Failed (msg_id m) \<notin> set evs \<and> \<not> r \<and> \<not> p"
proof -
  obtain evs' r' p' where pm: "process_message sv mb m = ((if p' then mb\<lparr>mb_unread := filter (\<lambda>j. j \<noteq> msg_id m) (mb_unread mb)\<rparr> else mb), evs', r', p')"
    and blk: "(evs', r', p') \<in> set (message_blocks (msg_id m))" by (rule process_message_result)
  with assms show ?thesis by (auto simp: message_blocks_def)
qed

theorem send_failure_leaves_unread_witness:
  "process_message (demo_services (\<lambda>_. Inl ''down'') (\<lambda>_. None)) demo_mailbox (demo_message ''m1'' ''start button'') =
     (demo_mailbox, [Ev_Classified ''m1'' YES, Ev_Send_Failed ''m1''], False, False) \<and>
   Ev_Marked ''m1'' \<notin> set [Ev_Classified ''m1'' YES, Ev_Send_Failed ''m1'']"
  using send_failure_leaves_unread [OF demo_yes_fail] by (simp add: demo_yes_fail)

text \<open>C29. Over any sequence of runs and arrivals, a message marked read is no longer unread and no later event concerns it.\<close>

theorem marked_never_processed_again:
  assumes "reachable mb tr" and "tr = xs @ Ev_Marked i # ys"
  shows "i \<notin> set (mb_unread mb) \<and> (\<forall>e \<in> set ys. ev_id e \<noteq> i)"
  using reachable_inv [OF assms(1)] assms(2) by (simp add: mailbox_inv_def)

theorem marked_never_processed_again_witness:
  "reachable (demo_mailbox\<lparr>mb_unread := []\<rparr>) ([Ev_Classified ''m1'' YES, Ev_Sent ''m1''] @ Ev_Marked ''m1'' # []) \<and>
   ''m1'' \<notin> set (mb_unread (demo_mailbox\<lparr>mb_unread := []\<rparr>))"
  using marked_never_processed_again [of "demo_mailbox\<lparr>mb_unread := []\<rparr>" _ "[Ev_Classified ''m1'' YES, Ev_Sent ''m1'']" "''m1''" "[]"]
    demo_reachable_run by simp

text \<open>C30. A duplicate reply is reachable: when marking read fails after a successful send, the next run answers the same message again.\<close>

theorem duplicate_reply_reachable:
  "\<exists>mb tr. reachable mb tr \<and> length (filter (\<lambda>e. e = Ev_Sent ''m1'') tr) = 2"
proof -
  have "reachable demo_mailbox []"
    using reachable.deliver [OF reachable.start, of "''m1''" "demo_message ''m1'' ''start button''"] by simp
  then have r1: "reachable demo_mailbox [Ev_Classified ''m1'' YES, Ev_Sent ''m1'', Ev_Mark_Failed ''m1'']"
    using reachable.run [OF _ demo_run_mark_fails] by fastforce
  then have "reachable demo_mailbox ([Ev_Classified ''m1'' YES, Ev_Sent ''m1'', Ev_Mark_Failed ''m1''] @
                                     [Ev_Classified ''m1'' YES, Ev_Sent ''m1'', Ev_Mark_Failed ''m1''])"
    by (rule reachable.run [OF _ demo_run_mark_fails])
  then show ?thesis by (intro exI conjI) (assumption, simp)
qed

text \<open>C31. When listing, sending and marking succeed, one run marks read every message of the first 50 unread ones that has a payload.\<close>

theorem run_marks_fetched_messages:
  assumes "reachable mb tr"
    and "sv_list_ok sv" "\<forall>j. sv_modify sv j = None" "\<forall>req e. sv_transport sv req \<noteq> Inl e"
    and "continuous_process_emails sv mb = (mb', tr')"
    and "j \<in> set (take max_results (mb_unread mb))" "mb_store mb j = Some m" "msg_payload m \<noteq> None"
  shows "j \<notin> set (mb_unread mb')"
proof -
  have inv: "mailbox_inv mb tr" using assms(1) by (rule reachable_inv)
  then have store: "\<forall>j m. mb_store mb j = Some m \<longrightarrow> msg_id m = j"
    and dom: "set (mb_unread mb) \<subseteq> dom (mb_store mb)" and dist: "distinct (mb_unread mb)"
    by (auto simp: mailbox_inv_def)
  let ?ms = "List.map_filter (mb_store mb) (take max_results (mb_unread mb))"
  have m: "m \<in> set ?ms" using assms(6,7) set_map_filter_iff by fast
  have id: "msg_id m = j" using store assms(7) by blast
  have "Ev_Marked j \<in> set (fst (snd (process_message sv mb m)))"
    using process_message_marks [of sv m mb] assms(3,4,8) id by simp
  moreover have "tr' = fst (snd (process_batch sv mb ?ms))"
  proof -
    have ne: "?ms \<noteq> []" using m by auto
    obtain a b c d where pb: "process_batch sv mb ?ms = (a, b, c, d)" by (cases "process_batch sv mb ?ms") auto
    then have "tr' = b" using assms(2,5) ne
      by (simp add: continuous_process_emails_def read_unread_messages_def Let_def)
    with pb show ?thesis by simp
  qed
  ultimately have "Ev_Marked j \<in> set tr'" using m process_batch_events by fastforce
  then show ?thesis using run_effect(2) [OF store dom dist assms(5)] by simp
qed

theorem run_marks_fetched_messages_witness:
  "''m1'' \<notin> set (mb_unread (demo_mailbox\<lparr>mb_unread := []\<rparr>))"
  by (rule run_marks_fetched_messages [OF demo_reachable _ _ _ demo_run_ok,
        where j = "''m1''" and m = "demo_message ''m1'' ''start button''"])
     (simp_all add: max_results_def)

text \<open>C32. A run refines the abstract contract of a batch: the set of unread
  ids loses exactly the handled messages among the first fifty unread ones,
  each decided from its own extraction, classification, reply and mark; the
  store is kept and the unread list stays free of duplicates.\<close>

theorem run_refines_mark_read:
  assumes "reachable mb tr" and "continuous_process_emails sv mb = (mb', tr')"
  shows "abs_unread mb' = mark_read_abs sv mb (abs_unread mb) \<and> mb_store mb' = mb_store mb \<and>
         distinct (mb_unread mb')"
proof -
  have "mailbox_inv mb tr" using assms(1) by (rule reachable_inv)
  then have store: "\<forall>j m. mb_store mb j = Some m \<longrightarrow> msg_id m = j"
    and dom: "set (mb_unread mb) \<subseteq> dom (mb_store mb)" and dist: "distinct (mb_unread mb)"
    by (auto simp: mailbox_inv_def)
  note eff = run_effect [OF store dom dist assms(2)]
  show ?thesis
    using eff(1,2) dist run_marked_ids [OF store assms(2)]
    by (auto simp: abs_unread_def mark_read_abs_def)
qed

theorem run_refines_mark_read_witness:
  "abs_unread (demo_mailbox\<lparr>mb_unread := []\<rparr>) =
     mark_read_abs (demo_services (\<lambda>_. Inr ''r'') (\<lambda>_. None)) demo_mailbox (abs_unread demo_mailbox)"
  using run_refines_mark_read [OF demo_reachable demo_run_ok] by simp

text \<open>C33. The counters returned by processEmails of server.js count the successful sends and the successful marks of the run.\<close>

theorem server_counters_count_events:
  assumes "server_process_emails sv mb = (mb', evs, Report processed replied)"
  shows "replied = length (filter ev_sent evs) \<and> processed = length (filter ev_marked evs)"
proof -
  show ?thesis
  proof (cases "read_unread_messages sv mb")
    case None
    with assms show ?thesis by (simp add: server_process_emails_def)
  next
    case (Some ms)
    show ?thesis
    proof (cases "ms = []")
      case True
      with Some assms show ?thesis by (simp add: server_process_emails_def)
    next
      case False
      obtain a b c d where pb: "process_batch sv mb ms = (a, b, c, d)" by (cases "process_batch sv mb ms") auto
      with Some False assms have "a = mb'" "b = evs" "c = replied" "d = processed"
        by (simp_all add: server_process_emails_def Let_def)
      with pb show ?thesis using process_batch_counters by blast
    qed
  qed
qed

theorem server_counters_count_events_witness:
  "1 = length (filter ev_sent [Ev_Classified ''m1'' YES, Ev_Sent ''m1'', Ev_Mark_Failed ''m1'']) \<and>
   0 = length (filter ev_marked [Ev_Classified ''m1'' YES, Ev_Sent ''m1'', Ev_Mark_Failed ''m1''])"
  by (rule server_counters_count_events [OF demo_server_run])

text \<open>C34. The replied counter of server.js can exceed the processed counter: replied is incremented before markAsRead, processed after it.\<close>

theorem server_replied_exceeds_processed:
  "\<exists>sv mb mb' evs processed replied.
     server_process_emails sv mb = (mb', evs, Report processed replied) \<and> processed < replied"
  by (intro exI conjI, rule demo_server_run) simp

text \<open>C35. readUnreadMessages returns at most 50 messages.\<close>

theorem read_batch_bound:
  "read_unread_messages sv mb = Some ms \<Longrightarrow> length ms \<le> 50"
proof -
  assume "read_unread_messages sv mb = Some ms"
  then have "ms = List.map_filter (mb_store mb) (take max_results (mb_unread mb))"
    by (simp add: read_unread_messages_def split: if_splits)
  moreover have "length (List.map_filter f xs) \<le> length xs" for f :: "string \<Rightarrow> gmail_message option" and xs
    by (induction xs) (auto split: option.split)
  ultimately have "length ms \<le> length (take max_results (mb_unread mb))" by (simp only:)
  also have "\<dots> \<le> 50" by (simp add: max_results_def)
  finally show "length ms \<le> 50" .
qed

theorem read_batch_bound_witness:
  "read_unread_messages (demo_services (\<lambda>_. Inr ''r'') (\<lambda>_. None)) demo_mailbox = Some [demo_message ''m1'' ''start button''] \<and>
   length [demo_message ''m1'' ''start button''] \<le> 50"
  using read_batch_bound [of "demo_services (\<lambda>_. Inr ''r'') (\<lambda>_. None)" demo_mailbox]
  by (simp add: read_unread_messages_def max_results_def)

text \<open>C36. A failure of authorisation or listing aborts the run before any message is touched: main.js exits with a fatal status, server.js reports the error, main-continuous.js logs it.\<close>

theorem list_failure_aborts_run:
  assumes "\<not> sv_list_ok sv"
  shows "continuous_process_emails sv mb = (mb, []) \<and> server_process_emails sv mb = (mb, [], Report_Error) \<and>
         main_run sv mb = (mb, [], Exit_Fatal)"
  using assms by (simp add: continuous_process_emails_def server_process_emails_def main_run_def read_unread_messages_def)

theorem list_failure_aborts_run_witness:
  "main_run ((demo_services (\<lambda>_. Inr ''r'') (\<lambda>_. None))\<lparr>sv_list_ok := False\<rparr>) demo_mailbox = (demo_mailbox, [], Exit_Fatal)"
  using list_failure_aborts_run [of "(demo_services (\<lambda>_. Inr ''r'') (\<lambda>_. None))\<lparr>sv_list_ok := False\<rparr>" demo_mailbox]
  by simp

text \<open>C40. The \<open>To:\<close> header of every reply the orchestrator sends is intact:
  whatever the subject and body, the MIME text of every request that reaches
  the transport, decoded, begins with a first line that is exactly
  \<open>To: \<close> followed by the candidate e-mail extracted from the message, so no
  content of the incoming mail can add a header to the reply.\<close>

theorem reply_to_header_intact:
  assumes "extract_info message = Inr t"
    and "r \<in> set (snd (send_reply gmail now rnd (tk_candidate_email t) get_start_button_issue_subject body
                        threadId (Cc_Array support_cc)))"
  shows "takeWhile (\<lambda>c. \<not> is_newline c) (decode_base64 (sr_raw r)) = ''To: '' @ tk_candidate_email t"
proof -
  obtain msg where b: "build_message (tk_candidate_email t) get_start_button_issue_subject body
      (Cc_Array support_cc) (mime_boundary now rnd) = Inr msg" and r: "sr_raw r = base64url msg"
    using send_reply_request [OF assms(2)] by blast
  obtain rest where m: "msg = ''To: '' @ tk_candidate_email t @ newline @ rest"
    using build_message_to_line [OF b] by blast
  have "single_line (''To: '' @ tk_candidate_email t)"
    using extract_email_single_line [OF assms(1)] by (simp add: is_newline_def)
  then show ?thesis unfolding r base64url_decode m
    using takeWhile_line [of "''To: '' @ tk_candidate_email t" rest] by simp
qed

theorem reply_to_header_intact_witness:
  "takeWhile (\<lambda>c. \<not> is_newline c)
     (decode_base64 (sr_raw (hd (snd (send_reply (\<lambda>req. Inr ''id'') 0 ''0.abc'' ''jane@x.com''
        get_start_button_issue_subject (Text_Body ''Hello'') [] (Cc_Array support_cc)))))) = ''To: jane@x.com''"
proof -
  have e: "extract_info jane_message = Inr jane_ticket" by code_simp
  have r: "hd (snd (send_reply (\<lambda>req. Inr ''id'') 0 ''0.abc'' (tk_candidate_email jane_ticket)
        get_start_button_issue_subject (Text_Body ''Hello'') [] (Cc_Array support_cc)))
      \<in> set (snd (send_reply (\<lambda>req. Inr ''id'') 0 ''0.abc'' (tk_candidate_email jane_ticket)
        get_start_button_issue_subject (Text_Body ''Hello'') [] (Cc_Array support_cc)))"
    by (simp add: send_reply_def build_message_def Let_def del: js_join.simps)
  show ?thesis using reply_to_header_intact [OF e r] by simp
qed

end
