(* ===== verification/Authorization.thy ===== *)
theory Authorization
  imports Base64
begin

text \<open>
  The OAuth authorisation of \<open>src/gmailAuth.js\<close>: \<open>authorize\<close> with its two
  sources of credentials (the base64 environment variables \<open>GMAIL_CREDENTIALS\<close>
  and \<open>GMAIL_TOKEN\<close>, or the files \<open>credentials.json\<close> and \<open>token.json\<close>), the
  destructuring of the client secret, the token refresh, the interactive
  \<open>getNewToken\<close> and \<open>storeToken\<close>.  The two files are the state; the OAuth
  library (\<open>isTokenExpiring\<close>, \<open>refreshAccessToken\<close>, \<open>getToken\<close>), the
  console and \<open>JSON.parse\<close>/\<open>JSON.stringify\<close> are parameters.  JSON values are
  a datatype with integer numbers; an unset environment variable is the empty
  string, which JavaScript treats alike.
\<close>

section \<open>JSON values and property access\<close>

datatype json = J_Null | J_Bool bool | J_Num int | J_Str string | J_Arr "json list"
  | J_Obj "(string \<times> json) list"

fun json_truthy :: "json \<Rightarrow> bool" where
  "json_truthy J_Null = False"
| "json_truthy (J_Bool b) = b"
| "json_truthy (J_Num n) = (n \<noteq> 0)"
| "json_truthy (J_Str s) = (s \<noteq> [])"
| "json_truthy (J_Arr xs) = True"
| "json_truthy (J_Obj kvs) = True"

text \<open>A value that may be \<open>undefined\<close> (\<open>None\<close>) in a condition.\<close>

definition opt_truthy :: "json option \<Rightarrow> bool" where
  "opt_truthy v = (case v of None \<Rightarrow> False | Some j \<Rightarrow> json_truthy j)"

text \<open>\<open>v.p\<close> on a value other than \<open>null\<close>: \<open>JSON.parse\<close> keeps the last of
  duplicate keys; values other than objects have none of the names read here.\<close>

fun get_prop :: "json \<Rightarrow> string \<Rightarrow> json option" where
  "get_prop (J_Obj kvs) p = map_of (rev kvs) p"
| "get_prop v p = None"

text \<open>\<open>v[0]\<close> on a value other than \<open>null\<close> and \<open>undefined\<close>.\<close>

fun index0 :: "json \<Rightarrow> json option" where
  "index0 (J_Arr (x # xs)) = Some x"
| "index0 (J_Obj kvs) = map_of (rev kvs) ''0''"
| "index0 (J_Str (c # cs)) = Some (J_Str [c])"
| "index0 v = None"

section \<open>State and collaborators\<close>

record oauth_client =
  oc_client_id :: "json option"
  oc_client_secret :: "json option"
  oc_redirect_uri :: "json option"
  oc_credentials :: "json option"

record auth_env =
  ae_credentials :: string
  ae_token :: string

text \<open>The contents of \<open>credentials.json\<close> and \<open>token.json\<close> (\<open>None\<close>: no file).\<close>

record auth_files =
  af_credentials :: "string option"
  af_token :: "string option"

text \<open>\<open>JSON.parse\<close> (\<open>None\<close>: it throws), \<open>JSON.stringify(_, null, 2)\<close>, the
  library's \<open>isTokenExpiring\<close> on the credentials set, \<open>refreshAccessToken\<close> and
  \<open>getToken\<close> (an error message or the new credentials), the code typed at the
  console, and the outcome of \<open>fs.writeFile\<close> (an error message or success).\<close>

record auth_services =
  as_parse :: "string \<Rightarrow> json option"
  as_stringify :: "json \<Rightarrow> string"
  as_expiring :: "json \<Rightarrow> bool"
  as_refresh :: "json \<Rightarrow> string + json"
  as_code :: string
  as_get_token :: "string \<Rightarrow> string + json"
  as_write :: "string option"

section \<open>Operations\<close>

definition env_parse_msg :: string where
  "env_parse_msg = ''Failed to parse credentials from environment variables. Ensure they are valid base64 JSON.''"

definition refresh_failed_msg :: string where
  "refresh_failed_msg = ''Token refresh failed. Please update GMAIL_TOKEN environment variable with a new token.''"

definition token_invalid_msg :: string where
  "token_invalid_msg = ''GMAIL_TOKEN environment variable is set but invalid. Please provide a valid token.''"

definition env_failure_msg :: string where
  "env_failure_msg = ''Please ensure GMAIL_CREDENTIALS and GMAIL_TOKEN environment variables are set correctly (valid base64 JSON).''"

definition file_failure_msg :: string where
  "file_failure_msg = ''Please ensure credentials.json exists in the project root''"

text \<open>\<open>storeToken\<close>: write the token file, or rethrow the error of the write.\<close>

definition store_token :: "auth_services \<Rightarrow> json \<Rightarrow> auth_files \<Rightarrow> (string + unit) \<times> auth_files" where
  "store_token sv token files =
     (case as_write sv of
        Some err \<Rightarrow> (Inl err, files)
      | None \<Rightarrow> (Inr (), files\<lparr>af_token := Some (as_stringify sv token)\<rparr>))"

text \<open>\<open>JSON.parse(Buffer.from(s, 'base64').toString('utf8'))\<close>.\<close>

definition decode_env_json :: "auth_services \<Rightarrow> string \<Rightarrow> json option" where
  "decode_env_json sv s = as_parse sv (utf8_decode (base64_decode s))"

text \<open>The first part of \<open>authorize\<close>: the credentials and the token data
  (\<open>None\<close> for the initial \<open>null\<close>), from the environment when both variables
  are set, from the files otherwise; a missing token file or one that does
  not parse leaves the token \<open>null\<close>.\<close>

definition load_credentials :: "auth_env \<Rightarrow> auth_services \<Rightarrow> auth_files \<Rightarrow> string + json \<times> json option" where
  "load_credentials env sv files =
     (if ae_credentials env \<noteq> [] \<and> ae_token env \<noteq> [] then
        (case decode_env_json sv (ae_credentials env) of
           None \<Rightarrow> Inl env_parse_msg
         | Some c \<Rightarrow> (case decode_env_json sv (ae_token env) of
             None \<Rightarrow> Inl env_parse_msg
           | Some t \<Rightarrow> Inr (c, Some t)))
      else
        (case af_credentials files of
           None \<Rightarrow> Inl ''ENOENT: no such file or directory, open credentials.json''
         | Some content \<Rightarrow> (case as_parse sv content of
             None \<Rightarrow> Inl ''SyntaxError: Unexpected token in JSON''
           | Some c \<Rightarrow> Inr (c, case af_token files of None \<Rightarrow> None | Some tc \<Rightarrow> as_parse sv tc))))"

text \<open>\<open>const { client_secret, client_id, redirect_uris } = credentials.installed
  || credentials.web;\<close> and \<open>new OAuth2(client_id, client_secret,
  redirect_uris[0])\<close>, with the \<open>TypeError\<close>s of reading through \<open>null\<close> or
  \<open>undefined\<close>.\<close>

definition make_client :: "json \<Rightarrow> string + oauth_client" where
  "make_client credentials =
     (if credentials = J_Null then Inl ''TypeError: Cannot read properties of null''
      else
        (let v = (if opt_truthy (get_prop credentials ''installed'') then get_prop credentials ''installed''
                  else get_prop credentials ''web'')
         in case v of
              None \<Rightarrow> Inl ''TypeError: Cannot destructure undefined''
            | Some J_Null \<Rightarrow> Inl ''TypeError: Cannot destructure null''
            | Some obj \<Rightarrow>
                (case get_prop obj ''redirect_uris'' of
                   None \<Rightarrow> Inl ''TypeError: Cannot read properties of undefined''
                 | Some J_Null \<Rightarrow> Inl ''TypeError: Cannot read properties of null''
                 | Some uris \<Rightarrow>
                     Inr \<lparr>oc_client_id = get_prop obj ''client_id'',
                          oc_client_secret = get_prop obj ''client_secret'',
                          oc_redirect_uri = index0 uris, oc_credentials = None\<rparr>)))"

text \<open>The branch \<open>if (tokenData)\<close>: set the token, refresh it when it is
  expiring and store the refreshed token unless \<open>GMAIL_TOKEN\<close> is set; a
  failure of the refresh or of the store is the refresh error.\<close>

definition use_token ::
  "auth_env \<Rightarrow> auth_services \<Rightarrow> oauth_client \<Rightarrow> json \<Rightarrow> auth_files \<Rightarrow> (string + oauth_client) \<times> auth_files" where
  "use_token env sv client t files =
     (let client1 = client\<lparr>oc_credentials := Some t\<rparr> in
      if \<not> as_expiring sv t then (Inr client1, files)
      else
        (case as_refresh sv t of
           Inl err \<Rightarrow> (Inl refresh_failed_msg, files)
         | Inr newc \<Rightarrow>
             (let client2 = client1\<lparr>oc_credentials := Some newc\<rparr> in
              if ae_token env = [] then
                (case store_token sv newc files of
                   (Inl err, files') \<Rightarrow> (Inl refresh_failed_msg, files')
                 | (Inr u, files') \<Rightarrow> (Inr client2, files'))
              else (Inr client2, files))))"

text \<open>\<open>getNewToken\<close>: the code typed at the console is exchanged for tokens,
  which are set and stored; a failure of either rejects.\<close>

definition get_new_token ::
  "auth_services \<Rightarrow> oauth_client \<Rightarrow> auth_files \<Rightarrow> (string + oauth_client) \<times> auth_files" where
  "get_new_token sv client files =
     (case as_get_token sv (as_code sv) of
        Inl err \<Rightarrow> (Inl (''Error retrieving access token: '' @ err), files)
      | Inr tokens \<Rightarrow>
          (case store_token sv tokens files of
             (Inl err, files') \<Rightarrow> (Inl (''Error retrieving access token: '' @ err), files')
           | (Inr u, files') \<Rightarrow> (Inr (client\<lparr>oc_credentials := Some tokens\<rparr>), files')))"

text \<open>The body of the outer \<open>try\<close> of \<open>authorize\<close>.\<close>

definition authorize_body :: "auth_env \<Rightarrow> auth_services \<Rightarrow> auth_files \<Rightarrow> (string + oauth_client) \<times> auth_files" where
  "authorize_body env sv files =
     (case load_credentials env sv files of
        Inl err \<Rightarrow> (Inl err, files)
      | Inr (credentials, tokenData) \<Rightarrow>
          (case make_client credentials of
             Inl err \<Rightarrow> (Inl err, files)
           | Inr client \<Rightarrow>
               if opt_truthy tokenData then use_token env sv client (the tokenData) files
               else if ae_token env \<noteq> [] then (Inl token_invalid_msg, files)
               else get_new_token sv client files))"

text \<open>\<open>authorize\<close>: the outer \<open>catch\<close> replaces every error by one of two
  messages, chosen by \<open>GMAIL_CREDENTIALS\<close> alone.\<close>

definition authorize :: "auth_env \<Rightarrow> auth_services \<Rightarrow> auth_files \<Rightarrow> (string + oauth_client) \<times> auth_files" where
  "authorize env sv files =
     (case authorize_body env sv files of
        (Inl err, files') \<Rightarrow>
          (Inl (if ae_credentials env \<noteq> [] then env_failure_msg else file_failure_msg), files')
      | (Inr client, files') \<Rightarrow> (Inr client, files'))"

section \<open>A configuration for the examples\<close>

abbreviation demo_cred :: json where
  "demo_cred \<equiv> J_Obj [(''installed'', J_Obj [(''client_id'', J_Str ''id''), (''client_secret'', J_Str ''s''),
     (''redirect_uris'', J_Arr [J_Str ''http://localhost''])])]"

abbreviation demo_token :: json where
  "demo_token \<equiv> J_Obj [(''access_token'', J_Str ''a''), (''refresh_token'', J_Str ''r'')]"

abbreviation demo_auth_services :: "bool \<Rightarrow> (json \<Rightarrow> string + json) \<Rightarrow> auth_services" where
  "demo_auth_services expiring refresh \<equiv>
     \<lparr>as_parse = (\<lambda>s. if s = ''C'' then Some demo_cred else if s = ''T'' then Some demo_token else None),
      as_stringify = (\<lambda>j. ''T''), as_expiring = (\<lambda>j. expiring), as_refresh = refresh, as_code = ''4/code'',
      as_get_token = (\<lambda>code. Inr demo_token), as_write = None\<rparr>"

abbreviation local_env :: auth_env where
  "local_env \<equiv> \<lparr>ae_credentials = [], ae_token = []\<rparr>"

abbreviation demo_client :: oauth_client where
  "demo_client \<equiv> \<lparr>oc_client_id = Some (J_Str ''id''), oc_client_secret = Some (J_Str ''s''),
     oc_redirect_uri = Some (J_Str ''http://localhost''), oc_credentials = Some demo_token\<rparr>"

section \<open>Lemmas\<close>

text \<open>The definitions a concrete call of \<open>authorize\<close> evaluates through.\<close>

lemmas authorize_steps = authorize_def authorize_body_def load_credentials_def make_client_def
  opt_truthy_def use_token_def get_new_token_def store_token_def

lemma store_token_effect:
  "store_token sv t files = (r, files') \<Longrightarrow>
     (files' = files \<and> r = Inl (the (as_write sv))) \<or>
     (r = Inr () \<and> files' = files\<lparr>af_token := Some (as_stringify sv t)\<rparr>)"
  by (auto simp: store_token_def split: option.splits)

lemma use_token_effect:
  "snd (use_token env sv client t files) = files \<or>
   (ae_token env = [] \<and> (\<exists>c u. fst (use_token env sv client t files) = Inr c \<and> oc_credentials c = Some u \<and>
      snd (use_token env sv client t files) = files\<lparr>af_token := Some (as_stringify sv u)\<rparr>))"
  by (auto simp: use_token_def Let_def store_token_def split: sum.splits option.splits)

lemma get_new_token_effect:
  "snd (get_new_token sv client files) = files \<or>
   (\<exists>c u. fst (get_new_token sv client files) = Inr c \<and> oc_credentials c = Some u \<and>
      snd (get_new_token sv client files) = files\<lparr>af_token := Some (as_stringify sv u)\<rparr>)"
  by (auto simp: get_new_token_def store_token_def split: sum.splits option.splits)

lemma authorize_body_effect:
  "snd (authorize_body env sv files) = files \<or>
   (ae_token env = [] \<and> (\<exists>c u. fst (authorize_body env sv files) = Inr c \<and> oc_credentials c = Some u \<and>
      snd (authorize_body env sv files) = files\<lparr>af_token := Some (as_stringify sv u)\<rparr>))"
  using use_token_effect get_new_token_effect
  by (auto simp: authorize_body_def split: sum.splits prod.splits) 

lemma authorize_parts:
  "snd (authorize env sv files) = snd (authorize_body env sv files)"
  "fst (authorize env sv files) = Inr c \<longleftrightarrow> fst (authorize_body env sv files) = Inr c"
  by (auto simp: authorize_def split: prod.splits sum.splits)

lemma load_credentials_console:
  "load_credentials env (sv\<lparr>as_code := code, as_get_token := g\<rparr>) files = load_credentials env sv files"
proof -
  have "as_parse (sv\<lparr>as_code := code, as_get_token := g\<rparr>) = as_parse sv" by simp
  then show ?thesis unfolding load_credentials_def decode_env_json_def by (simp only:)
qed

lemma authorize_Inr:
  "authorize_body env sv files = (Inr c, files') \<Longrightarrow> authorize env sv files = (Inr c, files')"
  by (simp add: authorize_def)

lemma authorize_body_token:
  assumes "load_credentials env sv files = Inr (cred, Some t)" "make_client cred = Inr client"
    "json_truthy t" "\<not> as_expiring sv t"
  shows "authorize_body env sv files = (Inr (client\<lparr>oc_credentials := Some t\<rparr>), files)"
  using assms by (simp add: authorize_body_def use_token_def opt_truthy_def)

lemma load_credentials_local:
  assumes "ae_token env = []"
  shows "load_credentials env sv files =
     (case af_credentials files of
        None \<Rightarrow> Inl ''ENOENT: no such file or directory, open credentials.json''
      | Some content \<Rightarrow> (case as_parse sv content of
          None \<Rightarrow> Inl ''SyntaxError: Unexpected token in JSON''
        | Some c \<Rightarrow> Inr (c, case af_token files of None \<Rightarrow> None | Some tc \<Rightarrow> as_parse sv tc)))"
  using assms by (simp add: load_credentials_def)

lemma load_credentials_token_update:
  assumes "ae_token env = []" "load_credentials env sv files = Inr (cred, td)"
  shows "load_credentials env sv (files\<lparr>af_token := Some s\<rparr>) = Inr (cred, as_parse sv s)"
  using assms by (auto simp: load_credentials_local split: option.splits)

lemma use_token_success:
  assumes "ae_token env = []" "fst (use_token env sv client t0 files) = Inr c"
  shows "\<exists>u. c = client\<lparr>oc_credentials := Some u\<rparr> \<and>
           (u = t0 \<and> \<not> as_expiring sv t0 \<and> snd (use_token env sv client t0 files) = files \<or>
            snd (use_token env sv client t0 files) = files\<lparr>af_token := Some (as_stringify sv u)\<rparr>)"
  using assms by (auto simp: use_token_def Let_def store_token_def split: sum.splits option.splits if_splits)

lemma get_new_token_success:
  assumes "fst (get_new_token sv client files) = Inr c"
  shows "\<exists>u. c = client\<lparr>oc_credentials := Some u\<rparr> \<and>
           snd (get_new_token sv client files) = files\<lparr>af_token := Some (as_stringify sv u)\<rparr>"
  using assms by (auto simp: get_new_token_def store_token_def split: sum.splits option.splits)

lemma authorize_body_success:
  assumes "ae_token env = []" "fst (authorize_body env sv files) = Inr c"
  obtains cred client td u where "load_credentials env sv files = Inr (cred, td)" "make_client cred = Inr client"
    "c = client\<lparr>oc_credentials := Some u\<rparr>"
    "td = Some u \<and> \<not> as_expiring sv u \<and> snd (authorize_body env sv files) = files \<or>
     snd (authorize_body env sv files) = files\<lparr>af_token := Some (as_stringify sv u)\<rparr>"
proof -
  have "\<exists>p. load_credentials env sv files = Inr p"
    using assms(2) by (cases "load_credentials env sv files") (simp_all add: authorize_body_def)
  then obtain cred td where l: "load_credentials env sv files = Inr (cred, td)" by auto
  have "\<exists>client. make_client cred = Inr client"
    using assms(2) l by (cases "make_client cred") (simp_all add: authorize_body_def)
  then obtain client where m: "make_client cred = Inr client" by blast
  show ?thesis
  proof (cases "opt_truthy td")
    case True
    then obtain t0 where td: "td = Some t0" by (cases td) (auto simp: opt_truthy_def)
    have b: "authorize_body env sv files = use_token env sv client t0 files"
      using l m True td by (simp add: authorize_body_def)
    have "fst (use_token env sv client t0 files) = Inr c" using assms(2) b by simp
    from use_token_success [OF assms(1) this] obtain u where cu: "c = client\<lparr>oc_credentials := Some u\<rparr>"
      and d: "u = t0 \<and> \<not> as_expiring sv t0 \<and> snd (use_token env sv client t0 files) = files \<or>
              snd (use_token env sv client t0 files) = files\<lparr>af_token := Some (as_stringify sv u)\<rparr>"
      by blast
    show ?thesis
      by (rule that [OF l m cu]) (use d td b in auto)
  next
    case False
    have b: "authorize_body env sv files = get_new_token sv client files"
      using l m False assms(1) by (simp add: authorize_body_def)
    have "fst (get_new_token sv client files) = Inr c" using assms(2) b by simp
    from get_new_token_success [OF this] obtain u where cu: "c = client\<lparr>oc_credentials := Some u\<rparr>"
      and d: "snd (get_new_token sv client files) = files\<lparr>af_token := Some (as_stringify sv u)\<rparr>"
      by blast
    show ?thesis
      by (rule that [OF l m cu]) (use d b in simp)
  qed
qed

text \<open>C37. Whatever goes wrong inside \<open>authorize\<close>, the caller sees one of two
  messages, chosen by \<open>GMAIL_CREDENTIALS\<close> alone: the specific messages of a
  failed refresh or of an invalid \<open>GMAIL_TOKEN\<close> are replaced by the outer
  \<open>catch\<close>, so a failed refresh in local mode is reported as a missing
  \<open>credentials.json\<close>.\<close>

theorem authorize_error_message:
  assumes "fst (authorize env sv files) = Inl m"
  shows "m = (if ae_credentials env \<noteq> [] then env_failure_msg else file_failure_msg)"
  using assms by (auto simp: authorize_def split: prod.splits sum.splits)

theorem authorize_error_message_witness:
  "fst (authorize_body local_env (demo_auth_services True (\<lambda>j. Inl ''invalid_grant''))
          \<lparr>af_credentials = Some ''C'', af_token = Some ''T''\<rparr>) = Inl refresh_failed_msg \<and>
   fst (authorize local_env (demo_auth_services True (\<lambda>j. Inl ''invalid_grant''))
          \<lparr>af_credentials = Some ''C'', af_token = Some ''T''\<rparr>) = Inl file_failure_msg"
proof -
  let ?sv = "demo_auth_services True (\<lambda>j. Inl ''invalid_grant'')"
  let ?f = "\<lparr>af_credentials = Some ''C'', af_token = Some ''T''\<rparr>"
  have b: "authorize_body local_env ?sv ?f = (Inl refresh_failed_msg, ?f)"
    by (simp add: authorize_steps)
  then have "fst (authorize local_env ?sv ?f) = Inl file_failure_msg"
    by (simp add: authorize_def)
  moreover have "file_failure_msg = (if ae_credentials local_env \<noteq> [] then env_failure_msg else file_failure_msg)"
    by simp
  ultimately show ?thesis using b authorize_error_message [of local_env ?sv ?f file_failure_msg] by simp
qed

text \<open>C38. \<open>authorize\<close> touches the disk at most once, and only to write the
  token the returned client holds into \<open>token.json\<close>; \<open>credentials.json\<close> is
  never written, and nothing is written when \<open>GMAIL_TOKEN\<close> is set, even in
  file mode, where a refreshed token is then lost.\<close>

theorem authorize_disk_effect:
  "snd (authorize env sv files) = files \<or>
   (ae_token env = [] \<and> (\<exists>c u. fst (authorize env sv files) = Inr c \<and> oc_credentials c = Some u \<and>
      snd (authorize env sv files) = files\<lparr>af_token := Some (as_stringify sv u)\<rparr>))"
  using authorize_body_effect [of env sv files] unfolding authorize_parts by blast

text \<open>C39. A token stored by a successful \<open>authorize\<close> in file mode is the
  one the next \<open>authorize\<close> uses: provided the stored token reads back and is
  not expiring, the second call returns the same client and writes nothing,
  whatever the console and the token exchange would answer: it does not
  prompt again.\<close>

theorem token_reused:
  assumes "ae_token env = []" "fst (authorize env sv files) = Inr c" "oc_credentials c = Some t"
    "as_parse sv (as_stringify sv t) = Some t" "json_truthy t" "\<not> as_expiring sv t"
  shows "authorize env (sv\<lparr>as_code := code, as_get_token := g\<rparr>) (snd (authorize env sv files)) =
           (Inr c, snd (authorize env sv files))"
proof -
  have body: "fst (authorize_body env sv files) = Inr c" using assms(2) authorize_parts(2) by blast
  obtain cred client td u where l: "load_credentials env sv files = Inr (cred, td)"
    and m: "make_client cred = Inr client" and c: "c = client\<lparr>oc_credentials := Some u\<rparr>"
    and d: "td = Some u \<and> \<not> as_expiring sv u \<and> snd (authorize_body env sv files) = files \<or>
            snd (authorize_body env sv files) = files\<lparr>af_token := Some (as_stringify sv u)\<rparr>"
    by (rule authorize_body_success [OF assms(1) body])
  have u: "u = t" using c assms(3) by simp
  have "load_credentials env sv (snd (authorize_body env sv files)) = Inr (cred, Some t)"
    using d
  proof
    assume "td = Some u \<and> \<not> as_expiring sv u \<and> snd (authorize_body env sv files) = files"
    then show ?thesis using l u by simp
  next
    assume "snd (authorize_body env sv files) = files\<lparr>af_token := Some (as_stringify sv u)\<rparr>"
    then show ?thesis using load_credentials_token_update [OF assms(1) l] assms(4) u by simp
  qed
  then have "load_credentials env (sv\<lparr>as_code := code, as_get_token := g\<rparr>) (snd (authorize_body env sv files))
      = Inr (cred, Some t)"
    by (simp add: load_credentials_console)
  moreover have "\<not> as_expiring (sv\<lparr>as_code := code, as_get_token := g\<rparr>) t" using assms(6) by simp
  ultimately have "authorize_body env (sv\<lparr>as_code := code, as_get_token := g\<rparr>) (snd (authorize_body env sv files)) =
      (Inr c, snd (authorize_body env sv files))"
    using authorize_body_token [OF _ m assms(5)] c u by simp
  then show ?thesis unfolding authorize_parts(1) by (rule authorize_Inr)
qed

theorem token_reused_witness:
  "authorize local_env (demo_auth_services False Inr) \<lparr>af_credentials = Some ''C'', af_token = None\<rparr> =
     (Inr demo_client, \<lparr>af_credentials = Some ''C'', af_token = Some ''T''\<rparr>) \<and>
   authorize local_env ((demo_auth_services False Inr)\<lparr>as_code := [], as_get_token := (\<lambda>code. Inl ''closed'')\<rparr>)
     \<lparr>af_credentials = Some ''C'', af_token = Some ''T''\<rparr> =
     (Inr demo_client, \<lparr>af_credentials = Some ''C'', af_token = Some ''T''\<rparr>)"
proof -
  let ?sv = "demo_auth_services False Inr"
  have a: "authorize local_env ?sv \<lparr>af_credentials = Some ''C'', af_token = None\<rparr> =
     (Inr demo_client, \<lparr>af_credentials = Some ''C'', af_token = Some ''T''\<rparr>)"
    by (simp add: authorize_steps)
  have "authorize local_env (?sv\<lparr>as_code := [], as_get_token := (\<lambda>code. Inl ''closed'')\<rparr>)
      (snd (authorize local_env ?sv \<lparr>af_credentials = Some ''C'', af_token = None\<rparr>)) =
     (Inr demo_client, snd (authorize local_env ?sv \<lparr>af_credentials = Some ''C'', af_token = None\<rparr>))"
    by (rule token_reused [of local_env ?sv _ demo_client demo_token]) (simp_all add: a)
  then show ?thesis using a by simp
qed

end
