(* ===== verification/Spec2Isabelle.thy ===== *)
theory Spec2Isabelle
  imports Classifier Extractor Templates Dispatcher Orchestrator Authorization
begin

text \<open>
  \<^bold>\<open>A verification library for candidate-support-automation.\<close>

  The program (\<open>src/\<close>) polls a Gmail inbox, and for every unread message
  extracts a ticket (\<open>extractor.js\<close>, \<open>extractInfo\<close>), classifies it as a
  ``start button / test not starting'' issue or not (\<open>classifier.js\<close>,
  \<open>classifyIssue\<close>), and for a YES composes a fixed reply
  (\<open>templates.js\<close>, \<open>generateStartButtonIssueResponse\<close>, with the logo of
  \<open>logoUtils.js\<close>) and sends it (\<open>reply.js\<close>, \<open>sendReply\<close>); every message
  that got that far is then marked read (\<open>reply.js\<close>, \<open>markAsRead\<close>).  The loop
  over a batch (\<open>main.js\<close>, \<open>main-continuous.js\<close>, \<open>server.js\<close>, all three
  \<open>processEmails\<close>/\<open>main\<close>) catches the exception of one message and goes on
  with the next.  Gmail, OpenAI, the file system and the clock are external:
  the model takes what they answer as parameters.

  \<^bold>\<open>Theories.\<close>
  \<^item> \<open>Prelude\<close>: the JavaScript string operations the sources call
    (\<open>toLowerCase\<close>, \<open>toUpperCase\<close>, \<open>trim\<close>, \<open>includes\<close>, \<open>join\<close>, \<open>||\<close> on
    strings) and their lemmas.  Strings are byte strings; messages are taken to
    be ASCII, where JavaScript's code units and the bytes agree.
  \<^item> \<open>JsRegex\<close>: the ECMAScript regular-expression semantics the patterns of the
    sources need, as backtracking matchers that list every continuation in the
    engine's order of preference; \<open>match\<close>, \<open>test\<close>, \<open>split\<close> and a global
    \<open>replace\<close> on top.  Lemmas: a case-insensitive literal test is a substring
    test of the lower-cased text; \<open>split\<close> cuts at or before any position
    where the separator matches; matchers that leave a suffix
    (\<open>suffix_matcher\<close>) or consume only characters of a class
    (\<open>consumes_only\<close>), with the group and the whole match of \<open>match\<close>
    inheriting the class.
  \<^item> \<open>Classifier\<close> (\<open>classifier.js\<close>): \<open>classify_issue\<close> is \<open>classifyIssue\<close>
    with the chat-completion call as a parameter \<open>llm\<close> from the request the
    code builds (\<open>llm_request_of\<close>, \<open>classify_prompt\<close>) to an
    \<open>llm_outcome\<close> (it throws, or it returns a content); the function returns
    the verdict and the list of requests made.  Claims C1--C7: the prefilter
    answers NO without a request; without a key a prefiltered text is YES; an
    error of the service falls back to the regular expression; that expression is
    a test for four words; the answer is read fail-closed; at most one request,
    carrying subject, issue and the first 500 characters of the body; the
    texts that pass the prefilter but fail the fallback are exactly those with
    one of six keywords and none of the four fallback words.

  \<^item> \<open>Base64\<close>: the standard base64 codec of \<open>Buffer\<close> (\<open>toString('base64')\<close>,
    \<open>Buffer.from(s, 'base64')\<close>) on byte lists: encoding by groups of three
    bytes, padding, decoding; round trip and the alphabet.
  \<^item> \<open>MailMessage\<close> (\<open>extractor.js\<close>, body search): the Gmail message and its
    part tree as datatypes, \<open>findBodyInParts\<close> (the first part with a body
    wins, nested parts prefer plain text to HTML) and \<open>cleanHtml\<close> (global
    replacements; the result holds no complete tag).  Claims C12--C14.
  \<^item> \<open>Extractor\<close> (\<open>extractor.js\<close>, \<open>extractInfo\<close>): the header and labelled
    field patterns with their lazy groups and lookaheads, and the fallback
    chain.  Claims C8--C11: extraction fails exactly when the message has no
    payload; the name is never empty; the name and the address (the \<open>To:\<close>
    header of the reply) never contain a line break; the candidate e-mail is
    empty for every message without \<open>@\<close> in the body and without \<open>@\<close> or
    \<open><\<close> in the \<open>From\<close> header.
  \<^item> \<open>Logo\<close> (\<open>logoUtils.js\<close>): \<open>getLogo\<close> over an explicit file system (a
    function from paths to absent, present or unreadable files) and environment;
    the data URI it builds.  Claims C16--C17: never empty; the first existing
    logo file is returned as a data URI typed by its extension.
  \<^item> \<open>Templates\<close> (\<open>templates.js\<close>): the name clean-up by \<open>split\<close>, the
    two templates line by line, the reply body record.  Claims C15, C18--C20:
    the cleaned name is a normal form; the greeting; the image is always there;
    for every name, a field label leaked after it is cut off.
  \<^item> \<open>Dispatcher\<close> (\<open>reply.js\<close>): the MIME text \<open>sendReply\<close> builds (headers,
    Cc, multipart/alternative with the plain part first), the base64url
    transformation, \<open>markAsRead\<close>; the Gmail transport and label service are
    parameters answering an id or an error.  Claims C21--C25: a send either
    fails with nothing recorded or makes exactly one request; the payload
    decodes back to the message; the URL-safe alphabet; plain part first; an
    object body without text is the \<open>TypeError\<close> of the source.
  \<^item> \<open>Orchestrator\<close> (\<open>gmailReader.js\<close>, \<open>main.js\<close>, \<open>main-continuous.js\<close>,
    \<open>server.js\<close>): the mailbox as a record (the unread list in Gmail's order
    and the message store), the collaborators as a record of services, one run
    as a fold of per-message steps producing an event trace and the new
    mailbox, the counters of \<open>server.js\<close>, and repeated runs with delivery of
    new mail as the inductive relation \<open>reachable\<close>.  Claims C26--C36: a
    failing message does not change what happens to the others; the steps of
    one message come in the order extract, classify, send, mark; a failed send
    leaves the message unread; a message marked read is never processed again
    (an invariant of \<open>reachable\<close> by rule induction); a failed mark after a
    sent reply makes a second reply reachable; when every service succeeds a
    run marks every fetched message (liveness); a run refines the abstract
    contract of a batch, which removes from the set of unread ids those of the
    first fifty whose message is handled (extracted, classified NO or replied
    to, and marked), each decided from what the collaborators answer for that
    message alone; the counter
    \<open>replied\<close> counts sent replies, and may exceed \<open>processed\<close>; a batch holds
    at most fifty messages; a failed listing aborts the run.  Claim C40, across
    \<open>Extractor\<close>, \<open>Dispatcher\<close> and \<open>Orchestrator\<close>: the \<open>To:\<close> header of
    every reply that reaches the transport is intact, its line being exactly
    the extracted candidate address, which contains no line break.

  \<^item> \<open>Authorization\<close> (\<open>gmailAuth.js\<close>): \<open>authorize\<close> over the two files
    \<open>credentials.json\<close> and \<open>token.json\<close> as state, with the environment
    variables, JSON values as a datatype, the destructuring of the client
    secret with its \<open>TypeError\<close>s, the token refresh, \<open>getNewToken\<close> and
    \<open>storeToken\<close>; the OAuth library, the console and \<open>JSON.parse\<close> are
    parameters.  In the runs of \<open>Orchestrator\<close> a failed \<open>authorize\<close> is a
    failed listing (\<open>sv_list_ok\<close>).  Claims C37--C39: every error reaches the
    caller as one of two fixed messages; the disk is written only with the
    token the returned client holds, and never when \<open>GMAIL_TOKEN\<close> is set; a
    stored token is reused by the next call.

  \<^bold>\<open>Bounds and termination.\<close> Every operation is a total function: the loops
  of the sources run over finite lists (parts, messages, matches), the
  regular-expression engine recurses on a suffix of its input and the global
  replacement on a strictly shorter rest, with a termination proof by a
  measure; no fuel is needed.  The one bound of the code is \<open>maxResults: 50\<close>
  of \<open>readUnreadMessages\<close>, kept as the constant \<open>max_results\<close>.

  \<^bold>\<open>Not modelled.\<close> The OAuth protocol itself (URLs, scopes, the
  token exchange; only its outcomes are parameters), the HTTP health endpoints of
  \<open>server.js\<close>, the timer of \<open>setInterval\<close> (a run is modelled, and repeated
  runs by \<open>reachable\<close>, not the clock), logging and console output.
\<close>

end
